(* ===== verification/Erp_Prelude.thy ===== *)
theory Erp_Prelude
  imports Main "HOL-Library.Sublist"
begin

text \<open>
  Shared vocabulary of the development: the Python string operations the program uses
  (\<open>startswith\<close>, \<open>in\<close>, \<open>split\<close>, \<open>join\<close>, \<open>strip\<close>, \<open>upper\<close>, \<open>lower\<close>, \<open>str\<close> of an integer) on
  HOL strings, the "first row that matches" loop that several components share, and the
  generic facts about lists and maps the component theories rely on.

  Strings are lists of characters (bytes). The program's own texts are ASCII apart from a
  few dashes in sentences, which are written here as their UTF-8 bytes; where the program
  counts characters rather than bytes (password length) the component models code points.
\<close>

named_theorems erp_defs "definitions unfolded when a branch of an operation is analysed"
named_theorems erp_inv "facts saying that an operation keeps an invariant"

section \<open>Strings as Python sees them\<close>

fun starts_with :: "'a list \<Rightarrow> 'a list \<Rightarrow> bool" where
  "starts_with s [] = True"
| "starts_with [] (_ # _) = False"
| "starts_with (a # s) (b # p) = (a = b \<and> starts_with s p)"

fun contains :: "'a list \<Rightarrow> 'a list \<Rightarrow> bool" where
  "contains [] p = (p = [])"
| "contains (a # s) p = (starts_with (a # s) p \<or> contains s p)"

fun split_on :: "'a \<Rightarrow> 'a list \<Rightarrow> 'a list list" where
  "split_on c [] = [[]]"
| "split_on c (a # s) =
     (if a = c then [] # split_on c s
      else (case split_on c s of [] \<Rightarrow> [[a]] | p # ps \<Rightarrow> (a # p) # ps))"

fun join_with :: "'a list \<Rightarrow> 'a list list \<Rightarrow> 'a list" where
  "join_with sep [] = []"
| "join_with sep [x] = x"
| "join_with sep (x # y # xs) = x @ sep @ join_with sep (y # xs)"

definition is_space :: "char \<Rightarrow> bool" where
  "is_space c \<longleftrightarrow> (let n = (of_char c :: nat) in n = 32 \<or> (9 \<le> n \<and> n \<le> 13) \<or> (28 \<le> n \<and> n \<le> 31))"

definition lstrip :: "string \<Rightarrow> string" where
  "lstrip s = dropWhile is_space s"

definition strip :: "string \<Rightarrow> string" where
  "strip s = rev (dropWhile is_space (rev (lstrip s)))"

definition upper_char :: "char \<Rightarrow> char" where
  "upper_char c = (let n = (of_char c :: nat) in if 97 \<le> n \<and> n \<le> 122 then char_of (n - 32) else c)"

definition lower_char :: "char \<Rightarrow> char" where
  "lower_char c = (let n = (of_char c :: nat) in if 65 \<le> n \<and> n \<le> 90 then char_of (n + 32) else c)"

definition upper_str :: "string \<Rightarrow> string" where
  "upper_str s = map upper_char s"

definition lower_str :: "string \<Rightarrow> string" where
  "lower_str s = map lower_char s"

definition is_digit :: "char \<Rightarrow> bool" where
  "is_digit c \<longleftrightarrow> (let n = (of_char c :: nat) in 48 \<le> n \<and> n \<le> 57)"

definition digit_val :: "char \<Rightarrow> nat" where
  "digit_val c = (of_char c :: nat) - 48"

fun nat_str :: "nat \<Rightarrow> string" where
  "nat_str n = (if n < 10 then [char_of (48 + n)] else nat_str (n div 10) @ [char_of (48 + n mod 10)])"

declare nat_str.simps [simp del]

definition int_str :: "int \<Rightarrow> string" where
  "int_str i = (if i < 0 then ''-'' @ nat_str (nat (- i)) else nat_str (nat i))"

definition zfill :: "nat \<Rightarrow> string \<Rightarrow> string" where
  "zfill n s = replicate (n - length s) (CHR ''0'') @ s"

text \<open>
  The same operations over binary integers, for evaluation: a natural number is unary there.
\<close>

function pos_str :: "int \<Rightarrow> string" where
  "pos_str i = (if i < 10 then [char_of (48 + i)] else pos_str (i div 10) @ [char_of (48 + i mod 10)])"
  by auto
termination by (relation "measure nat") auto

declare pos_str.simps [simp del]

lemma char_of_nat_int: "0 \<le> i \<Longrightarrow> (char_of (nat i) :: char) = char_of i"
  by (simp add: char_of_def bit_nat_iff even_nat_iff)

lemma of_char_int: "(of_char c :: int) = int (of_char c)"
  by (cases c) (simp add: horner_sum_simps)

lemma pos_str_nat: "0 \<le> i \<Longrightarrow> pos_str i = nat_str (nat i)"
proof (induction i rule: pos_str.induct)
  case (1 i)
  have c: "(char_of (48 + nat j) :: char) = char_of (48 + j)" if "0 \<le> j" for j :: int
    using that char_of_nat_int[of "48 + j"] by (simp add: nat_add_distrib)
  show ?case
  proof (cases "i < 10")
    case True
    with 1(2) c[of i] show ?thesis
      by (subst pos_str.simps, subst nat_str.simps) (simp add: nat_less_iff)
  next
    case False
    have ih: "pos_str (i div 10) = nat_str (nat i div 10)"
      using 1 False by (simp add: nat_div_distrib)
    have "nat i mod 10 = nat (i mod 10)" using 1(2) by (simp add: nat_mod_distrib)
    then have last1: "char_of (48 + nat i mod 10) = (char_of (48 + i mod 10) :: char)"
      using c[of "i mod 10"] by (metis pos_mod_sign zero_less_numeral)
    have "\<not> nat i < 10" using False by simp
    then have "nat_str (nat i) = nat_str (nat i div 10) @ [char_of (48 + nat i mod 10)]"
      by (subst nat_str.simps) (simp only: if_False)
    with False show ?thesis unfolding pos_str.simps[of i] ih last1 by (simp only: if_False)
  qed
qed

lemma nat_str_code [code]: "nat_str n = pos_str (int n)"
  by (simp add: pos_str_nat)

lemma nat_str_of_int [code_unfold]: "nat_str (nat i) = pos_str (max 0 i)"
  by (simp add: pos_str_nat max_def)

lemma int_str_code [code]: "int_str i = (if i < 0 then CHR ''-'' # pos_str (- i) else pos_str i)"
  by (simp add: int_str_def pos_str_nat)

lemma char_class_code [code]:
  "is_space c \<longleftrightarrow> (let n = (of_char c :: int) in n = 32 \<or> (9 \<le> n \<and> n \<le> 13) \<or> (28 \<le> n \<and> n \<le> 31))"
  "is_digit c \<longleftrightarrow> (let n = (of_char c :: int) in 48 \<le> n \<and> n \<le> 57)"
  "digit_val c = nat ((of_char c :: int) - 48)"
  by (auto simp: is_space_def is_digit_def digit_val_def Let_def of_char_int nat_diff_distrib)

lemma char_case_code [code]:
  "upper_char c = (let n = (of_char c :: int) in if 97 \<le> n \<and> n \<le> 122 then char_of (n - 32) else c)"
  "lower_char c = (let n = (of_char c :: int) in if 65 \<le> n \<and> n \<le> 90 then char_of (n + 32) else c)"
  using char_of_nat_int[of "(of_char c :: int) - 32"] char_of_nat_int[of "(of_char c :: int) + 32"]
  by (auto simp: upper_char_def lower_char_def Let_def of_char_int nat_diff_distrib nat_add_distrib)

lemma starts_with_prefix: "starts_with s p \<longleftrightarrow> prefix p s"
  by (induction s p rule: starts_with.induct) auto

lemma starts_with_append [simp]: "starts_with (p @ s) p"
  by (simp add: starts_with_prefix)

lemma contains_sublist: "contains s p \<longleftrightarrow> sublist p s"
  by (induction s) (auto simp: starts_with_prefix sublist_Cons_right)

lemma split_on_nonempty [simp]: "split_on c s \<noteq> []"
  by (induction s) (auto split: list.splits)

lemma join_split [simp]: "join_with [c] (split_on c s) = s"
proof (induction s)
  case (Cons a s)
  obtain p ps where ps: "split_on c s = p # ps"
    using split_on_nonempty by (metis neq_Nil_conv)
  with Cons show ?case by (cases ps) auto
qed simp

lemma split_on_no_sep: "p \<in> set (split_on c s) \<Longrightarrow> c \<notin> set p"
  by (induction s arbitrary: p) (fastforce split: list.splits if_splits)+

lemma split_on_single: "c \<notin> set p \<Longrightarrow> split_on c p = [p]"
  by (induction p) auto

lemma split_on_append_sep: "c \<notin> set p \<Longrightarrow> split_on c (p @ c # s) = p # split_on c s"
  by (induction p) auto

lemma split_join:
  "xs \<noteq> [] \<Longrightarrow> \<forall>x \<in> set xs. c \<notin> set x \<Longrightarrow> split_on c (join_with [c] xs) = xs"
  by (induction "[c]" xs rule: join_with.induct) (auto simp: split_on_single split_on_append_sep)

lemma nat_str_nonempty [simp]: "nat_str n \<noteq> []"
  by (subst nat_str.simps) simp

lemma of_char_digit: "m < 10 \<Longrightarrow> (of_char (char_of (48 + m :: nat)) :: nat) = 48 + m"
  by (simp add: of_char_of)

lemma nat_str_digits: "c \<in> set (nat_str n) \<Longrightarrow> is_digit c"
proof (induction n rule: nat_str.induct)
  case (1 n)
  have d: "is_digit (char_of (48 + m :: nat))" if "m < 10" for m
    using that by (simp add: is_digit_def of_char_digit)
  show ?case
  proof (cases "n < 10")
    case True
    with 1 show ?thesis by (simp add: nat_str.simps[of n] d)
  next
    case False
    with 1 show ?thesis by (auto simp: nat_str.simps[of n] d)
  qed
qed

lemma int_str_nonempty [simp]: "int_str i \<noteq> []"
  by (simp add: int_str_def)

lemma is_digit_neq:
  "\<not> is_digit (CHR ''/'')" "\<not> is_digit (CHR ''{'')" "\<not> is_digit (CHR ''}'')" "\<not> is_digit (CHR ''e'')"
  by (simp_all add: is_digit_def)

lemma int_str_clean:
  "CHR ''/'' \<notin> set (int_str i)" "CHR ''{'' \<notin> set (int_str i)" "CHR ''}'' \<notin> set (int_str i)"
  using is_digit_neq nat_str_digits by (auto simp: int_str_def split: if_splits)

section \<open>The first row that matches\<close>

text \<open>
  Several loops of the program walk a table and stop at the first row whose test is true
  (the \<open>for ... break\<close> / \<open>for ... return\<close> idiom). \<open>List.find\<close> is that loop; what its result
  says about the rows before it is stated once here.
\<close>

lemma find_Some_split:
  "find P xs = Some x \<Longrightarrow> \<exists>us vs. xs = us @ x # vs \<and> P x \<and> (\<forall>u \<in> set us. \<not> P u)"
proof (induction xs)
  case (Cons a xs)
  show ?case
  proof (cases "P a")
    case True
    with Cons.prems show ?thesis by (intro exI[of _ "[]"] exI[of _ xs]) simp
  next
    case False
    with Cons.prems have "find P xs = Some x" by simp
    from Cons.IH[OF this] obtain us vs
      where "xs = us @ x # vs" "P x" "\<forall>u \<in> set us. \<not> P u" by blast
    with False show ?thesis by (intro exI[of _ "a # us"] exI[of _ vs]) simp
  qed
qed simp

lemma find_hit: "\<forall>u \<in> set us. \<not> P u \<Longrightarrow> P x \<Longrightarrow> find P (us @ x # vs) = Some x"
  by (induction us) auto

lemma find_Some_D: "find P xs = Some x \<Longrightarrow> x \<in> set xs \<and> P x"
  by (induction xs) (auto split: if_splits)

lemma find_None_D: "find P xs = None \<Longrightarrow> x \<in> set xs \<Longrightarrow> \<not> P x"
  by (auto simp: find_None_iff)

lemma find_map_update:
  "(\<And>x. P (f x) = P x) \<Longrightarrow> find P (map f xs) = map_option f (find P xs)"
  by (induction xs) auto

lemma find_cong_set: "(\<And>x. x \<in> set xs \<Longrightarrow> P x = Q x) \<Longrightarrow> find P xs = find Q xs"
  by (induction xs) auto

lemma find_map_update_set:
  "(\<And>x. x \<in> set xs \<Longrightarrow> P (f x) = P x) \<Longrightarrow> find P (map f xs) = map_option f (find P xs)"
  by (induction xs) auto

lemma find_only: "x \<in> set xs \<Longrightarrow> (\<And>y. y \<in> set xs \<Longrightarrow> P (f y) = (y = x)) \<Longrightarrow> find P (map f xs) = Some (f x)"
  by (induction xs) auto

section \<open>Optional values\<close>

text \<open>Python's truth test on an optional string: \<open>None\<close> and \<open>''''\<close> are both false.\<close>

definition truthy :: "string option \<Rightarrow> bool" where
  "truthy v \<longleftrightarrow> (case v of None \<Rightarrow> False | Some s \<Rightarrow> s \<noteq> [])"

lemma truthy_Some [simp]: "truthy (Some s) \<longleftrightarrow> s \<noteq> []"
  and truthy_None [simp]: "\<not> truthy None"
  by (simp_all add: truthy_def)

lemma truthyE: "truthy v \<Longrightarrow> (\<And>s. v = Some s \<Longrightarrow> s \<noteq> [] \<Longrightarrow> thesis) \<Longrightarrow> thesis"
  by (cases v) auto

definition or_else :: "'a option \<Rightarrow> 'a \<Rightarrow> 'a" where
  "or_else v d = (case v of None \<Rightarrow> d | Some x \<Rightarrow> x)"

lemma or_else_simps [simp]: "or_else None d = d" "or_else (Some x) d = x"
  by (simp_all add: or_else_def)

section \<open>Updating the rows of a table\<close>

text \<open>
  A table is the list of its rows in the order of their ids. An \<open>UPDATE ... WHERE\<close> is a map
  over the rows, a \<open>DELETE ... WHERE\<close> a filter.
\<close>

definition update_where :: "('r \<Rightarrow> bool) \<Rightarrow> ('r \<Rightarrow> 'r) \<Rightarrow> 'r list \<Rightarrow> 'r list" where
  "update_where P f rs = map (\<lambda>r. if P r then f r else r) rs"

lemma update_where_Nil [simp]: "update_where P f [] = []"
  and update_where_Cons [simp]:
    "update_where P f (r # rs) = (if P r then f r else r) # update_where P f rs"
  by (simp_all add: update_where_def)

lemma length_update_where [simp]: "length (update_where P f rs) = length rs"
  by (simp add: update_where_def)

lemma update_where_id: "(\<And>r. r \<in> set rs \<Longrightarrow> P r \<Longrightarrow> f r = r) \<Longrightarrow> update_where P f rs = rs"
  by (induction rs) auto

lemma set_update_where:
  "r' \<in> set (update_where P f rs) \<longleftrightarrow> (\<exists>r \<in> set rs. r' = (if P r then f r else r))"
  by (auto simp: update_where_def)

lemma map_update_where_same:
  "(\<And>r. P r \<Longrightarrow> g (f r) = g r) \<Longrightarrow> map g (update_where P f rs) = map g rs"
  by (induction rs) auto

lemma filter_update_where:
  "(\<And>r. P (f r) = P r) \<Longrightarrow>
   filter P (update_where Q f rs) = map (\<lambda>r. if Q r then f r else r) (filter P rs)"
  by (induction rs) auto

text \<open>Ids handed out by the database: one more than the largest so far.\<close>

definition next_id :: "('r \<Rightarrow> nat) \<Rightarrow> 'r list \<Rightarrow> nat" where
  "next_id key rs = Suc (foldr max (map key rs) 0)"

lemma foldr_max_ge: "x \<in> set xs \<Longrightarrow> x \<le> foldr max xs (0::nat)"
  by (induction xs) auto

lemma next_id_fresh: "r \<in> set rs \<Longrightarrow> key r < next_id key rs"
  by (simp add: next_id_def le_imp_less_Suc foldr_max_ge)

lemma next_id_notin [simp]: "next_id key rs \<notin> key ` set rs"
proof
  assume "next_id key rs \<in> key ` set rs"
  then obtain r where "r \<in> set rs" "key r = next_id key rs" by auto
  with next_id_fresh[of r rs key] show False by simp
qed

lemma next_id_pos [simp]: "0 < next_id key rs"
  by (simp add: next_id_def)

section \<open>Decision tables\<close>

text \<open>
  A table walked from the top until a row applies. Its rows have distinct keys, so the
  chosen row is known by its key, and a row below the chosen one has no say.
\<close>

locale decision_table =
  fixes rows :: "'r list"
    and key :: "'r \<Rightarrow> 'k"
    and applies :: "'x \<Rightarrow> 'r \<Rightarrow> bool"
  assumes distinct_keys: "distinct (map key rows)"
begin

lemma chosen_unique:
  assumes "find (applies x) rows = Some r" and "r' \<in> set rows" and "key r' = key r"
  shows "r' = r"
  using assms distinct_keys by (metis distinct_map find_Some_D inj_onD)

lemma chosen_row:
  assumes "rows = us @ r # vs" and "applies x r" and "\<forall>u \<in> set us. \<not> applies x u"
  shows "find (applies x) rows = Some r"
  using assms by (simp add: find_hit)

lemma chosen_only:
  assumes "r \<in> set rows" and "applies x r"
    and "\<And>r'. r' \<in> set rows \<Longrightarrow> applies x r' \<Longrightarrow> key r' = key r"
  shows "find (applies x) rows = Some r"
proof -
  obtain r' where r': "find (applies x) rows = Some r'"
    using assms(1,2) find_None_D by (metis option.exhaust)
  then have "r' \<in> set rows" "applies x r'" by (auto dest: find_Some_D)
  with assms have "key r = key r'" by metis
  from chosen_unique[OF r' assms(1) this] r' show ?thesis by simp
qed

lemma chosen_by_agreement:
  "(\<And>r. r \<in> set rows \<Longrightarrow> applies x r = applies y r) \<Longrightarrow>
   find (applies x) rows = find (applies y) rows"
  by (rule find_cong_set)

end

section \<open>Errors as values\<close>

text \<open>A step that may raise, then the rest: \<open>Inl\<close> is the exception that is on its way up.\<close>

definition sbind :: "'e + 'a \<Rightarrow> ('a \<Rightarrow> 'e + 'b) \<Rightarrow> 'e + 'b" where
  "sbind m f = (case m of Inl e \<Rightarrow> Inl e | Inr x \<Rightarrow> f x)"

lemma sbind_simps [simp]: "sbind (Inl e) f = Inl e" "sbind (Inr x) f = f x"
  by (simp_all add: sbind_def)

lemma sbind_Inr: "sbind m f = Inr y \<longleftrightarrow> (\<exists>x. m = Inr x \<and> f x = Inr y)"
  by (cases m) auto

lemma sbind_cong [fundef_cong]: "m = m' \<Longrightarrow> (\<And>x. m' = Inr x \<Longrightarrow> f x = f' x) \<Longrightarrow> sbind m f = sbind m' f'"
  by (cases m') auto

end
