(* ===== verification/Py_Values.thy ===== *)
theory Py_Values
  imports Erp_Prelude Complex_Main "HOL-Library.Log_Nat"
begin

text \<open>
  The Python values the program computes with: naive UTC times (\<open>utils/time.py\<close>), JSON
  bodies, binary64 floats, \<open>Decimal\<close> quantisation and the shortest decimal of a float
  (\<open>str(v)\<close>), which is how a cabinet's float becomes a \<open>Decimal\<close>.

  A time is the number of microseconds since 1970-01-01T00:00:00, in UTC, without a zone;
  a \<open>timedelta\<close> is a number of microseconds. Floats are finite binary64 values, held as
  the rational they denote; infinities and NaN do not occur in the model.
\<close>

section \<open>Texts\<close>

text \<open>
  A text is its UTF-8 bytes: a byte 10xxxxxx continues the character before it. \<open>char_count\<close> is
  \<open>len(s)\<close> and \<open>cut n s\<close> is \<open>s[:n]\<close>, both in characters.
\<close>

definition continues :: "char \<Rightarrow> bool" where "continues c \<longleftrightarrow> digit7 c \<and> \<not> digit6 c"

definition char_count :: "string \<Rightarrow> nat" where
  "char_count s = length (filter (\<lambda>c. \<not> continues c) s)"

fun cut :: "int \<Rightarrow> string \<Rightarrow> string" where
  "cut n [] = []"
| "cut n (c # s) =
     (if continues c then c # cut n s else if n \<le> 0 then [] else c # cut (n - 1) s)"

lemma cut_short: "int (char_count s) \<le> n \<Longrightarrow> cut n s = s"
  by (induction n s rule: cut.induct) (auto simp: char_count_def split: if_splits)

lemma char_count_cut: "0 \<le> n \<Longrightarrow> int (char_count (cut n s)) \<le> n"
  by (induction n s rule: cut.induct) (auto simp: char_count_def split: if_splits)

section \<open>Times\<close>

type_synonym dtime = int
type_synonym tdelta = int

definition usec :: int where "usec = 1000000"

definition seconds :: "int \<Rightarrow> tdelta" where "seconds n = n * usec"
definition minutes :: "int \<Rightarrow> tdelta" where "minutes n = n * (60 * usec)"
definition hours :: "int \<Rightarrow> tdelta" where "hours n = n * (3600 * usec)"
definition days :: "int \<Rightarrow> tdelta" where "days n = n * (86400 * usec)"

lemmas tdelta_defs = seconds_def minutes_def hours_def days_def usec_def

definition total_seconds_floor :: "tdelta \<Rightarrow> int" where
  "total_seconds_floor d = d div usec"

definition day_number :: "dtime \<Rightarrow> int" where
  "day_number t = t div days 1"

definition hour_of :: "dtime \<Rightarrow> int" where
  "hour_of t = (t div hours 1) mod 24"

definition minute_of :: "dtime \<Rightarrow> int" where
  "minute_of t = (t div minutes 1) mod 60"

definition second_of :: "dtime \<Rightarrow> int" where
  "second_of t = (t div seconds 1) mod 60"

text \<open>Proleptic Gregorian date of a day number (days since 1970-01-01).\<close>

definition civil_from_days :: "int \<Rightarrow> int \<times> int \<times> int" where
  "civil_from_days n =
     (let z = n + 719468; era = z div 146097; doe = z mod 146097;
          yoe = (doe - doe div 1460 + doe div 36524 - doe div 146096) div 365;
          doy = doe - (365 * yoe + yoe div 4 - yoe div 100);
          mp = (5 * doy + 2) div 153;
          d = doy - (153 * mp + 2) div 5 + 1;
          m = (if mp < 10 then mp + 3 else mp - 9)
      in (yoe + era * 400 + (if m \<le> 2 then 1 else 0), m, d))"

definition days_from_civil :: "int \<times> int \<times> int \<Rightarrow> int" where
  "days_from_civil = (\<lambda>(y0, m, d).
     (let y = (if m \<le> 2 then y0 - 1 else y0); era = y div 400; yoe = y mod 400;
          doy = (153 * (if m > 2 then m - 3 else m + 9) + 2) div 5 + d - 1;
          doe = yoe * 365 + yoe div 4 - yoe div 100 + doy
      in era * 146097 + doe - 719468))"

definition month_of :: "dtime \<Rightarrow> int \<times> int" where
  "month_of t = (case civil_from_days (day_number t) of (y, m, _) \<Rightarrow> (y, m))"

definition two_digits :: "int \<Rightarrow> string" where
  "two_digits n = zfill 2 (nat_str (nat n))"

text \<open>\<open>strftime("%H:%M")\<close>, \<open>date().isoformat()\<close> and \<open>isoformat()\<close> of a naive time.\<close>

definition hh_mm :: "dtime \<Rightarrow> string" where
  "hh_mm t = two_digits (hour_of t) @ '':'' @ two_digits (minute_of t)"

definition date_iso :: "dtime \<Rightarrow> string" where
  "date_iso t = (case civil_from_days (day_number t) of (y, m, d) \<Rightarrow>
     zfill 4 (nat_str (nat y)) @ ''-'' @ two_digits m @ ''-'' @ two_digits d)"

definition iso_str :: "dtime \<Rightarrow> string" where
  "iso_str t = date_iso t @ ''T'' @ hh_mm t @ '':'' @ two_digits (second_of t) @
     (let us = t mod usec in if us = 0 then [] else ''.'' @ zfill 6 (nat_str (nat us)))"

lemma civil_epoch: "civil_from_days 0 = (1970, 1, 1)"
  and civil_leap: "civil_from_days 11016 = (2000, 2, 29)"
  by code_simp+

section \<open>Reading an ISO time\<close>

text \<open>
  \<open>datetime.fromisoformat\<close> for the extended format the cabinet writes:
  \<open>YYYY-MM-DD[?HH[:MM[:SS[.f+]]]][(+|-)HH:MM[:SS]]\<close>, with \<open>?\<close> any separator character. Other spellings
  the function accepts (basic format, week dates) are not read by the model. The result is
  a naive time with the offset of the string, if it had one.
\<close>

fun all_digits :: "string \<Rightarrow> bool" where
  "all_digits s = (s \<noteq> [] \<and> list_all is_digit s)"

definition read_nat :: "string \<Rightarrow> nat" where
  "read_nat s = foldl (\<lambda>n c. 10 * n + digit_val c) 0 s"

lemma all_digits_nat_str: "all_digits (nat_str n)"
  using nat_str_digits[of _ n] by (simp add: list_all_iff)

lemma digit_val_of: "m < 10 \<Longrightarrow> digit_val (char_of (48 + m :: nat)) = m"
  by (simp add: digit_val_def of_char_digit)

lemma read_nat_str: "read_nat (nat_str n) = n"
proof (induction n rule: nat_str.induct)
  case (1 n)
  show ?case
  proof (cases "n < 10")
    case True
    then show ?thesis by (simp add: nat_str.simps[of n] read_nat_def digit_val_of)
  next
    case False
    with 1 show ?thesis by (simp add: nat_str.simps[of n] read_nat_def digit_val_of)
  qed
qed

text \<open>\<open>read_nat\<close> over binary integers, for evaluation.\<close>

definition read_int :: "string \<Rightarrow> int" where
  "read_int s = foldl (\<lambda>n c. 10 * n + int (digit_val c)) 0 s"

lemma read_int_nat: "read_int s = int (read_nat s)"
proof -
  have "foldl (\<lambda>n c. 10 * n + int (digit_val c)) (int a) s = int (foldl (\<lambda>n c. 10 * n + digit_val c) a s)" for a
  proof (induction s arbitrary: a)
    case (Cons c s)
    from Cons[of "10 * a + digit_val c"] show ?case by simp
  qed simp
  from this[of 0] show ?thesis by (simp add: read_int_def read_nat_def)
qed

lemma read_nat_code [code]: "read_nat s = nat (read_int s)"
  by (simp add: read_int_nat)

lemma read_nat_int [code_unfold]: "int (read_nat s) = read_int s"
  by (simp add: read_int_nat)

definition read_fixed :: "nat \<Rightarrow> string \<Rightarrow> nat option" where
  "read_fixed k s = (if length s = k \<and> all_digits s then Some (read_nat s) else None)"

definition days_in_month :: "int \<Rightarrow> int \<Rightarrow> int" where
  "days_in_month y m =
     (if m = 2 then (if y mod 4 = 0 \<and> (y mod 100 \<noteq> 0 \<or> y mod 400 = 0) then 29 else 28)
      else if m = 4 \<or> m = 6 \<or> m = 9 \<or> m = 11 then 30 else 31)"

definition read_date :: "string \<Rightarrow> int option" where
  "read_date s = (case split_on (CHR ''-'') s of
     [ys, ms, ds] \<Rightarrow>
       (case (read_fixed 4 ys, read_fixed 2 ms, read_fixed 2 ds) of
          (Some y, Some m, Some d) \<Rightarrow>
            if 1 \<le> y \<and> 1 \<le> m \<and> m \<le> 12 \<and> 1 \<le> d \<and> int d \<le> days_in_month (int y) (int m)
            then Some (days_from_civil (int y, int m, int d)) else None
        | _ \<Rightarrow> None)
   | _ \<Rightarrow> None)"

definition read_seconds :: "string \<Rightarrow> int option" where
  "read_seconds s = (case split_on (CHR ''.'') s of
     [ss] \<Rightarrow> map_option (\<lambda>n. seconds (int n)) (read_fixed 2 ss)
   | [ss, f] \<Rightarrow> (case read_fixed 2 ss of
        Some n \<Rightarrow> if all_digits f
                  then Some (seconds (int n) + int (read_nat (take 6 (f @ ''000000'')))) else None
      | None \<Rightarrow> None)
   | _ \<Rightarrow> None)"

definition read_clock :: "string \<Rightarrow> int option" where
  "read_clock s =
     (let parts = split_on (CHR '':'') s;
          h = (case parts of hs # _ \<Rightarrow> read_fixed 2 hs | _ \<Rightarrow> None);
          m = (case parts of [_] \<Rightarrow> Some 0 | _ # ms # _ \<Rightarrow> read_fixed 2 ms | _ \<Rightarrow> None);
          sec = (case parts of [_] \<Rightarrow> Some 0 | [_, _] \<Rightarrow> Some 0 | [_, _, ss] \<Rightarrow> read_seconds ss | _ \<Rightarrow> None)
      in (case (h, m, sec) of
            (Some h', Some m', Some s') \<Rightarrow>
              if h' < 24 \<and> m' < 60 \<and> s' < seconds 60
              then Some (hours (int h') + minutes (int m') + s') else None
          | _ \<Rightarrow> None))"

text \<open>The clock part ends where the offset starts: at the first sign.\<close>

definition is_sign :: "char \<Rightarrow> bool" where
  "is_sign c \<longleftrightarrow> c = CHR ''+'' \<or> c = CHR ''-''"

datatype parsed_time = Naive dtime | Aware dtime tdelta

definition read_offset :: "string \<Rightarrow> tdelta option" where
  "read_offset off = (case off of
     [] \<Rightarrow> None
   | sg # offs \<Rightarrow> map_option (\<lambda>sh. if sg = CHR ''-'' then - sh else sh) (read_clock offs))"

definition fromisoformat :: "string \<Rightarrow> parsed_time option" where
  "fromisoformat s =
     (let rest = drop 11 s;
          clock = takeWhile (\<lambda>c. \<not> is_sign c) rest;
          off = dropWhile (\<lambda>c. \<not> is_sign c) rest
      in case read_date (take 10 s) of
           None \<Rightarrow> None
         | Some dn \<Rightarrow>
             if length s = 10 then Some (Naive (days dn))
             else (case read_clock clock of
                     None \<Rightarrow> None
                   | Some ck \<Rightarrow>
                       if off = [] then Some (Naive (days dn + ck))
                       else map_option (Aware (days dn + ck)) (read_offset off)))"

text \<open>\<open>to_naive_utc\<close>: a naive input is refused, an aware one is converted.\<close>

datatype time_error = ValueError

definition to_naive_utc :: "parsed_time \<Rightarrow> time_error + dtime" where
  "to_naive_utc t = (case t of Naive _ \<Rightarrow> Inl ValueError | Aware d off \<Rightarrow> Inr (d - off))"

text \<open>\<open>str.replace("Z", "+00:00")\<close>.\<close>

fun replace_Z :: "string \<Rightarrow> string" where
  "replace_Z [] = []"
| "replace_Z (c # s) = (if c = CHR ''Z'' then ''+00:00'' @ replace_Z s else c # replace_Z s)"

text \<open>\<open>parse_utc\<close>: \<open>None\<close> and the empty string are \<open>None\<close>; an offset is converted, a time
  without a zone is taken as UTC; anything unreadable raises.\<close>

definition parse_utc :: "string option \<Rightarrow> time_error + dtime option" where
  "parse_utc v = (case v of
     None \<Rightarrow> Inr None
   | Some s \<Rightarrow>
       if s = [] then Inr None
       else (case fromisoformat (replace_Z s) of
               None \<Rightarrow> Inl ValueError
             | Some (Naive d) \<Rightarrow> Inr (Some d)
             | Some (Aware d off) \<Rightarrow>
                 (case to_naive_utc (Aware d off) of Inl e \<Rightarrow> Inl e | Inr u \<Rightarrow> Inr (Some u))))"

section \<open>Floats and decimals\<close>

definition pow2 :: "int \<Rightarrow> rat" where
  "pow2 e = (if 0 \<le> e then 2 ^ nat e else 1 / 2 ^ nat (- e))"

definition pow10 :: "int \<Rightarrow> rat" where
  "pow10 e = (if 0 \<le> e then 10 ^ nat e else 1 / 10 ^ nat (- e))"

definition round_half_even :: "rat \<Rightarrow> int" where
  "round_half_even x =
     (let f = \<lfloor>x\<rfloor>; d = x - of_int f
      in if d < 1 / 2 then f else if 1 / 2 < d then f + 1 else if even f then f else f + 1)"

text \<open>\<open>\<lfloor>log2 x\<rfloor>\<close> of a positive rational, from the bit lengths of its numerator and denominator.\<close>

definition flog2 :: "rat \<Rightarrow> int" where
  "flog2 x = (case quotient_of x of (p, q) \<Rightarrow>
     (let k = bitlen p - bitlen q in if pow2 k \<le> x then k else k - 1))"

text \<open>Round to nearest, ties to even, 53 bits, gradual underflow: a float operation is the
  exact result rounded this way.\<close>

definition fl :: "rat \<Rightarrow> rat" where
  "fl x = (if x = 0 then 0
           else (let e = max (flog2 \<bar>x\<bar> - 52) (- 1074)
                 in sgn x * of_int (round_half_even (\<bar>x\<bar> / pow2 e)) * pow2 e))"

definition fsub :: "rat \<Rightarrow> rat \<Rightarrow> rat" where
  "fsub a b = fl (a - b)"

text \<open>The decimal \<open>str(v)\<close> shows: the fewest significant digits that read back as \<open>v\<close>, and of
  those the nearest to \<open>v\<close>. \<open>expo10\<close> is the decimal exponent of the leading digit.\<close>

fun expo10_up :: "nat \<Rightarrow> rat \<Rightarrow> int" where
  "expo10_up 0 x = 0"
| "expo10_up (Suc n) x = (if 10 \<le> x then 1 + expo10_up n (x / 10) else if x < 1 then expo10_up n (x * 10) - 1 else 0)"

definition repr_try :: "rat \<Rightarrow> int \<Rightarrow> rat option" where
  "repr_try x k =
     (let u = pow10 k; lo = of_int \<lfloor>x / u\<rfloor> * u; hi = lo + u
      in if fl lo = x \<and> fl hi = x then Some (if x - lo \<le> hi - x then lo else hi)
         else if fl lo = x then Some lo else if fl hi = x then Some hi else None)"

fun repr_from :: "nat \<Rightarrow> rat \<Rightarrow> int \<Rightarrow> rat" where
  "repr_from 0 x k = x"
| "repr_from (Suc n) x k = (case repr_try x k of Some d \<Rightarrow> d | None \<Rightarrow> repr_from n x (k - 1))"

definition float_repr :: "rat \<Rightarrow> rat" where
  "float_repr x = (if x = 0 then 0 else sgn x * repr_from 17 \<bar>x\<bar> (expo10_up 340 \<bar>x\<bar>))"

text \<open>\<open>Decimal.quantize\<close> to \<open>p\<close> places, ROUND_HALF_EVEN (the default context).\<close>

definition quantize :: "nat \<Rightarrow> rat \<Rightarrow> rat" where
  "quantize p x = of_int (round_half_even (x * 10 ^ p)) / 10 ^ p"

lemma round_half_even_int [simp]: "round_half_even (of_int n) = n"
  by (simp add: round_half_even_def)

lemma quantize_idem [simp]: "quantize p (quantize p x) = quantize p x"
  by (simp add: quantize_def)

lemma quantize_0 [simp]: "quantize p 0 = 0"
  using round_half_even_int[of 0] by (simp add: quantize_def)

lemma round_half_even_mono: "x \<le> y \<Longrightarrow> round_half_even x \<le> round_half_even y"
proof -
  assume le: "x \<le> y"
  then have fl: "\<lfloor>x\<rfloor> \<le> \<lfloor>y\<rfloor>" by (rule floor_mono)
  have up: "round_half_even x \<le> \<lfloor>x\<rfloor> + 1" and lo: "\<lfloor>y\<rfloor> \<le> round_half_even y"
    by (auto simp: round_half_even_def Let_def)
  show ?thesis
  proof (cases "\<lfloor>x\<rfloor> = \<lfloor>y\<rfloor>")
    case True
    with le show ?thesis by (auto simp: round_half_even_def Let_def)
  next
    case False
    with fl up lo show ?thesis by linarith
  qed
qed

lemma quantize_mono: "x \<le> y \<Longrightarrow> quantize p x \<le> quantize p y"
  by (simp add: quantize_def divide_right_mono round_half_even_mono)

section \<open>JSON\<close>

text \<open>A decoded JSON value. An object is the list of its items; keys are distinct, as in
  the \<open>dict\<close> that \<open>json.loads\<close> builds.\<close>

datatype json =
    JNull
  | JBool bool
  | JInt int
  | JFloat rat
  | JStr string
  | JList "json list"
  | JObj "(string \<times> json) list"

text \<open>\<open>d.get(k)\<close>: the value, or \<open>None\<close>.\<close>

definition jget :: "(string \<times> json) list \<Rightarrow> string \<Rightarrow> json" where
  "jget ob k = (case map_of ob k of None \<Rightarrow> JNull | Some v \<Rightarrow> v)"

definition has_key :: "(string \<times> json) list \<Rightarrow> string \<Rightarrow> bool" where
  "has_key ob k \<longleftrightarrow> map_of ob k \<noteq> None"

text \<open>Python's truth test on a JSON value, and \<open>is None\<close>.\<close>

fun jtrue :: "json \<Rightarrow> bool" where
  "jtrue JNull = False"
| "jtrue (JBool b) = b"
| "jtrue (JInt i) = (i \<noteq> 0)"
| "jtrue (JFloat x) = (x \<noteq> 0)"
| "jtrue (JStr s) = (s \<noteq> [])"
| "jtrue (JList l) = (l \<noteq> [])"
| "jtrue (JObj l) = (l \<noteq> [])"

fun jstr :: "json \<Rightarrow> string option" where
  "jstr (JStr s) = Some s"
| "jstr _ = None"

fun jobj :: "json \<Rightarrow> (string \<times> json) list option" where
  "jobj (JObj ob) = Some ob"
| "jobj _ = None"

fun jlist :: "json \<Rightarrow> json list option" where
  "jlist (JList l) = Some l"
| "jlist _ = None"

text \<open>Python's \<open>==\<close> between an integer and a JSON value: \<open>True\<close> is 1 and a float compares by value.\<close>

fun jint_eq :: "int \<Rightarrow> json \<Rightarrow> bool" where
  "jint_eq n (JInt i) = (i = n)"
| "jint_eq n (JBool b) = (n = (if b then 1 else 0))"
| "jint_eq n (JFloat x) = (x = of_int n)"
| "jint_eq n _ = False"

lemma jget_filter:
  "P k \<Longrightarrow> jget (filter (\<lambda>(k', _). P k') ob) k = jget ob k"
  by (induction ob) (auto simp: jget_def)

lemma has_key_filter:
  "has_key (filter (\<lambda>(k', _). P k') ob) k \<longleftrightarrow> P k \<and> has_key ob k"
  by (induction ob) (auto simp: has_key_def)

lemma has_key_iff: "has_key ob k \<longleftrightarrow> k \<in> fst ` set ob"
  by (simp add: has_key_def map_of_eq_None_iff)

end
