(* ===== verification/Berth_Status.thy ===== *)
theory Berth_Status
  imports Py_Values
begin

text \<open>
  \<open>cabinet/berth_status.py\<close>: the state of a berth, computed once, on the server. Four
  independent signals (connection, vessel, power, reservation), the occupancy table whose
  first true row gives the berth's one colour, and the list of cabinet alarms, which is
  never a colour. The lemmas say which signals each colour stands for, that a berth is
  green or blue only on positive, fresh evidence, that alarms and colour do not influence
  each other, and that the signals only get weaker as time passes without new data.
\<close>

section \<open>Signals\<close>

definition OFFLINE_AFTER :: tdelta where "OFFLINE_AFTER = minutes 10"
definition VESSEL_FRESH_FOR :: tdelta where "VESSEL_FRESH_FOR = minutes 30"
definition DEFAULT_HEARTBEAT_INTERVAL :: tdelta where "DEFAULT_HEARTBEAT_INTERVAL = seconds 60"

record berth_signals =
  sig_now :: dtime
  sig_last_heartbeat :: "dtime option"
  sig_smart_mode :: "bool option"
  sig_data_is_stale :: bool
  sig_data_synced_at :: "dtime option"
  sig_outlet_silent :: bool
  sig_water_leak :: bool
  sig_too_hot :: bool
  sig_auto_off_overload :: bool
  sig_breaker_tripped :: bool
  sig_measurement_missing :: bool
  sig_state_code :: "int option"
  sig_last_analyzed :: "dtime option"
  sig_power_active :: "bool option"
  sig_reserved :: "bool option"
  sig_heartbeat_interval :: tdelta
  sig_has_cabinet :: bool

text \<open>The dataclass's defaults: everything not given.\<close>

definition BerthSignals :: "dtime \<Rightarrow> dtime option \<Rightarrow> bool option \<Rightarrow> berth_signals" where
  "BerthSignals now hb smart =
     \<lparr>sig_now = now, sig_last_heartbeat = hb, sig_smart_mode = smart,
      sig_data_is_stale = False, sig_data_synced_at = None, sig_outlet_silent = False,
      sig_water_leak = False, sig_too_hot = False, sig_auto_off_overload = False,
      sig_breaker_tripped = False, sig_measurement_missing = False, sig_state_code = None,
      sig_last_analyzed = None, sig_power_active = None, sig_reserved = None,
      sig_heartbeat_interval = DEFAULT_HEARTBEAT_INTERVAL, sig_has_cabinet = True\<rparr>"

definition connection_signal :: "berth_signals \<Rightarrow> string" where
  "connection_signal s =
     (case sig_last_heartbeat s of
        None \<Rightarrow> ''OFFLINE''
      | Some hb \<Rightarrow>
          (let age = sig_now s - hb
           in if age > OFFLINE_AFTER then ''OFFLINE''
              else if age > 2 * sig_heartbeat_interval s then ''STALE''
              else ''ONLINE''))"

definition vessel_signal :: "berth_signals \<Rightarrow> string" where
  "vessel_signal s =
     (case (sig_state_code s, sig_last_analyzed s) of
        (Some code, Some analyzed) \<Rightarrow>
          if sig_now s - analyzed > VESSEL_FRESH_FOR then ''UNKNOWN''
          else if code = 0 then ''NONE'' else if code = 1 then ''RIGHT''
          else if code = 2 then ''WRONG'' else ''UNKNOWN''
      | _ \<Rightarrow> ''UNKNOWN'')"

definition tri :: "bool option \<Rightarrow> string" where
  "tri v = (case v of None \<Rightarrow> ''UNKNOWN'' | Some b \<Rightarrow> if b then ''YES'' else ''NO'')"

section \<open>The occupancy table and the alarms\<close>

type_synonym status_row = "rat \<times> string \<times> string \<times> string \<times> string"

definition row_code :: "status_row \<Rightarrow> string" where
  "row_code r = (case r of (_, code, _) \<Rightarrow> code)"

definition STATUS_TABLE :: "status_row list" where
  "STATUS_TABLE =
    [(0, ''no_cabinet'', ''unknown'', ''none'', ''No cabinet is connected to this berth yet''),
     (1, ''no_contact'', ''unknown'', ''grey'', ''No connection to this cabinet''),
     (2, ''standalone'', ''unknown'', ''grey'', ''The cabinet is running on its own''),
     (5 / 2, ''outlet_silent'', ''unknown'', ''grey'', ''This outlet has not reported''),
     (8, ''vessel_mismatch'', ''attention'', ''red'', ''The vessel does not match the berth''),
     (9, ''power_without_vessel'', ''attention'', ''orange'', ''Power is on, but there is no vessel''),
     (10, ''reserved_empty'', ''attention'', ''yellow'', ''Reserved, the berth is empty''),
     (11, ''vessel_present'', ''ok'', ''blue'', ''''),
     (12, ''free'', ''ok'', ''green'', '''')]"

definition UNCLASSIFIED :: "string \<times> string \<times> string \<times> string" where
  "UNCLASSIFIED = (''unclassified'', ''unknown'', ''grey'', ''Something needs checking'')"

definition GREY_CODES :: "string list" where
  "GREY_CODES = [''no_cabinet'', ''no_contact'', ''standalone'', ''outlet_silent'']"

definition ALARMS_TABLE :: "(nat \<times> string \<times> string) list" where
  "ALARMS_TABLE =
    [(3, ''water_leak'', ''Water leak detected''),
     (4, ''too_hot'', ''The cabinet is overheating''),
     (5, ''auto_off_overload'',
        ''Power switched off automatically '' @ [CHR 0xE2, CHR 0x80, CHR 0x94] @ '' overload''),
     (6, ''breaker_tripped'',
        ''Breaker tripped '' @ [CHR 0xE2, CHR 0x80, CHR 0x94] @ '' needs a reset''),
     (7, ''measurement_missing'',
        ''Consumption not measured '' @ [CHR 0xE2, CHR 0x80, CHR 0x94] @ '' needs a check'')]"

definition STATUS_CODES :: "string list" where
  "STATUS_CODES = map row_code STATUS_TABLE @ [fst UNCLASSIFIED]"

definition ALARM_CODES :: "string list" where
  "ALARM_CODES = map (\<lambda>(_, c, _). c) ALARMS_TABLE"

record berth_status =
  bst_status_code :: string
  bst_status :: string
  bst_berth_colour :: string
  bst_status_sentence :: string
  bst_connection :: string
  bst_vessel :: string
  bst_power :: string
  bst_reservation :: string
  bst_data_as_of :: "string option"
  bst_alarm :: "string list"

text \<open>\<open>truth\<close> and \<open>raised\<close> of \<open>compute\<close>: which rows and which alarms are true now.\<close>

definition truth :: "berth_signals \<Rightarrow> (string \<times> bool) list" where
  "truth s =
     (let connection = connection_signal s; vessel = vessel_signal s;
          power = tri (sig_power_active s); reservation = tri (sig_reserved s)
      in [(''no_cabinet'', \<not> sig_has_cabinet s),
          (''no_contact'', connection = ''OFFLINE'' \<or> sig_data_is_stale s),
          (''standalone'', sig_smart_mode s = Some False),
          (''outlet_silent'', sig_outlet_silent s),
          (''vessel_mismatch'', vessel = ''WRONG''),
          (''power_without_vessel'', power = ''YES'' \<and> vessel = ''NONE''),
          (''reserved_empty'', reservation = ''YES'' \<and> vessel = ''NONE''),
          (''vessel_present'', vessel = ''RIGHT''),
          (''free'', vessel = ''NONE'')])"

definition raised :: "berth_signals \<Rightarrow> (string \<times> bool) list" where
  "raised s =
     [(''water_leak'', sig_water_leak s), (''too_hot'', sig_too_hot s),
      (''auto_off_overload'', sig_auto_off_overload s),
      (''breaker_tripped'', sig_breaker_tripped s),
      (''measurement_missing'', sig_measurement_missing s)]"

definition row_true :: "berth_signals \<Rightarrow> status_row \<Rightarrow> bool" where
  "row_true s r \<longleftrightarrow> map_of (truth s) (row_code r) = Some True"

definition occupancy_row :: "berth_signals \<Rightarrow> string \<times> string \<times> string \<times> string" where
  "occupancy_row s =
     (case find (row_true s) STATUS_TABLE of Some (_, row) \<Rightarrow> row | None \<Rightarrow> UNCLASSIFIED)"

definition alarm_codes :: "berth_signals \<Rightarrow> string \<Rightarrow> string list" where
  "alarm_codes s code =
     (if code \<noteq> ''no_cabinet'' \<and> code \<noteq> ''no_contact''
      then filter (\<lambda>c. map_of (raised s) c = Some True) ALARM_CODES else [])"

definition compute :: "berth_signals \<Rightarrow> berth_status" where
  "compute s =
     (case occupancy_row s of (code, status, colour, sentence) \<Rightarrow>
        (let alarm = alarm_codes s code;
             as_of = (if sig_data_is_stale s then map_option hh_mm (sig_data_synced_at s) else None)
         in \<lparr>bst_status_code = code,
             bst_status = (if alarm \<noteq> [] \<and> code \<notin> set GREY_CODES then ''attention'' else status),
             bst_berth_colour = colour,
             bst_status_sentence =
               (case as_of of None \<Rightarrow> sentence
                | Some t \<Rightarrow> sentence @ '' '' @ [CHR 0xE2, CHR 0x80, CHR 0x94] @ '' podaci od '' @ t),
             bst_connection = connection_signal s, bst_vessel = vessel_signal s,
             bst_power = tri (sig_power_active s), bst_reservation = tri (sig_reserved s),
             bst_data_as_of = as_of, bst_alarm = alarm\<rparr>))"

text \<open>\<open>alarm_rows\<close>: a code outside the table would be a \<open>KeyError\<close>.\<close>

definition alarm_rows :: "berth_status \<Rightarrow> (string \<times> string option) list" where
  "alarm_rows b = map (\<lambda>c. (c, map_of (map (\<lambda>(_, code, text). (code, text)) ALARMS_TABLE) c)) (bst_alarm b)"

section \<open>The table, row by row\<close>

interpretation st: decision_table STATUS_TABLE row_code row_true
  by unfold_locales (simp add: STATUS_TABLE_def row_code_def)

lemma truth_codes:
  "map_of (truth s) ''no_cabinet'' = Some (\<not> sig_has_cabinet s)"
  "map_of (truth s) ''no_contact'' =
     Some (connection_signal s = ''OFFLINE'' \<or> sig_data_is_stale s)"
  "map_of (truth s) ''standalone'' = Some (sig_smart_mode s = Some False)"
  "map_of (truth s) ''outlet_silent'' = Some (sig_outlet_silent s)"
  "map_of (truth s) ''vessel_mismatch'' = Some (vessel_signal s = ''WRONG'')"
  "map_of (truth s) ''power_without_vessel'' =
     Some (tri (sig_power_active s) = ''YES'' \<and> vessel_signal s = ''NONE'')"
  "map_of (truth s) ''reserved_empty'' =
     Some (tri (sig_reserved s) = ''YES'' \<and> vessel_signal s = ''NONE'')"
  "map_of (truth s) ''vessel_present'' = Some (vessel_signal s = ''RIGHT'')"
  "map_of (truth s) ''free'' = Some (vessel_signal s = ''NONE'')"
  by (simp_all add: truth_def Let_def)

lemma tri_YES [simp]: "tri v = ''YES'' \<longleftrightarrow> v = Some True"
  by (simp add: tri_def split: option.splits)

text \<open>The table as one decision: the branches of the walk, in its order.\<close>

lemma occupancy_row_cases:
  "occupancy_row s =
     (if \<not> sig_has_cabinet s
        then (''no_cabinet'', ''unknown'', ''none'', ''No cabinet is connected to this berth yet'')
      else if connection_signal s = ''OFFLINE'' \<or> sig_data_is_stale s
        then (''no_contact'', ''unknown'', ''grey'', ''No connection to this cabinet'')
      else if sig_smart_mode s = Some False
        then (''standalone'', ''unknown'', ''grey'', ''The cabinet is running on its own'')
      else if sig_outlet_silent s
        then (''outlet_silent'', ''unknown'', ''grey'', ''This outlet has not reported'')
      else if vessel_signal s = ''WRONG''
        then (''vessel_mismatch'', ''attention'', ''red'', ''The vessel does not match the berth'')
      else if vessel_signal s = ''NONE'' \<and> sig_power_active s = Some True
        then (''power_without_vessel'', ''attention'', ''orange'', ''Power is on, but there is no vessel'')
      else if vessel_signal s = ''NONE'' \<and> sig_reserved s = Some True
        then (''reserved_empty'', ''attention'', ''yellow'', ''Reserved, the berth is empty'')
      else if vessel_signal s = ''RIGHT'' then (''vessel_present'', ''ok'', ''blue'', '''')
      else if vessel_signal s = ''NONE'' then (''free'', ''ok'', ''green'', '''')
      else UNCLASSIFIED)"
  by (simp add: occupancy_row_def STATUS_TABLE_def row_true_def row_code_def truth_codes)

lemma compute_fields:
  "bst_status_code (compute s) = fst (occupancy_row s)"
  "bst_berth_colour (compute s) = fst (snd (snd (occupancy_row s)))"
  "bst_alarm (compute s) = alarm_codes s (fst (occupancy_row s))"
  "bst_connection (compute s) = connection_signal s"
  "bst_vessel (compute s) = vessel_signal s"
  by (simp_all add: compute_def Let_def split: prod.splits)

lemma vessel_signal_iff:
  "vessel_signal s = ''NONE'' \<longleftrightarrow> (\<exists>t. sig_state_code s = Some 0 \<and> sig_last_analyzed s = Some t
     \<and> sig_now s - t \<le> VESSEL_FRESH_FOR)"
  "vessel_signal s = ''RIGHT'' \<longleftrightarrow> (\<exists>t. sig_state_code s = Some 1 \<and> sig_last_analyzed s = Some t
     \<and> sig_now s - t \<le> VESSEL_FRESH_FOR)"
  "vessel_signal s = ''WRONG'' \<longleftrightarrow> (\<exists>t. sig_state_code s = Some 2 \<and> sig_last_analyzed s = Some t
     \<and> sig_now s - t \<le> VESSEL_FRESH_FOR)"
  by (auto simp: vessel_signal_def split: option.splits)

lemma not_offline_iff:
  "connection_signal s \<noteq> ''OFFLINE'' \<longleftrightarrow>
     (\<exists>hb. sig_last_heartbeat s = Some hb \<and> sig_now s - hb \<le> OFFLINE_AFTER)"
  by (auto simp: connection_signal_def Let_def split: option.splits)

text \<open>What has to hold before any colour but grey and none is drawn.\<close>

definition known_now :: "berth_signals \<Rightarrow> bool" where
  "known_now s \<longleftrightarrow> sig_has_cabinet s \<and> \<not> sig_data_is_stale s
     \<and> (\<exists>hb. sig_last_heartbeat s = Some hb \<and> sig_now s - hb \<le> OFFLINE_AFTER)
     \<and> sig_smart_mode s \<noteq> Some False \<and> \<not> sig_outlet_silent s"

definition analysed :: "berth_signals \<Rightarrow> int \<Rightarrow> bool" where
  "analysed s code \<longleftrightarrow> (\<exists>t. sig_state_code s = Some code \<and> sig_last_analyzed s = Some t
     \<and> sig_now s - t \<le> VESSEL_FRESH_FOR)"

lemma vessel_analysed:
  "vessel_signal s = ''NONE'' \<longleftrightarrow> analysed s 0" "vessel_signal s = ''RIGHT'' \<longleftrightarrow> analysed s 1"
  "vessel_signal s = ''WRONG'' \<longleftrightarrow> analysed s 2"
  by (simp_all add: vessel_signal_iff analysed_def)

lemma analysed_unique: "analysed s a \<Longrightarrow> analysed s b \<Longrightarrow> a = b"
  by (auto simp: analysed_def)

lemma colour_cases:
  "bst_berth_colour (compute s) =
     (if \<not> sig_has_cabinet s then ''none''
      else if \<not> known_now s then ''grey''
      else if analysed s 2 then ''red''
      else if analysed s 1 then ''blue''
      else if analysed s 0 then
        (if sig_power_active s = Some True then ''orange''
         else if sig_reserved s = Some True then ''yellow'' else ''green'')
      else ''grey'')"
proof -
  have off: "connection_signal s = ''OFFLINE'' \<longleftrightarrow>
      \<not> (\<exists>hb. sig_last_heartbeat s = Some hb \<and> sig_now s - hb \<le> OFFLINE_AFTER)"
    using not_offline_iff[of s] by blast
  have "analysed s 1 \<Longrightarrow> \<not> analysed s 0" "analysed s 2 \<Longrightarrow> \<not> analysed s 0"
    using analysed_unique by fastforce+
  then show ?thesis
    unfolding compute_fields occupancy_row_cases vessel_analysed off known_now_def UNCLASSIFIED_def
    by (auto split: if_splits)
qed

text \<open>
  C1. Each colour stands for exactly one reading of the signals. Green needs a cabinet that
  is reachable, not standing alone and not stale, a vessel analysis at most 30 minutes old
  that says "no vessel", no power and no reservation; blue, yellow, orange and red need the
  same contact and the analysis that says so; in every other case the berth is grey, or
  has no colour when no cabinet serves it.
\<close>

theorem berth_colour_decided:
  "bst_berth_colour (compute s) =
     (if \<not> sig_has_cabinet s then ''none''
      else if \<not> known_now s then ''grey''
      else if analysed s 2 then ''red''
      else if analysed s 1 then ''blue''
      else if analysed s 0 then
        (if sig_power_active s = Some True then ''orange''
         else if sig_reserved s = Some True then ''yellow'' else ''green'')
      else ''grey'')"
  by (rule colour_cases)

section \<open>Alarms\<close>

definition with_alarms :: "berth_signals \<Rightarrow> bool \<Rightarrow> bool \<Rightarrow> bool \<Rightarrow> bool \<Rightarrow> bool \<Rightarrow> berth_signals" where
  "with_alarms s w h q b m = s\<lparr>sig_water_leak := w, sig_too_hot := h, sig_auto_off_overload := q,
     sig_breaker_tripped := b, sig_measurement_missing := m\<rparr>"

lemma with_alarms_sel:
  "sig_water_leak (with_alarms s w h q b m) = w" "sig_too_hot (with_alarms s w h q b m) = h"
  "sig_auto_off_overload (with_alarms s w h q b m) = q" "sig_breaker_tripped (with_alarms s w h q b m) = b"
  "sig_measurement_missing (with_alarms s w h q b m) = m"
  by (simp_all add: with_alarms_def)

lemma with_alarms_others:
  "sig_now (with_alarms s w h q b m) = sig_now s"
  "sig_last_heartbeat (with_alarms s w h q b m) = sig_last_heartbeat s"
  "sig_heartbeat_interval (with_alarms s w h q b m) = sig_heartbeat_interval s"
  "sig_smart_mode (with_alarms s w h q b m) = sig_smart_mode s"
  "sig_data_is_stale (with_alarms s w h q b m) = sig_data_is_stale s"
  "sig_outlet_silent (with_alarms s w h q b m) = sig_outlet_silent s"
  "sig_state_code (with_alarms s w h q b m) = sig_state_code s"
  "sig_last_analyzed (with_alarms s w h q b m) = sig_last_analyzed s"
  "sig_power_active (with_alarms s w h q b m) = sig_power_active s"
  "sig_reserved (with_alarms s w h q b m) = sig_reserved s"
  "sig_has_cabinet (with_alarms s w h q b m) = sig_has_cabinet s"
  by (simp_all add: with_alarms_def)

lemma with_alarms_signals:
  "connection_signal (with_alarms s w h q b m) = connection_signal s"
  "vessel_signal (with_alarms s w h q b m) = vessel_signal s"
  "occupancy_row (with_alarms s w h q b m) = occupancy_row s"
  by (simp_all only: connection_signal_def vessel_signal_def occupancy_row_cases with_alarms_others)

lemma alarm_codes_set:
  "code \<noteq> ''no_cabinet'' \<Longrightarrow> code \<noteq> ''no_contact'' \<Longrightarrow>
   alarm_codes s code =
     (if sig_water_leak s then [''water_leak''] else []) @
     (if sig_too_hot s then [''too_hot''] else []) @
     (if sig_auto_off_overload s then [''auto_off_overload''] else []) @
     (if sig_breaker_tripped s then [''breaker_tripped''] else []) @
     (if sig_measurement_missing s then [''measurement_missing''] else [])"
  by (simp add: alarm_codes_def raised_def ALARM_CODES_def ALARMS_TABLE_def)

text \<open>
  C2. A cabinet alarm never becomes a colour and is never hidden by one: whatever the five
  alarm inputs are, code and colour stay the same; and while the cabinet is in contact, the
  berth lists exactly the raised alarms, worst first, each with its sentence, while with no
  cabinet or no contact it lists none.
\<close>

theorem alarms_apart_from_colour:
  "let s' = with_alarms s w h q b m in
     bst_berth_colour (compute s') = bst_berth_colour (compute s)
   \<and> bst_status_code (compute s') = bst_status_code (compute s)
   \<and> bst_alarm (compute s') =
       (if \<not> sig_has_cabinet s \<or> connection_signal s = ''OFFLINE'' \<or> sig_data_is_stale s then []
        else map snd (filter fst [(w, ''water_leak''), (h, ''too_hot''), (q, ''auto_off_overload''),
               (b, ''breaker_tripped''), (m, ''measurement_missing'')]))
   \<and> (\<forall>(c, sentence) \<in> set (alarm_rows (compute s')). sentence \<noteq> None)"
proof -
  let ?s = "with_alarms s w h q b m"
  have lost: "fst (occupancy_row s) \<in> {''no_cabinet'', ''no_contact''} \<longleftrightarrow>
      \<not> sig_has_cabinet s \<or> connection_signal s = ''OFFLINE'' \<or> sig_data_is_stale s"
    by (simp add: occupancy_row_cases UNCLASSIFIED_def)
  have al: "bst_alarm (compute ?s) =
      (if \<not> sig_has_cabinet s \<or> connection_signal s = ''OFFLINE'' \<or> sig_data_is_stale s then []
        else map snd (filter fst [(w, ''water_leak''), (h, ''too_hot''), (q, ''auto_off_overload''),
               (b, ''breaker_tripped''), (m, ''measurement_missing'')]))"
  proof (cases "fst (occupancy_row s) \<in> {''no_cabinet'', ''no_contact''}")
    case True
    with lost show ?thesis by (auto simp: compute_fields with_alarms_signals alarm_codes_def)
  next
    case False
    with lost show ?thesis
      by (simp add: compute_fields with_alarms_signals alarm_codes_set with_alarms_sel)
  qed
  have known: "\<forall>c \<in> set (bst_alarm b'). c \<in> set ALARM_CODES \<Longrightarrow>
      (\<forall>(c, sentence) \<in> set (alarm_rows b'). sentence \<noteq> None)" for b'
    by (auto simp: alarm_rows_def ALARM_CODES_def ALARMS_TABLE_def)
  have "\<forall>c \<in> set (bst_alarm (compute ?s)). c \<in> set ALARM_CODES"
    by (auto simp: compute_fields alarm_codes_def)
  then have "\<forall>(c, sentence) \<in> set (alarm_rows (compute ?s)). sentence \<noteq> None"
    by (rule known)
  with al show ?thesis by (simp add: compute_fields with_alarms_signals)
qed

theorem alarms_apart_from_colour_witness:
  "let s = BerthSignals 0 (Some 0) (Some True); s' = with_alarms s True False False True False in
     bst_berth_colour (compute s') = ''grey'' \<and> bst_alarm (compute s') = [''water_leak'', ''breaker_tripped'']"
proof -
  have "bst_berth_colour (compute (BerthSignals 0 (Some 0) (Some True))) = ''grey''" by code_simp
  moreover have "sig_has_cabinet (BerthSignals 0 (Some 0) (Some True))"
    "connection_signal (BerthSignals 0 (Some 0) (Some True)) \<noteq> ''OFFLINE''"
    "\<not> sig_data_is_stale (BerthSignals 0 (Some 0) (Some True))" by code_simp+
  ultimately show ?thesis
    using alarms_apart_from_colour[of "BerthSignals 0 (Some 0) (Some True)" True False False True False]
    by (simp add: Let_def)
qed

section \<open>As time passes\<close>

definition connection_rank :: "string \<Rightarrow> nat" where
  "connection_rank c = (if c = ''ONLINE'' then 0 else if c = ''STALE'' then 1 else 2)"

lemma connection_decays:
  "now' \<ge> sig_now s \<Longrightarrow>
   connection_rank (connection_signal s) \<le> connection_rank (connection_signal (s\<lparr>sig_now := now'\<rparr>))"
  by (auto simp: connection_rank_def connection_signal_def Let_def split: option.splits)

lemma vessel_decays:
  "now' \<ge> sig_now s \<Longrightarrow> vessel_signal (s\<lparr>sig_now := now'\<rparr>) \<in> {vessel_signal s, ''UNKNOWN''}"
  by (auto simp: vessel_signal_def split: option.splits)

lemma known_decays:
  "now' \<ge> sig_now s \<Longrightarrow> known_now (s\<lparr>sig_now := now'\<rparr>) \<Longrightarrow> known_now s"
  by (fastforce simp: known_now_def)

lemma analysed_decays:
  "now' \<ge> sig_now s \<Longrightarrow> analysed (s\<lparr>sig_now := now'\<rparr>) c \<Longrightarrow> analysed s c"
  by (fastforce simp: analysed_def)

text \<open>
  C3. An old reading never looks better than it did: with the same inputs read at a later
  time, the connection can only go from ONLINE to STALE to OFFLINE, and the colour either
  stays what it was or becomes grey; it never turns into another occupancy colour.
\<close>

theorem status_only_decays:
  assumes "sig_now s \<le> now'"
  shows "connection_rank (bst_connection (compute s))
           \<le> connection_rank (bst_connection (compute (s\<lparr>sig_now := now'\<rparr>)))
       \<and> bst_berth_colour (compute (s\<lparr>sig_now := now'\<rparr>)) \<in> {bst_berth_colour (compute s), ''grey''}"
proof -
  let ?t = "s\<lparr>sig_now := now'\<rparr>"
  have k: "known_now ?t \<Longrightarrow> known_now s" and a: "\<And>c. analysed ?t c \<Longrightarrow> analysed s c"
    using assms known_decays analysed_decays by blast+
  have u: "\<And>x y. analysed s x \<Longrightarrow> analysed s y \<Longrightarrow> x = y"
    by (rule analysed_unique)
  have "bst_berth_colour (compute ?t) \<in> {bst_berth_colour (compute s), ''grey''}"
    unfolding colour_cases using k a[of 0] a[of 1] a[of 2] u[of 0 1] u[of 0 2] u[of 1 2]
    by auto
  with connection_decays[OF assms] show ?thesis by (simp add: compute_fields)
qed

theorem status_only_decays_witness:
  "let s = (BerthSignals 0 (Some 0) (Some True))\<lparr>sig_state_code := Some 0, sig_last_analyzed := Some 0\<rparr>
   in bst_berth_colour (compute s) = ''green''
      \<and> bst_berth_colour (compute (s\<lparr>sig_now := minutes 31\<rparr>)) \<in> {''green'', ''grey''}"
proof -
  let ?s = "(BerthSignals 0 (Some 0) (Some True))\<lparr>sig_state_code := Some 0, sig_last_analyzed := Some 0\<rparr>"
  have g: "bst_berth_colour (compute ?s) = ''green''" by code_simp
  have "sig_now ?s \<le> minutes 31" by (simp add: BerthSignals_def tdelta_defs)
  from status_only_decays[OF this] g show ?thesis by (simp add: Let_def)
qed

end
