(* ===== verification/Contract.thy ===== *)
theory Contract
  imports Py_Values
begin

text \<open>
  \<open>cabinet/contract.py\<close>: the one table of cabinet calls and the one function that builds a
  cabinet URL from it. The lemmas say which calls are refused before anything is sent, that
  every URL lies under \<open>/api/ext/\<close> exactly once, and that a URL determines the row it was
  built from, because no two rows of the table can produce the same method and path.
\<close>

section \<open>The table\<close>

datatype IdType = IdNone | PK | PK_OR_DISPLAY
datatype Mode = MONITOR | BIDIRECTIONAL

record Endpoint =
  ep_key :: string
  ep_method :: string
  ep_catalog_path :: string
  ep_id_type :: IdType
  ep_mode :: Mode

definition endpoint :: "string \<Rightarrow> string \<Rightarrow> string \<Rightarrow> IdType \<Rightarrow> Mode \<Rightarrow> Endpoint" where
  "endpoint k m p i md =
     \<lparr>ep_key = k, ep_method = m, ep_catalog_path = p, ep_id_type = i, ep_mode = md\<rparr>"

text \<open>Errors: \<open>ContractError\<close> with what it names, and the \<open>ValueError\<close> of \<open>external_path\<close>.\<close>

datatype contract_error =
    CatalogPath string
  | UnknownKey string
  | DoubledExt string
  | WrongParams string
  | NumericPkOnly string
  | OutletName string string

definition external_path :: "string \<Rightarrow> contract_error + string" where
  "external_path p =
     (if starts_with p ''/api/ext/'' then Inr p
      else if \<not> starts_with p ''/api/'' then Inl (CatalogPath p)
      else Inr (''/api/ext/'' @ drop 5 p))"

definition ENDPOINT_TABLE :: "Endpoint list" where
  "ENDPOINT_TABLE =
    [endpoint ''pedestals.health'' ''GET'' ''/api/pedestals/health'' IdNone MONITOR,
     endpoint ''pedestals.list'' ''GET'' ''/api/pedestals'' IdNone MONITOR,
     endpoint ''pedestals.status_ext'' ''GET'' ''/api/ext/pedestals/{pedestal_id}/status'' PK_OR_DISPLAY MONITOR,
     endpoint ''water.status_ext'' ''GET'' ''/api/ext/pedestals/{pedestal_id}/water'' PK_OR_DISPLAY MONITOR,
     endpoint ''berths.list'' ''GET'' ''/api/berths'' IdNone MONITOR,
     endpoint ''berths.occupancy_ext'' ''GET'' ''/api/ext/pedestals/{pedestal_id}/berths/occupancy'' PK_OR_DISPLAY MONITOR,
     endpoint ''sessions.active'' ''GET'' ''/api/sessions/active'' IdNone MONITOR,
     endpoint ''sessions.pending'' ''GET'' ''/api/sessions/pending'' IdNone MONITOR,
     endpoint ''alarms.active'' ''GET'' ''/api/alarms/active'' IdNone MONITOR,
     endpoint ''alarms.acknowledge'' ''POST'' ''/api/alarms/{alarm_id}/acknowledge'' IdNone BIDIRECTIONAL,
     endpoint ''analytics.daily'' ''GET'' ''/api/analytics/consumption/daily'' IdNone MONITOR,
     endpoint ''analytics.summary'' ''GET'' ''/api/analytics/sessions/summary'' IdNone MONITOR,
     endpoint ''sockets.config_list'' ''GET'' ''/api/pedestals/{pedestal_id}/sockets/config'' PK MONITOR,
     endpoint ''valves.config_list'' ''GET'' ''/api/pedestals/{pedestal_id}/valves/config'' PK MONITOR,
     endpoint ''load.pedestal_get_ext'' ''GET'' ''/api/ext/pedestals/{pedestal_id}/load'' PK MONITOR,
     endpoint ''load.socket_get_ext'' ''GET'' ''/api/ext/pedestals/{pedestal_id}/sockets/{socket_id}/load'' PK MONITOR,
     endpoint ''load.socket_history_ext'' ''GET'' ''/api/ext/pedestals/{pedestal_id}/sockets/{socket_id}/load/history'' PK MONITOR,
     endpoint ''load.pedestal_alarms_ext'' ''GET'' ''/api/ext/pedestals/{pedestal_id}/load/alarms'' PK MONITOR,
     endpoint ''load.marina_alarms_ext'' ''GET'' ''/api/ext/marinas/{marina_id}/load/alarms'' IdNone MONITOR,
     endpoint ''breakers.pedestal_list_ext'' ''GET'' ''/api/ext/pedestals/{pedestal_id}/breakers'' PK MONITOR,
     endpoint ''breakers.socket_get_ext'' ''GET'' ''/api/ext/pedestals/{pedestal_id}/sockets/{socket_id}/breaker'' PK MONITOR,
     endpoint ''breakers.pedestal_history_ext'' ''GET'' ''/api/ext/pedestals/{pedestal_id}/breaker/history'' PK MONITOR,
     endpoint ''breakers.marina_alarms_ext'' ''GET'' ''/api/ext/marinas/{marina_id}/breaker/alarms'' IdNone MONITOR,
     endpoint ''usage.history'' ''GET'' ''/api/pedestals/{pedestal_id}/usage/history'' PK MONITOR,
     endpoint ''controls.socket_cmd'' ''POST'' ''/api/controls/pedestal/{pedestal_id}/socket/{socket_name}/cmd'' PK BIDIRECTIONAL,
     endpoint ''controls.water_cmd'' ''POST'' ''/api/controls/pedestal/{pedestal_id}/water/{valve_name}/cmd'' PK BIDIRECTIONAL,
     endpoint ''controls.allow'' ''POST'' ''/api/controls/{session_id}/allow'' IdNone BIDIRECTIONAL,
     endpoint ''controls.deny'' ''POST'' ''/api/controls/{session_id}/deny'' IdNone BIDIRECTIONAL,
     endpoint ''controls.stop'' ''POST'' ''/api/controls/{session_id}/stop'' IdNone BIDIRECTIONAL,
     endpoint ''diagnostics.run'' ''POST'' ''/api/pedestals/{pedestal_id}/diagnostics/run'' PK BIDIRECTIONAL,
     endpoint ''berths.push_image_ext'' ''POST''
       ''/api/ext/pedestals/{pedestal_id}/berths/{berth_id}/reference-image'' PK_OR_DISPLAY BIDIRECTIONAL]"

definition ENDPOINTS :: "string \<Rightarrow> Endpoint option" where
  "ENDPOINTS k = find (\<lambda>e. ep_key e = k) ENDPOINT_TABLE"

definition NEVER_ENABLE :: "string list" where
  "NEVER_ENABLE =
    [''breakers.socket_reset_ext'', ''load.auto_stop_ack_ext'', ''led_schedule.get'',
     ''led_schedule.upsert'', ''led_schedule.delete'', ''led_schedule.test'', ''controls.reset'',
     ''controls.led'', ''sockets.config_patch'', ''valves.config_patch'',
     ''controls.socket_approve'', ''controls.socket_reject'']"

definition PER_CABINET_RECORD :: "(string \<times> string) list" where
  "PER_CABINET_RECORD = [(''berths.push_image_ext'', ''reference_upload'')]"

definition NFC_SCAN :: string where "NFC_SCAN = ''/api/nfc/scan''"
definition NFC_SESSION :: string where "NFC_SESSION = ''/api/nfc/session/{session_id}''"
definition NFC_SESSION_STOP :: string where "NFC_SESSION_STOP = ''/api/nfc/session/{session_id}/stop''"
definition NFC_SESSIONS_BY_USER :: string where
  "NFC_SESSIONS_BY_USER = ''/api/nfc/sessions/by-user/{user_id}''"
definition NFC_SESSIONS_RANGE :: string where "NFC_SESSIONS_RANGE = ''/api/nfc/sessions''"
definition NFC_SESSIONS_ACK :: string where "NFC_SESSIONS_ACK = ''/api/nfc/sessions/ack''"

section \<open>Placeholders and outlet names\<close>

text \<open>A path as the regular expression \<open>_PARAM\<close> sees it: literal characters and \<open>{name}\<close> holes.\<close>

datatype tok = Lit char | Par string

definition is_word :: "char \<Rightarrow> bool" where
  "is_word c \<longleftrightarrow> is_digit c \<or> c = CHR ''_'' \<or>
     (let n = (of_char c :: nat) in (65 \<le> n \<and> n \<le> 90) \<or> (97 \<le> n \<and> n \<le> 122))"

function toks :: "string \<Rightarrow> tok list" where
  "toks s =
     (case s of
        [] \<Rightarrow> []
      | c # r \<Rightarrow>
          (let w = takeWhile is_word r; z = dropWhile is_word r in
           if c = CHR ''{'' \<and> w \<noteq> [] \<and> z \<noteq> [] \<and> hd z = CHR ''}'' then Par w # toks (tl z)
           else Lit c # toks r))"
  by pat_completeness auto
termination
proof (relation "measure length", goal_cases)
  case (2 s c r w z)
  have "length (tl z) \<le> length r" using 2 length_dropWhile_le[of is_word r] by simp
  with 2 show ?case by simp
qed simp_all

declare toks.simps [simp del]

fun findall :: "tok list \<Rightarrow> string list" where
  "findall [] = []"
| "findall (Par n # ts) = n # findall ts"
| "findall (Lit _ # ts) = findall ts"

fun subst_toks :: "(string \<Rightarrow> string) \<Rightarrow> tok list \<Rightarrow> string" where
  "subst_toks f [] = []"
| "subst_toks f (Par n # ts) = f n @ subst_toks f ts"
| "subst_toks f (Lit c # ts) = c # subst_toks f ts"

text \<open>
  The outlet pattern, \<open>_OUTLET = ^(Q[1-4]|V[1-2])$\<close> with \<open>match\<close>: Python's \<open>$\<close> also matches
  just before a newline that ends the string.
\<close>

definition OUTLETS :: "string list" where
  "OUTLETS = [''Q1'', ''Q2'', ''Q3'', ''Q4'', ''V1'', ''V2'']"

definition outlet_match :: "string \<Rightarrow> bool" where
  "outlet_match s \<longleftrightarrow> s \<in> set OUTLETS \<or> s \<in> set (map (\<lambda>q. q @ [CHR 0x0A]) OUTLETS)"

section \<open>Building a path\<close>

text \<open>The Python values a caller passes for a placeholder, and \<open>str\<close> of them.\<close>

datatype pval = PInt int | PBool bool | PStr string | PNone

fun pstr :: "pval \<Rightarrow> string" where
  "pstr (PInt i) = int_str i"
| "pstr (PBool b) = (if b then ''True'' else ''False'')"
| "pstr (PStr s) = s"
| "pstr PNone = ''None''"

definition param_error :: "Endpoint \<Rightarrow> string \<Rightarrow> pval \<Rightarrow> contract_error option" where
  "param_error ep name v =
     (if name = ''pedestal_id'' \<and> ep_id_type ep = PK \<and> (case v of PInt _ \<Rightarrow> False | _ \<Rightarrow> True)
        then Some (NumericPkOnly (ep_key ep))
      else if name \<in> {''socket_name'', ''valve_name''}
              \<and> (case v of PStr s \<Rightarrow> \<not> outlet_match s | _ \<Rightarrow> True)
        then Some (OutletName (ep_key ep) name)
      else None)"

fun first_param_error :: "Endpoint \<Rightarrow> (string \<times> pval) list \<Rightarrow> contract_error option" where
  "first_param_error ep [] = None"
| "first_param_error ep ((n, v) # ps) =
     (case param_error ep n v of Some e \<Rightarrow> Some e | None \<Rightarrow> first_param_error ep ps)"

definition param_str :: "(string \<times> pval) list \<Rightarrow> string \<Rightarrow> string" where
  "param_str ps n = (case map_of ps n of Some v \<Rightarrow> pstr v | None \<Rightarrow> [])"

definition build_path :: "string \<Rightarrow> (string \<times> pval) list \<Rightarrow> contract_error + string" where
  "build_path key params =
     (case ENDPOINTS key of
        None \<Rightarrow> Inl (UnknownKey key)
      | Some ep \<Rightarrow>
          (case external_path (ep_catalog_path ep) of
             Inl e \<Rightarrow> Inl e
           | Inr path \<Rightarrow>
               if contains path ''/api/ext/ext/'' then Inl (DoubledExt path)
               else if set (findall (toks path)) \<noteq> set (map fst params) then Inl (WrongParams key)
               else (case first_param_error ep params of
                       Some e \<Rightarrow> Inl e
                     | None \<Rightarrow> Inr (subst_toks (param_str params) (toks path)))))"

definition enabled_by_mode :: "Mode \<Rightarrow> string list" where
  "enabled_by_mode m = map ep_key (filter (\<lambda>e. ep_mode e = m) ENDPOINT_TABLE)"

text \<open>
  \<open>endpoint_for\<close>: each hole of the path has become \<open>[^/]+\<close>, everything else is literal, and
  the pattern is closed by \<open>$\<close>.
\<close>

fun tmatch :: "tok list \<Rightarrow> string \<Rightarrow> bool" where
  "tmatch [] s = (s = [] \<or> s = [CHR 0x0A])"
| "tmatch (Lit c # ts) [] = False"
| "tmatch (Lit c # ts) (d # s) = (c = d \<and> tmatch ts s)"
| "tmatch (Par n # ts) [] = False"
| "tmatch (Par n # ts) (d # s) = (d \<noteq> CHR ''/'' \<and> (tmatch ts s \<or> tmatch (Par n # ts) s))"

definition ep_path :: "Endpoint \<Rightarrow> string" where
  "ep_path ep = (case external_path (ep_catalog_path ep) of Inr p \<Rightarrow> p | Inl _ \<Rightarrow> [])"

definition row_matches :: "string \<times> string \<Rightarrow> Endpoint \<Rightarrow> bool" where
  "row_matches = (\<lambda>(method, path) ep. ep_method ep = method \<and> tmatch (toks (ep_path ep)) path)"

definition endpoint_for :: "string \<Rightarrow> string \<Rightarrow> Endpoint option" where
  "endpoint_for method path = find (row_matches (method, path)) ENDPOINT_TABLE"

section \<open>A path as its segments\<close>

datatype seg = SLit string | SPar string

definition seg_of :: "string \<Rightarrow> seg" where
  "seg_of s = (if s \<noteq> [] \<and> hd s = CHR ''{'' then SPar (butlast (tl s)) else SLit s)"

fun seg_text :: "seg \<Rightarrow> string" where
  "seg_text (SLit l) = l"
| "seg_text (SPar n) = ''{'' @ n @ ''}''"

fun seg_clean :: "seg \<Rightarrow> bool" where
  "seg_clean (SLit l) = (CHR ''{'' \<notin> set l)"
| "seg_clean (SPar n) = (n \<noteq> [] \<and> list_all is_word n)"

fun seg_toks :: "seg list \<Rightarrow> tok list" where
  "seg_toks [] = []"
| "seg_toks [SPar n] = [Par n]"
| "seg_toks [SLit l] = map Lit l"
| "seg_toks (SPar n # g # gs) = Par n # Lit (CHR ''/'') # seg_toks (g # gs)"
| "seg_toks (SLit l # g # gs) = map Lit l @ Lit (CHR ''/'') # seg_toks (g # gs)"

fun seg_fits :: "seg \<Rightarrow> string \<Rightarrow> bool" where
  "seg_fits (SLit l) s = (s = l)"
| "seg_fits (SPar n) s = (s \<noteq> [])"

fun seg_fill :: "(string \<Rightarrow> string) \<Rightarrow> seg \<Rightarrow> string" where
  "seg_fill f (SLit l) = l"
| "seg_fill f (SPar n) = f n"

fun seg_apart :: "seg \<Rightarrow> seg \<Rightarrow> bool" where
  "seg_apart (SLit l) (SLit l') = (l \<noteq> l')"
| "seg_apart _ _ = False"

definition slash_free :: "seg \<Rightarrow> bool" where
  "slash_free g = (case g of SLit l \<Rightarrow> CHR ''/'' \<notin> set l | SPar _ \<Rightarrow> True)"

definition shape :: "Endpoint \<Rightarrow> seg list" where
  "shape ep = map seg_of (split_on (CHR ''/'') (ep_path ep))"

lemma subst_toks_append: "subst_toks f (a @ b) = subst_toks f a @ subst_toks f b"
  by (induction f a rule: subst_toks.induct) auto

lemma subst_toks_lits [simp]: "subst_toks f (map Lit l) = l"
  by (induction l) auto

lemma findall_append [simp]: "findall (a @ b) = findall a @ findall b"
  by (induction a rule: findall.induct) auto

lemma subst_seg_toks:
  "subst_toks f (seg_toks gs) = join_with [CHR ''/''] (map (seg_fill f) gs)"
  by (induction gs rule: seg_toks.induct) (auto simp: subst_toks_append)

lemma tmatch_lits: "tmatch (map Lit l @ ts) s \<longleftrightarrow> (\<exists>r. s = l @ r \<and> tmatch ts r)"
proof (induction l arbitrary: s)
  case (Cons c l)
  then show ?case by (cases s) auto
qed simp

lemma tmatch_par:
  "tmatch (Par n # ts) s \<longleftrightarrow>
     (\<exists>u r. s = u @ r \<and> u \<noteq> [] \<and> CHR ''/'' \<notin> set u \<and> tmatch ts r)"
proof (induction s)
  case (Cons d s)
  show ?case (is "?l \<longleftrightarrow> ?r")
  proof
    assume ?l
    then consider "d \<noteq> CHR ''/''" "tmatch ts s" | "d \<noteq> CHR ''/''" "tmatch (Par n # ts) s" by auto
    then show ?r
    proof cases
      case 1
      then show ?thesis by (intro exI[of _ "[d]"] exI[of _ s]) auto
    next
      case 2
      with Cons obtain u r where "s = u @ r" "CHR ''/'' \<notin> set u" "tmatch ts r" by blast
      with 2 show ?thesis by (intro exI[of _ "d # u"] exI[of _ r]) auto
    qed
  next
    assume ?r
    then obtain u r where ur: "d # s = u @ r" "u \<noteq> []" "CHR ''/'' \<notin> set u" "tmatch ts r" by blast
    then obtain u' where u': "u = d # u'" "s = u' @ r" by (auto simp: Cons_eq_append_conv)
    show ?l
    proof (cases "u' = []")
      case True
      with ur u' show ?thesis by auto
    next
      case False
      then have "tmatch (Par n # ts) s" using Cons ur u' by auto
      with ur u' show ?thesis by auto
    qed
  qed
qed simp

text \<open>Scanning a path whose segments are whole literals or whole holes.\<close>

lemma toks_Nil [simp]: "toks [] = []"
  by (simp add: toks.simps)

lemma toks_lit: "CHR ''{'' \<notin> set l \<Longrightarrow> toks (l @ r) = map Lit l @ toks r"
  by (induction l) (auto simp: toks.simps[of "_ # _"] Let_def)

lemma toks_par:
  assumes "n \<noteq> []" and "list_all is_word n"
  shows "toks (CHR ''{'' # n @ CHR ''}'' # r) = Par n # toks r"
proof -
  have w: "\<not> is_word (CHR ''}'')" by (simp add: is_word_def is_digit_def)
  have "\<forall>c \<in> set n. is_word c" using assms(2) by (simp add: list_all_iff)
  with w have "takeWhile is_word (n @ CHR ''}'' # r) = n" "dropWhile is_word (n @ CHR ''}'' # r) = CHR ''}'' # r"
    by (simp_all add: takeWhile_append2 dropWhile_append2)
  with assms(1) w show ?thesis by (subst toks.simps) (simp add: Let_def)
qed

lemma toks_join:
  "list_all seg_clean gs \<Longrightarrow> toks (join_with [CHR ''/''] (map seg_text gs)) = seg_toks gs"
proof (induction gs rule: seg_toks.induct)
  case (3 l)
  then show ?case using toks_lit[of l "[]"] by simp
next
  case (4 n g gs)
  have "toks (CHR ''/'' # r) = Lit (CHR ''/'') # toks r" for r
    by (simp add: toks.simps[of "_ # _"] Let_def)
  with 4 show ?case by (simp add: toks_par)
next
  case (5 l g gs)
  have "toks (CHR ''/'' # r) = Lit (CHR ''/'') # toks r" for r
    by (simp add: toks.simps[of "_ # _"] Let_def)
  with 5 show ?case by (simp add: toks_lit)
qed (simp_all add: toks_par)

text \<open>On a text without a newline the pattern of a path is matched segment by segment.\<close>

lemma split_on_ConsD: "split_on c s = p # q # ps \<Longrightarrow> s = p @ c # join_with [c] (q # ps)"
  using join_split[of c s] by simp

lemma list_all2_split2:
  "list_all2 P (g # h # gs) (split_on c s) \<longleftrightarrow>
     (\<exists>u r. s = u @ c # r \<and> c \<notin> set u \<and> P g u \<and> list_all2 P (h # gs) (split_on c r))"
  (is "?l \<longleftrightarrow> ?r")
proof
  assume ?l
  then obtain p q ps where sp: "split_on c s = p # q # ps" "P g p" "list_all2 P (h # gs) (q # ps)"
    by (auto simp: list_all2_Cons1)
  then have s: "s = p @ c # join_with [c] (q # ps)" by (simp add: split_on_ConsD)
  have free: "\<forall>x \<in> set (p # q # ps). c \<notin> set x" using sp(1) split_on_no_sep by metis
  then have "split_on c (join_with [c] (q # ps)) = q # ps" by (intro split_join) auto
  with s sp free show ?r by (intro exI[of _ p] exI[of _ "join_with [c] (q # ps)"]) simp
next
  assume ?r
  then show ?l by (auto simp: split_on_append_sep)
qed

lemma list_all2_split1:
  "list_all2 P [g] (split_on c s) \<longleftrightarrow> c \<notin> set s \<and> P g s"
proof
  assume a: "list_all2 P [g] (split_on c s)"
  then obtain p where p: "split_on c s = [p]" "P g p" by (auto simp: list_all2_Cons1)
  then have "s = p" using join_split[of c s] by simp
  with p show "c \<notin> set s \<and> P g s" using split_on_no_sep[of p c s] by simp
next
  assume "c \<notin> set s \<and> P g s"
  then show "list_all2 P [g] (split_on c s)" by (simp add: split_on_single)
qed

lemma tmatch_end: "CHR 0x0A \<notin> set s \<Longrightarrow> tmatch [] s \<longleftrightarrow> s = []"
  by auto

lemma tmatch_segs:
  "gs \<noteq> [] \<Longrightarrow> list_all slash_free gs \<Longrightarrow> CHR 0x0A \<notin> set s \<Longrightarrow>
   tmatch (seg_toks gs) s \<longleftrightarrow> list_all2 seg_fits gs (split_on (CHR ''/'') s)"
proof (induction gs arbitrary: s rule: seg_toks.induct)
  case (2 n)
  have "tmatch (seg_toks [SPar n]) s \<longleftrightarrow> s \<noteq> [] \<and> CHR ''/'' \<notin> set s"
  proof
    assume "tmatch (seg_toks [SPar n]) s"
    then obtain u r where "s = u @ r" "u \<noteq> []" "CHR ''/'' \<notin> set u" "tmatch [] r"
      by (auto simp: tmatch_par simp del: tmatch.simps)
    with 2 show "s \<noteq> [] \<and> CHR ''/'' \<notin> set s" by (auto simp: tmatch_end)
  next
    assume "s \<noteq> [] \<and> CHR ''/'' \<notin> set s"
    then show "tmatch (seg_toks [SPar n]) s"
      unfolding seg_toks.simps tmatch_par by (intro exI[of _ s] exI[of _ "[]"]) simp
  qed
  then show ?case by (auto simp: list_all2_split1)
next
  case (3 l)
  have "tmatch (seg_toks [SLit l]) s \<longleftrightarrow> s = l"
    using 3 tmatch_lits[of l "[]" s] by auto
  with 3 show ?case by (auto simp: list_all2_split1 slash_free_def)
next
  case (4 n g gs)
  have eq: "tmatch (seg_toks (SPar n # g # gs)) s \<longleftrightarrow>
     (\<exists>u r. s = u @ CHR ''/'' # r \<and> u \<noteq> [] \<and> CHR ''/'' \<notin> set u \<and> tmatch (seg_toks (g # gs)) r)"
    unfolding seg_toks.simps tmatch_par
  proof (intro iffI; elim exE conjE)
    fix u r assume "s = u @ r" "u \<noteq> []" "CHR ''/'' \<notin> set u" "tmatch (Lit CHR ''/'' # seg_toks (g # gs)) r"
    then show "\<exists>u r. s = u @ CHR ''/'' # r \<and> u \<noteq> [] \<and> CHR ''/'' \<notin> set u \<and> tmatch (seg_toks (g # gs)) r"
      by (cases r) auto
  qed fastforce
  have "tmatch (seg_toks (g # gs)) r \<longleftrightarrow> list_all2 seg_fits (g # gs) (split_on (CHR ''/'') r)"
    if "s = u @ CHR ''/'' # r" for u r
    using 4 that by auto
  then show ?case unfolding eq list_all2_split2 by (simp only: seg_fits.simps) blast
next
  case (5 l g gs)
  have eq: "tmatch (seg_toks (SLit l # g # gs)) s \<longleftrightarrow>
     (\<exists>r. s = l @ CHR ''/'' # r \<and> tmatch (seg_toks (g # gs)) r)"
    unfolding seg_toks.simps tmatch_lits
  proof (intro iffI; elim exE conjE)
    fix r assume "s = l @ r" "tmatch (Lit CHR ''/'' # seg_toks (g # gs)) r"
    then show "\<exists>r. s = l @ CHR ''/'' # r \<and> tmatch (seg_toks (g # gs)) r" by (cases r) auto
  qed auto
  have "tmatch (seg_toks (g # gs)) r \<longleftrightarrow> list_all2 seg_fits (g # gs) (split_on (CHR ''/'') r)"
    if "s = u @ CHR ''/'' # r" for u r
    using 5 that by auto
  moreover have "CHR ''/'' \<notin> set l" using 5 by (simp add: slash_free_def)
  ultimately show ?case unfolding eq list_all2_split2 by (simp only: seg_fits.simps) blast
qed simp

section \<open>What holds of every row of the table\<close>

fun under_ext :: "seg list \<Rightarrow> bool" where
  "under_ext (SLit a # SLit b # SLit c # SLit d # gs) = (a = [] \<and> b = ''api'' \<and> c = ''ext'' \<and> d \<noteq> ''ext'')"
| "under_ext _ = False"

fun_cases under_extE: "under_ext gs"

definition row_ok :: "Endpoint \<Rightarrow> bool" where
  "row_ok e \<longleftrightarrow>
     external_path (ep_catalog_path e) = Inr (ep_path e)
   \<and> \<not> contains (ep_path e) ''/api/ext/ext/''
   \<and> map seg_text (shape e) = split_on (CHR ''/'') (ep_path e)
   \<and> list_all seg_clean (shape e)
   \<and> list_all slash_free (shape e)
   \<and> CHR 0x0A \<notin> set (ep_path e)
   \<and> under_ext (shape e)"

definition rows_apart :: "string \<times> string \<times> seg list \<Rightarrow> string \<times> string \<times> seg list \<Rightarrow> bool" where
  "rows_apart = (\<lambda>(k, m, gs) (k', m', gs'). k \<noteq> k' \<and>
     (m \<noteq> m' \<or> length gs \<noteq> length gs' \<or> list_ex (\<lambda>(g, h). seg_apart g h) (zip gs gs')))"

lemma table_rows_ok: "list_all row_ok ENDPOINT_TABLE"
  by code_simp

lemma table_rows_apart:
  "sorted_wrt rows_apart (map (\<lambda>e. (ep_key e, ep_method e, shape e)) ENDPOINT_TABLE)"
  by code_simp

lemmas table_row_ok = table_rows_ok[unfolded list_all_iff, rule_format, unfolded row_ok_def]

lemma row_toks: "e \<in> set ENDPOINT_TABLE \<Longrightarrow> toks (ep_path e) = seg_toks (shape e)"
  using table_row_ok[of e] toks_join[of "shape e"] by simp

lemma row_shape: "e \<in> set ENDPOINT_TABLE \<Longrightarrow>
  \<exists>d gs. shape e = SLit [] # SLit ''api'' # SLit ''ext'' # SLit d # gs \<and> d \<noteq> ''ext'' \<and> CHR ''/'' \<notin> set d"
  using table_row_ok[of e] by (auto simp: slash_free_def elim: under_extE)

interpretation keys: decision_table ENDPOINT_TABLE ep_key "\<lambda>k e. ep_key e = k"
  by unfold_locales code_simp

interpretation calls: decision_table ENDPOINT_TABLE ep_key row_matches
  by unfold_locales (rule keys.distinct_keys)

lemma ENDPOINTS_row: "ENDPOINTS k = Some e \<longleftrightarrow> e \<in> set ENDPOINT_TABLE \<and> ep_key e = k"
proof
  assume "ENDPOINTS k = Some e"
  then show "e \<in> set ENDPOINT_TABLE \<and> ep_key e = k" unfolding ENDPOINTS_def by (rule find_Some_D)
next
  assume "e \<in> set ENDPOINT_TABLE \<and> ep_key e = k"
  then show "ENDPOINTS k = Some e"
    unfolding ENDPOINTS_def by (intro keys.chosen_only) simp_all
qed

lemma rows_apart_keys:
  assumes "e \<in> set ENDPOINT_TABLE" and "e' \<in> set ENDPOINT_TABLE" and "ep_method e = ep_method e'"
    and "list_all2 seg_fits (shape e) ps" and "list_all2 seg_fits (shape e') ps"
  shows "ep_key e = ep_key e'"
proof -
  let ?f = "\<lambda>e. (ep_key e, ep_method e, shape e)"
  have apart: "e1 = e2 \<or> rows_apart (?f e1) (?f e2) \<or> rows_apart (?f e2) (?f e1)"
    if mem: "e1 \<in> set ENDPOINT_TABLE" "e2 \<in> set ENDPOINT_TABLE" for e1 e2
  proof -
    obtain i j where ij: "i < length ENDPOINT_TABLE" "j < length ENDPOINT_TABLE"
        "e1 = ENDPOINT_TABLE ! i" "e2 = ENDPOINT_TABLE ! j"
      using mem[unfolded in_set_conv_nth] by blast
    have "rows_apart (?f (ENDPOINT_TABLE ! a)) (?f (ENDPOINT_TABLE ! b))"
      if "a < b" "b < length ENDPOINT_TABLE" for a b
      using table_rows_apart that by (auto simp: sorted_wrt_map sorted_wrt_iff_nth_less)
    with ij show ?thesis by (metis linorder_neqE_nat)
  qed
  have no: "\<not> rows_apart (?f a) (?f b)"
    if m: "ep_method a = ep_method b" and fit: "list_all2 seg_fits (shape a) ps" "list_all2 seg_fits (shape b) ps"
    for a b
  proof -
    have len: "length (shape a) = length (shape b)" using fit by (metis list_all2_lengthD)
    have "\<not> seg_apart g h" if "(g, h) \<in> set (zip (shape a) (shape b))" for g h
    proof -
      obtain i where "i < length (shape a)" "g = shape a ! i" "h = shape b ! i"
        using \<open>(g, h) \<in> set (zip (shape a) (shape b))\<close> by (auto simp: set_zip)
      then have "seg_fits g (ps ! i)" "seg_fits h (ps ! i)"
        using fit len by (auto simp: list_all2_conv_all_nth)
      then show ?thesis by (cases g; cases h) auto
    qed
    with m len show ?thesis by (auto simp: rows_apart_def list_ex_iff)
  qed
  from apart[OF assms(1,2)] no[OF assms(3,4,5)] no[OF assms(3)[symmetric] assms(5,4)]
  show ?thesis by auto
qed

section \<open>Properties\<close>

lemma first_param_error_None:
  "first_param_error ep ps = None \<longleftrightarrow> (\<forall>(n, v) \<in> set ps. param_error ep n v = None)"
  by (induction ps) (auto split: option.splits)

lemma build_path_Inr:
  "build_path key ps = Inr p \<longleftrightarrow>
     (\<exists>ep. ENDPOINTS key = Some ep \<and> set (findall (toks (ep_path ep))) = set (map fst ps)
        \<and> (\<forall>(n, v) \<in> set ps. param_error ep n v = None)
        \<and> p = join_with [CHR ''/''] (map (seg_fill (param_str ps)) (shape ep)))"
proof (cases "ENDPOINTS key")
  case (Some ep)
  then have mem: "ep \<in> set ENDPOINT_TABLE" by (simp add: ENDPOINTS_row)
  with table_row_ok[of ep] have ok: "external_path (ep_catalog_path ep) = Inr (ep_path ep)"
    "\<not> contains (ep_path ep) ''/api/ext/ext/''" by auto
  show ?thesis
    by (auto simp: build_path_def Some ok row_toks[OF mem] subst_seg_toks
        first_param_error_None[symmetric] simp del: contains.simps split: option.splits)
qed (simp add: build_path_def)



lemma join_three:
  "join_with [CHR ''/''] ([] # ''api'' # ''ext'' # d # ps) =
     ''/api/ext/'' @ d @ (if ps = [] then [] else CHR ''/'' # join_with [CHR ''/''] ps)"
  by (cases ps) auto

text \<open>
  Every URL path that \<open>build_path\<close> answers lies under \<open>/api/ext/\<close>, and never under the
  doubled \<open>/api/ext/ext/\<close> that the cabinet answers with a misleading 401, whatever the
  values of the parameters are.
\<close>

theorem build_path_one_ext:
  assumes "build_path key ps = Inr p"
  shows "starts_with p ''/api/ext/'' \<and> \<not> starts_with p ''/api/ext/ext/''"
proof -
  from assms obtain ep where ep: "ep \<in> set ENDPOINT_TABLE"
      and p: "p = join_with [CHR ''/''] (map (seg_fill (param_str ps)) (shape ep))"
    by (auto simp: build_path_Inr ENDPOINTS_row)
  from row_shape[OF ep] obtain d gs where
    "shape ep = SLit [] # SLit ''api'' # SLit ''ext'' # SLit d # gs" and d: "d \<noteq> ''ext''" "CHR ''/'' \<notin> set d"
    by blast
  then obtain r where p': "p = ''/api/ext/'' @ d @ r" and r: "r = [] \<or> hd r = CHR ''/''"
    using p join_three[of d "map (seg_fill (param_str ps)) gs"] by (auto split: if_splits)
  have "\<not> starts_with (d @ r) ''ext/''"
  proof
    assume "starts_with (d @ r) ''ext/''"
    then obtain z where z: "d @ r = ''ext'' @ CHR ''/'' # z" by (auto simp: starts_with_prefix prefix_def)
    have "takeWhile (\<lambda>c. c \<noteq> CHR ''/'') d = d" using d(2) by (auto simp: takeWhile_eq_all_conv)
    then have "takeWhile (\<lambda>c. c \<noteq> CHR ''/'') (d @ r) = d"
      using r by (cases r) (simp_all add: takeWhile_tail)
    then show False using z d(1) by simp
  qed
  then show ?thesis by (simp add: p')
qed

theorem build_path_one_ext_witness:
  "build_path ''pedestals.status_ext'' [(''pedestal_id'', PStr ''KRK-1'')] = Inr ''/api/ext/pedestals/KRK-1/status''
   \<and> \<not> starts_with ''/api/ext/pedestals/KRK-1/status'' ''/api/ext/ext/''"
proof -
  have b: "build_path ''pedestals.status_ext'' [(''pedestal_id'', PStr ''KRK-1'')] =
    Inr ''/api/ext/pedestals/KRK-1/status''" by code_simp
  with build_path_one_ext[OF b] show ?thesis by blast
qed

text \<open>
  C5. A path names the call it was built for: for parameter values that are non-empty and hold
  no slash and no line end (numbers, display ids, outlet names), looking the built path up
  by its method finds the very row it was built from. No two rows of the table overlap.
\<close>

theorem endpoint_for_build_path:
  assumes "build_path key ps = Inr p"
    and "\<forall>(n, v) \<in> set ps. pstr v \<noteq> [] \<and> CHR ''/'' \<notin> set (pstr v) \<and> CHR 0x0A \<notin> set (pstr v)"
  shows "\<exists>ep. ENDPOINTS key = Some ep \<and> endpoint_for (ep_method ep) p = Some ep"
proof -
  let ?f = "param_str ps"
  from assms(1) obtain ep where key: "ENDPOINTS key = Some ep"
      and names: "set (findall (toks (ep_path ep))) = fst ` set ps"
      and p: "p = join_with [CHR ''/''] (map (seg_fill ?f) (shape ep))"
    by (auto simp: build_path_Inr)
  have ep: "ep \<in> set ENDPOINT_TABLE" using key by (simp add: ENDPOINTS_row)
  note row = table_row_ok[OF ep]
  have vals: "?f n \<noteq> [] \<and> CHR ''/'' \<notin> set (?f n) \<and> CHR 0x0A \<notin> set (?f n)"
    if "n \<in> fst ` set ps" for n
  proof -
    have "map_of ps n \<noteq> None" using that by (simp add: map_of_eq_None_iff)
    then obtain v where v: "map_of ps n = Some v" by blast
    then have "(n, v) \<in> set ps" by (rule map_of_SomeD)
    with assms(2) v show ?thesis by (auto simp: param_str_def)
  qed
  have holes: "SPar n \<in> set gs \<Longrightarrow> n \<in> set (findall (seg_toks gs))" for n gs
    by (induction gs rule: seg_toks.induct) auto
  have par: "?f n \<noteq> [] \<and> CHR ''/'' \<notin> set (?f n) \<and> CHR 0x0A \<notin> set (?f n)" if "SPar n \<in> set (shape ep)" for n
    using vals names holes[OF that] row_toks[OF ep] by simp
  have lit: "CHR ''/'' \<notin> set l \<and> CHR 0x0A \<notin> set l" if l: "SLit l \<in> set (shape ep)" for l
  proof -
    have mem: "l \<in> set (split_on (CHR ''/'') (ep_path ep))"
      using row l by (metis image_eqI list.set_map seg_text.simps(1))
    have "set l \<subseteq> set s" if "l \<in> set (split_on c s)" for c s
      using that by (induction s arbitrary: l) (fastforce split: list.splits if_splits)+
    with mem row have "CHR 0x0A \<notin> set l" by (meson subsetD)
    with split_on_no_sep[OF mem] show ?thesis by simp
  qed
  have seg: "CHR ''/'' \<notin> set (seg_fill ?f g) \<and> CHR 0x0A \<notin> set (seg_fill ?f g) \<and> seg_fits g (seg_fill ?f g)"
    if "g \<in> set (shape ep)" for g
    using that par lit by (cases g rule: seg.exhaust) auto
  have ne: "shape ep \<noteq> []" using row_shape[OF ep] by auto
  have nl: "CHR 0x0A \<notin> set (join_with [CHR ''/''] xs)" if "\<forall>x \<in> set xs. CHR 0x0A \<notin> set x" for xs
    using that by (induction "[CHR ''/'']" xs rule: join_with.induct) auto
  have p_nl: "CHR 0x0A \<notin> set p" unfolding p using seg by (intro nl) auto
  have p_split: "split_on (CHR ''/'') p = map (seg_fill ?f) (shape ep)"
    unfolding p using seg ne by (intro split_join) auto
  have fits: "row_matches (ep_method ep, p) e \<longleftrightarrow>
      ep_method e = ep_method ep \<and> list_all2 seg_fits (shape e) (map (seg_fill ?f) (shape ep))"
    if "e \<in> set ENDPOINT_TABLE" for e
  proof -
    have "shape e \<noteq> []" "list_all slash_free (shape e)" using row_shape[OF that] table_row_ok[OF that] by auto
    with p_nl show ?thesis by (simp add: row_matches_def row_toks[OF that] tmatch_segs p_split)
  qed
  have own: "list_all2 seg_fits (shape ep) (map (seg_fill ?f) (shape ep))"
    using seg by (simp add: list_all2_map2 list_all2_same)
  have "endpoint_for (ep_method ep) p = Some ep"
    unfolding endpoint_for_def
  proof (rule calls.chosen_only[OF ep])
    show "row_matches (ep_method ep, p) ep" using fits[OF ep] own by simp
    fix e assume e: "e \<in> set ENDPOINT_TABLE" "row_matches (ep_method ep, p) e"
    with fits[OF e(1)] rows_apart_keys[OF e(1) ep _ _ own] show "ep_key e = ep_key ep" by simp
  qed
  with key show ?thesis by blast
qed

theorem endpoint_for_build_path_witness:
  "\<exists>ep. ENDPOINTS ''controls.socket_cmd'' = Some ep
     \<and> endpoint_for (ep_method ep) ''/api/ext/controls/pedestal/12/socket/Q1/cmd'' = Some ep"
proof -
  have "build_path ''controls.socket_cmd'' [(''pedestal_id'', PInt 12), (''socket_name'', PStr ''Q1'')] =
    Inr ''/api/ext/controls/pedestal/12/socket/Q1/cmd''" by code_simp
  moreover have "\<forall>(n, v) \<in> set [(''pedestal_id'', PInt 12), (''socket_name'', PStr ''Q1'')].
      pstr v \<noteq> [] \<and> CHR ''/'' \<notin> set (pstr v) \<and> CHR 0x0A \<notin> set (pstr v)" by code_simp
  ultimately show ?thesis by (rule endpoint_for_build_path)
qed

text \<open>
  What the operator is asked to enable and what must never be enabled are disjoint, every
  row is in exactly one mode list, and the rows that change something on the cabinet are
  exactly the POST rows.
\<close>

theorem enabled_modes_cover_table:
  "set (enabled_by_mode MONITOR) \<union> set (enabled_by_mode BIDIRECTIONAL) = ep_key ` set ENDPOINT_TABLE
   \<and> set (enabled_by_mode MONITOR) \<inter> set (enabled_by_mode BIDIRECTIONAL) = {}
   \<and> (set (enabled_by_mode MONITOR) \<union> set (enabled_by_mode BIDIRECTIONAL)) \<inter> set NEVER_ENABLE = {}
   \<and> {ep_key e |e. e \<in> set ENDPOINT_TABLE \<and> ep_method e = ''POST''} = set (enabled_by_mode BIDIRECTIONAL)"
proof -
  have "list_all (\<lambda>e. (ep_method e = ''POST'') = (ep_mode e = BIDIRECTIONAL) \<and> ep_key e \<notin> set NEVER_ENABLE)
     ENDPOINT_TABLE" by code_simp
  then have t: "(ep_method e = ''POST'') = (ep_mode e = BIDIRECTIONAL)" "ep_key e \<notin> set NEVER_ENABLE"
    if "e \<in> set ENDPOINT_TABLE" for e using that by (auto simp: list_all_iff)
  have u: "e = e'" if "e \<in> set ENDPOINT_TABLE" "e' \<in> set ENDPOINT_TABLE" "ep_key e = ep_key e'" for e e'
    using that keys.distinct_keys by (auto simp: distinct_map dest: inj_onD)
  have "ep_mode e = MONITOR \<or> ep_mode e = BIDIRECTIONAL" for e :: Endpoint by (cases "ep_mode e") auto
  with t u show ?thesis by (auto simp: enabled_by_mode_def image_iff; metis Mode.distinct(1))
qed

end
