(* ===== verification/Session_Payload.thy ===== *)
theory Session_Payload
  imports Contract "HOL-Library.List_Lexorder" "HOL-Library.Char_ord"
begin

text \<open>
  \<open>cabinet/session_payload.py\<close>: the cabinet's per-session payload. Prices are dropped before
  anything looks at the payload, the figure is checked against the meter registers, and only
  an ended session with a checked figure is billable. Values the code stores unread (status,
  source, customer, times) stay JSON values here; numbers are binary64.
\<close>

definition CONTRACT_KEYS :: "string list" where
  "CONTRACT_KEYS =
    [''session_id'', ''cabinet_id'', ''socket_id'', ''session_type'', ''customer_id'', ''status'',
     ''activated_at'', ''duration_minutes'', ''energy_kwh'', ''water_liters'',
     ''meter_energy_start_kwh'', ''meter_energy_end_kwh'', ''meter_water_start_l'',
     ''meter_water_end_l'', ''consumption_source'', ''power_kw_current'']"

definition OPTIONAL_KEYS :: "string list" where
  "OPTIONAL_KEYS = [''erp_ref'']"

definition PRICE_KEYS :: "string list" where
  "PRICE_KEYS = [''estimated_cost'', ''cost'', ''price'', ''amount'']"

definition CONSUMPTION_SOURCES :: "string list" where
  "CONSUMPTION_SOURCES = [''register'', ''integrated_legacy'', ''unknown'']"

definition RECOMPUTE_TOLERANCE :: rat where
  "RECOMPUTE_TOLERANCE = fl (1 / 1000)"

text \<open>A finding's detail: text, or the values that the code formats into it.\<close>

datatype detail =
    Text string
  | Dropped nat
  | Repr json
  | Figures string rat string string rat

record finding =
  fnd_code :: string
  fnd_detail :: detail

definition Finding :: "string \<Rightarrow> detail \<Rightarrow> finding" where
  "Finding c d = \<lparr>fnd_code = c, fnd_detail = d\<rparr>"

record parsed_session =
  ps_cabinet_session_id :: int
  ps_cabinet_display_id :: json
  ps_outlet_name :: "string option"
  ps_session_type :: string
  ps_customer_id :: json
  ps_status :: json
  ps_activated_at :: json
  ps_duration_minutes :: "rat option"
  ps_consumption :: "rat option"
  ps_unit :: string
  ps_meter_start :: "rat option"
  ps_meter_end :: "rat option"
  ps_consumption_source :: json
  ps_power_kw_current :: "rat option"
  ps_manual_review :: bool
  ps_findings :: "finding list"
  ps_erp_ref :: json

definition billable :: "parsed_session \<Rightarrow> bool" where
  "billable p \<longleftrightarrow> ps_status p = JStr ''ended'' \<and> \<not> ps_manual_review p \<and> ps_consumption p \<noteq> None"

text \<open>
  What parsing can raise: \<open>PayloadError\<close> with what it names, and the \<open>TypeError\<close> and
  \<open>ValueError\<close> of the Python operations it uses (\<open>in\<close> a set of an unhashable value, \<open>int(...)\<close>).
\<close>

datatype payload_error =
    NotAnObject
  | MissingKeys "string list"
  | SessionTypeIs json
  | SocketIdIs json
  | SocketTypeMismatch string string
  | NotANumber string
  | PyTypeError
  | PyValueError

definition is_PayloadError :: "payload_error \<Rightarrow> bool" where
  "is_PayloadError e \<longleftrightarrow> e \<noteq> PyTypeError \<and> e \<noteq> PyValueError"

definition num :: "json \<Rightarrow> string \<Rightarrow> payload_error + rat option" where
  "num v key = (case v of
     JNull \<Rightarrow> Inr None
   | JInt i \<Rightarrow> Inr (Some (fl (of_int i)))
   | JFloat x \<Rightarrow> Inr (Some x)
   | _ \<Rightarrow> Inl (NotANumber key))"

text \<open>\<open>int(...)\<close>: of a string, an optional sign and digits grouped by single underscores.\<close>

definition py_int_str :: "string \<Rightarrow> int option" where
  "py_int_str s0 =
     (let s = strip s0; neg = (s \<noteq> [] \<and> hd s = CHR ''-'');
          body = (if s \<noteq> [] \<and> is_sign (hd s) then tl s else s);
          groups = split_on (CHR ''_'') body
      in if list_all all_digits groups
         then Some ((if neg then - 1 else 1) * int (read_nat (concat groups))) else None)"

definition py_int :: "json \<Rightarrow> payload_error + int" where
  "py_int v = (case v of
     JInt i \<Rightarrow> Inr i
   | JBool b \<Rightarrow> Inr (if b then 1 else 0)
   | JFloat x \<Rightarrow> Inr (if x < 0 then - \<lfloor>- x\<rfloor> else \<lfloor>x\<rfloor>)
   | JStr s \<Rightarrow> (case py_int_str s of None \<Rightarrow> Inl PyValueError | Some i \<Rightarrow> Inr i)
   | _ \<Rightarrow> Inl PyTypeError)"

definition hashable :: "json \<Rightarrow> bool" where
  "hashable v = (case v of JList _ \<Rightarrow> False | JObj _ \<Rightarrow> False | _ \<Rightarrow> True)"

section \<open>The steps of \<open>parse_session\<close>\<close>

definition drop_prices :: "(string \<times> json) list \<Rightarrow> (string \<times> json) list" where
  "drop_prices raw = filter (\<lambda>(k, _). k \<notin> set PRICE_KEYS) raw"

definition price_findings :: "(string \<times> json) list \<Rightarrow> finding list" where
  "price_findings raw =
     (let dropped = length (filter (has_key raw) PRICE_KEYS)
      in if dropped \<noteq> 0 then [Finding ''price_field_dropped'' (Dropped dropped)] else [])"

definition missing_keys :: "(string \<times> json) list \<Rightarrow> string list" where
  "missing_keys payload =
     sort (filter (\<lambda>k. \<not> has_key payload k \<and> \<not> (k = ''customer_id'' \<and> has_key payload ''erp_ref''))
             CONTRACT_KEYS)"

definition extra_keys :: "(string \<times> json) list \<Rightarrow> string list" where
  "extra_keys payload =
     sort (filter (\<lambda>k. k \<notin> set CONTRACT_KEYS \<and> k \<notin> set OPTIONAL_KEYS) (map fst payload))"

definition outlet_of :: "json \<Rightarrow> string \<Rightarrow> payload_error + string option" where
  "outlet_of v session_type = (case v of
     JNull \<Rightarrow> Inr None
   | JStr s \<Rightarrow>
       if \<not> outlet_match s then Inl (SocketIdIs v)
       else if hd s \<noteq> (if session_type = ''electricity'' then CHR ''Q'' else CHR ''V'')
         then Inl (SocketTypeMismatch s session_type)
       else Inr (Some s)
   | _ \<Rightarrow> Inl (SocketIdIs v))"

definition extra_findings :: "(string \<times> json) list \<Rightarrow> finding list" where
  "extra_findings payload =
     (let extra = extra_keys payload
      in if extra \<noteq> [] then [Finding ''unknown_keys'' (Text (join_with '', '' extra))] else [])"

text \<open>\<open>figure_key, start_key, end_key, unit, other_key\<close> of a session type.\<close>

definition medium_keys :: "string \<Rightarrow> string \<times> string \<times> string \<times> string \<times> string" where
  "medium_keys session_type =
     (if session_type = ''electricity''
      then (''energy_kwh'', ''meter_energy_start_kwh'', ''meter_energy_end_kwh'', ''kWh'', ''water_liters'')
      else (''water_liters'', ''meter_water_start_l'', ''meter_water_end_l'', ''L'', ''energy_kwh''))"

definition cross_findings :: "(string \<times> json) list \<Rightarrow> string \<Rightarrow> finding list" where
  "cross_findings payload session_type =
     (case medium_keys session_type of (_, _, _, _, other_key) \<Rightarrow>
        if jget payload other_key \<noteq> JNull
        then [Finding ''cross_medium_figure''
                (Text (other_key @ '' is set on a '' @ session_type @ '' session''))] else [])"

definition source_findings :: "json \<Rightarrow> payload_error + finding list" where
  "source_findings source =
     (if source = JNull then Inr []
      else if \<not> hashable source then Inl PyTypeError
      else if source \<notin> JStr ` set CONSUMPTION_SOURCES
        then Inr [Finding ''unknown_consumption_source'' (Repr source)]
      else Inr [])"

definition quoted :: "string \<Rightarrow> string" where
  "quoted s = [CHR 0x27] @ s @ [CHR 0x27]"

text \<open>The review rules of an ended session, and the recompute from the registers.\<close>

definition ended_findings :: "json \<Rightarrow> rat option \<Rightarrow> json \<Rightarrow> string \<Rightarrow> finding list" where
  "ended_findings status figure source figure_key =
     (if status = JStr ''ended'' then
        (if figure = None
           then [Finding ''figure_null'' (Text (figure_key @ '' is null on an ended session''))] else []) @
        (if source = JStr ''unknown''
           then [Finding ''measurement_missing'' (Text (''consumption_source is '' @ quoted ''unknown''))] else []) @
        (if source = JStr ''integrated_legacy''
           then [Finding ''approximate_figure'' (Text (''consumption_source is '' @ quoted ''integrated_legacy''))] else [])
      else [])"

definition recompute_findings ::
    "rat option \<Rightarrow> rat option \<Rightarrow> rat option \<Rightarrow> string \<Rightarrow> string \<Rightarrow> string \<Rightarrow> finding list" where
  "recompute_findings figure start end figure_key start_key end_key =
     (case figure of
        None \<Rightarrow> []
      | Some f \<Rightarrow>
          (case (start, end) of
             (Some a, Some b) \<Rightarrow>
               (let delta = fsub b a in
                if \<bar>fsub delta f\<bar> > RECOMPUTE_TOLERANCE
                then [Finding ''recompute_mismatch'' (Figures figure_key f end_key start_key delta)] else [])
           | _ \<Rightarrow> [Finding ''recompute_impossible''
                    (Text (figure_key @ '' given without both meter registers''))]))"

definition parse_session :: "json \<Rightarrow> payload_error + parsed_session" where
  "parse_session raw0 = (case raw0 of
     JObj raw \<Rightarrow>
       (let payload = drop_prices raw; get = jget payload; missing = missing_keys payload
        in if missing \<noteq> [] then Inl (MissingKeys missing)
        else case get ''session_type'' of
          JStr session_type \<Rightarrow>
            (if session_type \<noteq> ''electricity'' \<and> session_type \<noteq> ''water''
             then Inl (SessionTypeIs (JStr session_type))
             else case medium_keys session_type of (figure_key, start_key, end_key, unit, other_key) \<Rightarrow>
               sbind (outlet_of (get ''socket_id'') session_type) (\<lambda>outlet.
               sbind (num (get figure_key) figure_key) (\<lambda>figure.
               sbind (num (get start_key) start_key) (\<lambda>start.
               sbind (num (get end_key) end_key) (\<lambda>end.
               sbind (source_findings (get ''consumption_source'')) (\<lambda>source_f.
                 (let source = get ''consumption_source''; status = get ''status'';
                      ended_f = ended_findings status figure source figure_key;
                      recompute_f = recompute_findings figure start end figure_key start_key end_key
                  in sbind (py_int (get ''session_id'')) (\<lambda>sid.
                     sbind (num (get ''duration_minutes'') ''duration_minutes'') (\<lambda>duration.
                     sbind (num (get ''power_kw_current'') ''power_kw_current'') (\<lambda>power.
                     Inr \<lparr>ps_cabinet_session_id = sid,
                          ps_cabinet_display_id = get ''cabinet_id'',
                          ps_outlet_name = outlet,
                          ps_session_type = session_type,
                          ps_customer_id = get ''customer_id'',
                          ps_status = status,
                          ps_activated_at = get ''activated_at'',
                          ps_duration_minutes = duration,
                          ps_consumption = figure,
                          ps_unit = unit,
                          ps_meter_start = start,
                          ps_meter_end = end,
                          ps_consumption_source = source,
                          ps_power_kw_current = power,
                          ps_manual_review = (ended_f \<noteq> [] \<or> recompute_f \<noteq> []),
                          ps_findings =
                            price_findings raw
                            @ extra_findings payload @ cross_findings payload session_type
                            @ source_f @ ended_f @ recompute_f,
                          ps_erp_ref = (if jtrue (get ''erp_ref'') then get ''erp_ref'' else JNull)\<rparr>))))))))))
        | v \<Rightarrow> Inl (SessionTypeIs v))
   | _ \<Rightarrow> Inl NotAnObject)"

section \<open>What a parsed session says\<close>

lemma parse_session_JObj: "parse_session v = Inr p \<Longrightarrow> \<exists>raw. v = JObj raw"
  by (cases v) (auto simp: parse_session_def)

text \<open>One inversion rule: the values a parsed session was built from.\<close>

lemma parse_session_inv:
  assumes "parse_session (JObj raw) = Inr p"
  shows "let get = jget (drop_prices raw); st = ps_session_type p in
     st \<in> {''electricity'', ''water''} \<and> get ''session_type'' = JStr st
   \<and> missing_keys (drop_prices raw) = []
   \<and> outlet_of (get ''socket_id'') st = Inr (ps_outlet_name p)
   \<and> (case medium_keys st of (fk, sk, ek, u, ok) \<Rightarrow>
        num (get fk) fk = Inr (ps_consumption p) \<and> num (get sk) sk = Inr (ps_meter_start p)
      \<and> num (get ek) ek = Inr (ps_meter_end p) \<and> ps_unit p = u
      \<and> ps_manual_review p =
          (ended_findings (ps_status p) (ps_consumption p) (ps_consumption_source p) fk \<noteq> []
           \<or> recompute_findings (ps_consumption p) (ps_meter_start p) (ps_meter_end p) fk sk ek \<noteq> []))
   \<and> ps_status p = get ''status'' \<and> ps_consumption_source p = get ''consumption_source''
   \<and> (\<exists>fs. source_findings (get ''consumption_source'') = Inr fs
        \<and> ps_findings p = price_findings raw @ extra_findings (drop_prices raw) @ cross_findings (drop_prices raw) st
             @ fs @ (case medium_keys st of (fk, sk, ek, u, ok) \<Rightarrow>
                 ended_findings (ps_status p) (ps_consumption p) (ps_consumption_source p) fk
                 @ recompute_findings (ps_consumption p) (ps_meter_start p) (ps_meter_end p) fk sk ek))"
proof -
  let ?get = "jget (drop_prices raw)"
  obtain st where st: "?get ''session_type'' = JStr st" "st = ''electricity'' \<or> st = ''water''"
    and m: "missing_keys (drop_prices raw) = []"
    using assms by (auto simp: parse_session_def Let_def split: if_splits json.splits)
  obtain fk sk ek u ok where mk: "medium_keys st = (fk, sk, ek, u, ok)"
    by (metis prod_cases5)
  have ty: "ps_session_type p = st"
    using assms m st mk by (auto simp: parse_session_def Let_def sbind_Inr)
  show ?thesis
    unfolding Let_def ty using assms m st mk by (auto simp: parse_session_def Let_def sbind_Inr)
qed


definition sample_session :: "json" where
  "sample_session = JObj
    [(''session_id'', JInt 41), (''cabinet_id'', JStr ''KRK-1''), (''socket_id'', JStr ''Q2''),
     (''session_type'', JStr ''electricity''), (''customer_id'', JStr ''C-7''), (''status'', JStr ''ended''),
     (''activated_at'', JStr ''2026-10-01T10:00:00Z''), (''duration_minutes'', JInt 60),
     (''energy_kwh'', JInt 3), (''water_liters'', JNull), (''meter_energy_start_kwh'', JInt 100),
     (''meter_energy_end_kwh'', JInt 103), (''meter_water_start_l'', JNull), (''meter_water_end_l'', JNull),
     (''consumption_source'', JStr ''register''), (''power_kw_current'', JNull), (''price'', JInt 9)]"


text \<open>
  Consumption is attributed to an outlet of its own medium: a parsed session's outlet, when
  there is one, is Q1-Q4 for electricity and V1-V2 for water (a trailing line end, which
  the pattern lets through, apart), its unit is the medium's and its figure and registers
  are the medium's keys of the payload.
\<close>

theorem outlet_of_own_medium:
  assumes "parse_session (JObj raw) = Inr p"
  shows "(ps_session_type p, ps_unit p) \<in> {(''electricity'', ''kWh''), (''water'', ''L'')}
   \<and> (\<forall>o1. ps_outlet_name p = Some o1 \<longrightarrow> outlet_match o1
        \<and> hd o1 = (if ps_session_type p = ''electricity'' then CHR ''Q'' else CHR ''V''))
   \<and> num (jget raw (if ps_session_type p = ''electricity'' then ''energy_kwh'' else ''water_liters''))
         (if ps_session_type p = ''electricity'' then ''energy_kwh'' else ''water_liters'')
       = Inr (ps_consumption p)"
proof -
  have g: "jget (drop_prices raw) k = jget raw k" if "k \<notin> set PRICE_KEYS" for k
    using that by (simp add: drop_prices_def jget_filter[where P = "\<lambda>k. k \<notin> set PRICE_KEYS"])
  have "jget (drop_prices raw) ''energy_kwh'' = jget raw ''energy_kwh''"
    "jget (drop_prices raw) ''water_liters'' = jget raw ''water_liters''"
    by (intro g; simp add: PRICE_KEYS_def)+
  with parse_session_inv[OF assms] show ?thesis
    by (auto simp: Let_def medium_keys_def outlet_of_def split: json.splits if_splits)
qed

theorem outlet_of_own_medium_witness:
  "\<exists>ob p. sample_session = JObj ob \<and> parse_session (JObj ob) = Inr p \<and> ps_unit p = ''kWh''"
proof -
  have "case parse_session sample_session of Inr p \<Rightarrow> ps_session_type p = ''electricity'' | Inl _ \<Rightarrow> False"
    by code_simp
  then obtain p where p: "parse_session sample_session = Inr p" "ps_session_type p = ''electricity''"
    by (auto split: sum.splits)
  obtain ob where ob: "sample_session = JObj ob" using parse_session_JObj[OF p(1)] by blast
  with outlet_of_own_medium[OF p(1)[unfolded ob]] p show ?thesis by auto
qed

section \<open>Prices\<close>

definition without_price_findings :: "parsed_session \<Rightarrow> parsed_session" where
  "without_price_findings p =
     p\<lparr>ps_findings := filter (\<lambda>f. fnd_code f \<noteq> ''price_field_dropped'') (ps_findings p)\<rparr>"

lemma drop_prices_idem [simp]: "drop_prices (drop_prices raw) = drop_prices raw"
  by (simp add: drop_prices_def)

lemma price_findings_filtered: "filter (\<lambda>f. fnd_code f \<noteq> ''price_field_dropped'') (price_findings raw) = []"
  by (simp add: price_findings_def Finding_def Let_def)

lemma map_sum_sbind: "map_sum id g (sbind m f) = sbind m (\<lambda>x. map_sum id g (f x))"
  by (cases m) auto

lemma price_findings_dropped [simp]: "price_findings (drop_prices raw) = []"
proof -
  have "\<not> has_key (drop_prices raw) k" if "k \<in> set PRICE_KEYS" for k
    using that by (auto simp: drop_prices_def has_key_iff)
  then show ?thesis by (simp add: price_findings_def)
qed

lemma parse_without_prices:
  "map_sum id without_price_findings (parse_session (JObj raw)) =
     map_sum id without_price_findings (parse_session (JObj (drop_prices raw)))"
  by (auto simp: parse_session_def Let_def map_sum_sbind without_price_findings_def price_findings_filtered
      intro!: arg_cong2[where f = sbind] ext split: json.splits prod.splits)

lemma findings_of_parse:
  assumes "parse_session (JObj raw) = Inr p"
  shows "\<exists>rest. ps_findings p = price_findings raw @ rest \<and> (\<forall>f \<in> set rest. fnd_code f \<noteq> ''price_field_dropped'')"
proof -
  have src: "source_findings v = Inr fs \<Longrightarrow> \<forall>f \<in> set fs. fnd_code f \<noteq> ''price_field_dropped''" for v fs
    by (auto simp: source_findings_def Finding_def split: if_splits)
  have ended: "\<forall>f \<in> set (ended_findings a b c d). fnd_code f \<noteq> ''price_field_dropped''" for a b c d
    by (auto simp: ended_findings_def Finding_def)
  have rec: "\<forall>f \<in> set (recompute_findings a b c d e g). fnd_code f \<noteq> ''price_field_dropped''" for a b c d e g
    by (cases a; cases b; cases c) (auto simp: recompute_findings_def Finding_def Let_def)
  have extra: "\<forall>f \<in> set (extra_findings ob). fnd_code f \<noteq> ''price_field_dropped''"
    and cross: "\<forall>f \<in> set (cross_findings ob st). fnd_code f \<noteq> ''price_field_dropped''" for ob st
    by (auto simp: extra_findings_def cross_findings_def Finding_def Let_def split: prod.splits)
  from parse_session_inv[OF assms] src ended rec extra cross show ?thesis
    by (fastforce simp: Let_def split: prod.splits)
qed

text \<open>
  C7. A price never gets past the parser: whatever price fields a payload carries, the parsed
  session is the one of the payload without them, error for error and field for field; the
  only trace is one finding that counts them.
\<close>

theorem prices_have_no_effect:
  "map_sum id without_price_findings (parse_session (JObj raw)) =
     map_sum id without_price_findings (parse_session (JObj (drop_prices raw)))
   \<and> (\<forall>p f. parse_session (JObj raw) = Inr p \<longrightarrow> f \<in> set (ps_findings p) \<longrightarrow>
        fnd_code f = ''price_field_dropped'' \<longrightarrow>
        fnd_detail f = Dropped (length (filter (has_key raw) PRICE_KEYS)))"
proof (intro conjI allI impI parse_without_prices)
  fix p f
  assume p: "parse_session (JObj raw) = Inr p" and f: "f \<in> set (ps_findings p)"
    and code: "fnd_code f = ''price_field_dropped''"
  from findings_of_parse[OF p] f code have "f \<in> set (price_findings raw)" by auto
  then show "fnd_detail f = Dropped (length (filter (has_key raw) PRICE_KEYS))"
    by (auto simp: price_findings_def Finding_def Let_def split: if_splits)
qed

theorem prices_have_no_effect_witness:
  "\<exists>raw p f. sample_session = JObj raw \<and> parse_session (JObj raw) = Inr p \<and> f \<in> set (ps_findings p)
     \<and> fnd_detail f = Dropped (length (filter (has_key raw) PRICE_KEYS))"
proof -
  have "case parse_session sample_session of
      Inr p \<Rightarrow> ps_findings p \<noteq> [] \<and> fnd_code (hd (ps_findings p)) = ''price_field_dropped''
    | Inl _ \<Rightarrow> False" by code_simp
  then obtain p where p: "parse_session sample_session = Inr p"
      "hd (ps_findings p) \<in> set (ps_findings p)" "fnd_code (hd (ps_findings p)) = ''price_field_dropped''"
    by (auto split: sum.splits)
  obtain ob where ob: "sample_session = JObj ob" using parse_session_JObj[OF p(1)] by blast
  with prices_have_no_effect[of ob, THEN conjunct2, rule_format, OF p(1)[unfolded ob] p(2,3)] p
  show ?thesis by (intro exI[of _ ob] exI[of _ p] exI[of _ "hd (ps_findings p)"]) simp
qed

text \<open>
  A session may carry findings and still be billable: an unknown key, a price or a figure of
  the other medium is recorded but does not send the session to review.
\<close>

lemma billable_with_findings:
  "\<exists>p. parse_session sample_session = Inr p \<and> billable p \<and> ps_findings p \<noteq> []"
proof -
  have "case parse_session sample_session of Inr p \<Rightarrow> billable p \<and> ps_findings p \<noteq> [] | Inl _ \<Rightarrow> False"
    by code_simp
  then show ?thesis by (auto split: sum.splits)
qed

end
