(* ===== verification/Schema.thy ===== *)
theory Schema
  imports Session_Payload
begin

text \<open>
  The tables of \<open>models/*.py\<close> that the modelled operations read and write: one record per
  table row, the row's CHECK constraints as a predicate (\<open>..._checks\<close>), and the database as
  the record of its tables. A table is the list of its rows in the order of their ids.
  Ids the database hands out are natural numbers; numbers the cabinet reports are integers;
  NUMERIC columns are rationals, quantised where the code quantises. Column lengths are not
  modelled.
\<close>

text \<open>SQL's \<open>trim\<close>: blanks only.\<close>

definition sql_trim :: "string \<Rightarrow> string" where
  "sql_trim s = rev (dropWhile (\<lambda>c. c = CHR '' '') (rev (dropWhile (\<lambda>c. c = CHR '' '') s)))"

section \<open>Users and sign-in (\<open>models/user.py\<close>)\<close>

record user =
  u_id :: nat
  u_email :: string
  u_password_hash :: "string option"
  u_full_name :: "string option"
  u_role :: string
  u_is_active :: bool
  u_created_at :: dtime
  u_last_login :: "dtime option"
  u_totp_secret_enc :: "string option"
  u_totp_confirmed_at :: "dtime option"
  u_totp_last_step :: "int option"
  u_failed_count :: int
  u_locked_until :: "dtime option"

definition user_checks :: "user \<Rightarrow> bool" where
  "user_checks u \<longleftrightarrow> u_role u \<in> {''admin'', ''marina_manager''} \<and> 0 \<le> u_failed_count u
     \<and> (u_totp_confirmed_at u = None \<or> u_totp_secret_enc u \<noteq> None)"

record user_marina_access =
  uma_user_id :: nat
  uma_marina_id :: nat
  uma_granted_at :: dtime
  uma_granted_by :: "nat option"

record backup_code =
  bc_id :: nat
  bc_user_id :: nat
  bc_code_hash :: string
  bc_created_at :: dtime
  bc_used_at :: "dtime option"

record setup_token =
  stk_id :: nat
  stk_token_hash :: string
  stk_user_id :: nat
  stk_created_at :: dtime
  stk_expires_at :: dtime
  stk_used_at :: "dtime option"
  stk_created_by :: "nat option"

definition setup_token_checks :: "setup_token \<Rightarrow> bool" where
  "setup_token_checks t \<longleftrightarrow> stk_created_at t < stk_expires_at t"

record auth_audit =
  aa_id :: nat
  aa_user_id :: "nat option"
  aa_email_tried :: "string option"
  aa_event :: string
  aa_detail :: "string option"
  aa_actor_id :: "nat option"
  aa_source_ip :: "string option"
  aa_created_at :: dtime

section \<open>Marinas (\<open>models/marina.py\<close>)\<close>

record marina =
  mar_id :: nat
  mar_name :: string
  mar_location :: "string option"
  mar_timezone :: string
  mar_logo_url :: "string option"
  mar_pedestal_api_base_url :: string
  mar_pedestal_service_email :: "string option"
  mar_pedestal_service_password_enc :: "string option"
  mar_webhook_secret :: "string option"
  mar_map_svg :: "string option"
  mar_status :: string
  mar_created_at :: dtime
  mar_updated_at :: dtime

text \<open>\<open>LIKE '%.svg'\<close> and none of the three forbidden shapes: a file name, never a path.\<close>

definition marina_checks :: "marina \<Rightarrow> bool" where
  "marina_checks m \<longleftrightarrow> (case mar_map_svg m of
     None \<Rightarrow> True
   | Some f \<Rightarrow> starts_with (rev f) (rev ''.svg'') \<and> \<not> contains f ''/''
       \<and> \<not> contains f [CHR 0x5C] \<and> \<not> starts_with f ''.'')"

section \<open>Cabinets and outlets (\<open>models/cabinet.py\<close>)\<close>

record cabinet =
  cab_id :: nat
  cab_marina_id :: nat
  cab_pedestal_pk :: int
  cab_display_id :: string
  cab_device_type :: string
  cab_base_url :: string
  cab_service_email :: string
  cab_service_pw_enc :: string
  cab_erp_api_key_enc :: "string option"
  cab_dock :: "string option"
  cab_webhook_key_enc :: "string option"
  cab_webhook_hmac :: bool
  cab_webhook_secret_enc :: "string option"
  cab_smart_mode :: "bool option"
  cab_last_heartbeat_at :: "dtime option"
  cab_last_polled_at :: "dtime option"
  cab_is_simulated :: bool

text \<open>\<open>base_url LIKE 'http://127.0.0.1:%/c/%'\<close>.\<close>

definition simulator_url :: "string \<Rightarrow> bool" where
  "simulator_url u \<longleftrightarrow> starts_with u ''http://127.0.0.1:''
     \<and> contains (drop (length ''http://127.0.0.1:'') u) ''/c/''"

definition cabinet_checks :: "cabinet \<Rightarrow> bool" where
  "cabinet_checks c \<longleftrightarrow> cab_is_simulated c = simulator_url (cab_base_url c)
     \<and> cab_device_type c \<in> {''full'', ''retrofit''}
     \<and> (\<not> cab_webhook_hmac c \<or> cab_webhook_secret_enc c \<noteq> None)"

record capability =
  cap_cabinet_id :: nat
  cap_capability :: string
  cap_available :: bool
  cap_checked_at :: dtime
  cap_set_by :: "string option"
  cap_reason :: "string option"
  cap_note :: "string option"

definition capability_checks :: "capability \<Rightarrow> bool" where
  "capability_checks c \<longleftrightarrow>
     cap_capability c \<in> {''power'', ''water'', ''vessel_detect'', ''camera'', ''door'', ''breaker'',
       ''load_meter'', ''reference_upload''}
     \<and> (cap_capability c \<noteq> ''reference_upload'' \<or>
         (cap_set_by c \<noteq> None \<and> (case cap_reason c of None \<Rightarrow> False | Some r \<Rightarrow> 3 \<le> length (sql_trim r))))"

record outlet =
  out_id :: nat
  out_cabinet_id :: nat
  out_outlet_name :: string
  out_medium :: string
  out_phases :: "int option"
  out_rated_amps :: "int option"
  out_rated_lpm :: "int option"

definition outlet_checks :: "outlet \<Rightarrow> bool" where
  "outlet_checks o1 \<longleftrightarrow> out_outlet_name o1 \<in> set OUTLETS
     \<and> ((starts_with (out_outlet_name o1) ''Q'' \<and> out_medium o1 = ''electricity'') \<or>
        (starts_with (out_outlet_name o1) ''V'' \<and> out_medium o1 = ''water''))
     \<and> (out_phases o1 = None \<or> out_phases o1 \<in> {Some 1, Some 3})
     \<and> (out_medium o1 = ''electricity'' \<or> (out_phases o1 = None \<and> out_rated_amps o1 = None))"

section \<open>Berths, mapping and tags (\<open>models/berth.py\<close>)\<close>

record berth =
  ber_id :: nat
  ber_marina_id :: nat
  ber_berth_number :: string
  ber_svg_id :: "string option"
  ber_cabinet_id :: "nat option"
  ber_cabinet_berth_id :: "int option"
  ber_length_m :: "rat option"
  ber_created_at :: dtime

record berth_reservation =
  brs_id :: nat
  brs_berth_id :: nat
  brs_starts_at :: dtime
  brs_ends_at :: dtime
  brs_note :: "string option"
  brs_created_by :: string
  brs_created_at :: dtime

definition berth_reservation_checks :: "berth_reservation \<Rightarrow> bool" where
  "berth_reservation_checks r \<longleftrightarrow> brs_starts_at r < brs_ends_at r \<and> sql_trim (brs_created_by r) \<noteq> []"

record berth_outlet =
  bo_berth_id :: nat
  bo_outlet_id :: nat
  bo_medium :: string
  bo_source :: string
  bo_assigned_by :: string
  bo_assigned_at :: dtime

definition berth_outlet_checks :: "berth_outlet \<Rightarrow> bool" where
  "berth_outlet_checks b \<longleftrightarrow> bo_source b \<in> {''erp_manual'', ''cabinet'', ''confirmed''}
     \<and> sql_trim (bo_assigned_by b) \<noteq> []"

text \<open>Primary key and the two partial unique indexes on electricity rows.\<close>

definition berth_outlet_apart :: "berth_outlet \<Rightarrow> berth_outlet \<Rightarrow> bool" where
  "berth_outlet_apart a b \<longleftrightarrow>
     (bo_berth_id a, bo_outlet_id a) \<noteq> (bo_berth_id b, bo_outlet_id b)
   \<and> (bo_medium a = ''electricity'' \<and> bo_medium b = ''electricity'' \<longrightarrow>
        bo_outlet_id a \<noteq> bo_outlet_id b \<and> bo_berth_id a \<noteq> bo_berth_id b)"

record berth_outlet_cabinet =
  boc_cabinet_id :: nat
  boc_outlet_name :: string
  boc_cabinet_berth_id :: "int option"
  boc_assigned_by :: "string option"
  boc_assigned_at :: "dtime option"
  boc_fetched_at :: dtime

record mapping_comparison =
  mc_cabinet_id :: nat
  mc_state :: string
  mc_divergent_rows :: "(string \<times> int list \<times> int list) list option"
  mc_checked_at :: dtime

record nfc_tag =
  tag_id :: nat
  tag_outlet_id :: nat
  tag_uid_primary :: string
  tag_uid_reversed :: string
  tag_standard :: string
  tag_provisioned_by :: string
  tag_provisioned_at :: dtime
  tag_active :: bool
  tag_note :: "string option"

record vessel =
  ves_id :: nat
  ves_marina_id :: nat
  ves_name :: string
  ves_registration :: "string option"
  ves_owner_name :: "string option"
  ves_owner_contact :: "string option"
  ves_created_at :: dtime
  ves_created_by :: string
  ves_updated_at :: "dtime option"
  ves_updated_by :: "string option"

definition vessel_checks :: "vessel \<Rightarrow> bool" where
  "vessel_checks v \<longleftrightarrow> sql_trim (ves_name v) \<noteq> [] \<and> sql_trim (ves_created_by v) \<noteq> []"

record berth_vessel =
  bv_id :: nat
  bv_berth_id :: nat
  bv_vessel_id :: nat
  bv_valid_from :: dtime
  bv_valid_to :: "dtime option"
  bv_assigned_by :: string

definition berth_vessel_checks :: "berth_vessel \<Rightarrow> bool" where
  "berth_vessel_checks b \<longleftrightarrow> pred_option (\<lambda>t. bv_valid_from b < t) (bv_valid_to b)
     \<and> sql_trim (bv_assigned_by b) \<noteq> []"

text \<open>The partial unique index: at most one current vessel per berth.\<close>

definition berth_vessel_apart :: "berth_vessel \<Rightarrow> berth_vessel \<Rightarrow> bool" where
  "berth_vessel_apart a b \<longleftrightarrow> \<not> (bv_valid_to a = None \<and> bv_valid_to b = None \<and> bv_berth_id a = bv_berth_id b)"

record vessel_photo =
  vp_id :: nat
  vp_vessel_id :: nat
  vp_berth_id :: nat
  vp_cabinet_id :: nat
  vp_sha256 :: string
  vp_size_bytes :: int
  vp_content_type :: string
  vp_reason :: string
  vp_no_people_confirmed :: bool
  vp_uploaded_by :: string
  vp_uploaded_at :: dtime
  vp_outcome :: "string option"
  vp_cabinet_status :: "int option"
  vp_cabinet_detail :: "string option"

definition vessel_photo_checks :: "vessel_photo \<Rightarrow> bool" where
  "vessel_photo_checks p \<longleftrightarrow> length (vp_sha256 p) = 64 \<and> 0 < vp_size_bytes p \<and> vp_size_bytes p \<le> 10485760
     \<and> vp_content_type p = ''image/jpeg'' \<and> 3 \<le> length (sql_trim (vp_reason p)) \<and> vp_no_people_confirmed p"

section \<open>Sessions and metering (\<open>models/metering.py\<close>)\<close>

record erp_session =
  ses_id :: nat
  ses_erp_ref :: string
  ses_cabinet_id :: nat
  ses_cabinet_session_id :: "int option"
  ses_outlet_id :: nat
  ses_customer_id :: "nat option"
  ses_session_type :: string
  ses_status :: string
  ses_activated_at :: "dtime option"
  ses_ended_at :: "dtime option"
  ses_duration_min :: "rat option"
  ses_energy_kwh :: "rat option"
  ses_water_liters :: "rat option"
  ses_meter_e_start :: "rat option"
  ses_meter_e_end :: "rat option"
  ses_meter_w_start :: "rat option"
  ses_meter_w_end :: "rat option"
  ses_consumption_source :: "string option"
  ses_recompute_ok :: "bool option"
  ses_billing_state :: string
  ses_created_at :: dtime
  ses_reconciled_at :: "dtime option"
  ses_ack_sent_at :: "dtime option"

definition session_checks :: "erp_session \<Rightarrow> bool" where
  "session_checks s \<longleftrightarrow>
     ses_session_type s \<in> {''electricity'', ''water''}
   \<and> ses_status s \<in> {''reserved'', ''active'', ''ended''}
   \<and> (ses_consumption_source s = None \<or> ses_consumption_source s \<in> Some ` set CONSUMPTION_SOURCES)
   \<and> ses_billing_state s \<in> {''pending'', ''billed'', ''manual_review'', ''not_billable''}
   \<and> (ses_billing_state s \<noteq> ''billed''
        \<or> (ses_session_type s = ''electricity'' \<and> ses_energy_kwh s \<noteq> None)
        \<or> (ses_session_type s = ''water'' \<and> ses_water_liters s \<noteq> None))
   \<and> (ses_billing_state s \<noteq> ''billed'' \<or> ses_reconciled_at s \<noteq> None)"

text \<open>\<open>UNIQUE (erp_ref)\<close> and \<open>UNIQUE (cabinet_id, cabinet_session_id)\<close>; NULLs never collide.\<close>

definition session_apart :: "erp_session \<Rightarrow> erp_session \<Rightarrow> bool" where
  "session_apart a b \<longleftrightarrow> ses_erp_ref a \<noteq> ses_erp_ref b
   \<and> (ses_cabinet_id a \<noteq> ses_cabinet_id b \<or> ses_cabinet_session_id a = None
      \<or> ses_cabinet_session_id a \<noteq> ses_cabinet_session_id b)"

record interval =
  iv_id :: nat
  iv_outlet_id :: nat
  iv_session_id :: "nat option"
  iv_standalone :: bool
  iv_from_at :: dtime
  iv_to_at :: dtime
  iv_energy_kwh :: "rat option"
  iv_water_liters :: "rat option"
  iv_meter_from :: "rat option"
  iv_meter_to :: "rat option"
  iv_source :: string

definition interval_checks :: "interval \<Rightarrow> bool" where
  "interval_checks i \<longleftrightarrow> \<not> (iv_standalone i \<and> iv_session_id i \<noteq> None)
     \<and> iv_from_at i < iv_to_at i
     \<and> pred_option ((\<le>) 0) (iv_energy_kwh i) \<and> pred_option ((\<le>) 0) (iv_water_liters i)
     \<and> iv_source i \<in> set CONSUMPTION_SOURCES"

record monthly =
  mon_outlet_id :: nat
  mon_month :: "int \<times> int"
  mon_standalone :: bool
  mon_energy_kwh :: "rat option"
  mon_water_liters :: "rat option"
  mon_interval_count :: nat

record meter_state =
  ms_outlet_id :: nat
  ms_energy_kwh :: "rat option"
  ms_read_at :: dtime
  ms_last_interval_id :: "nat option"

record reconciliation_run =
  run_id :: nat
  run_cabinet_id :: nat
  run_mode :: string
  run_started_at :: dtime
  run_finished_at :: "dtime option"
  run_window_from :: "dtime option"
  run_window_to :: "dtime option"
  run_ok :: bool
  run_sessions_seen :: nat
  run_sessions_updated :: nat
  run_sessions_unknown :: nat
  run_sessions_acked :: nat
  run_error :: "string option"

record command_audit =
  cmd_id :: nat
  cmd_cabinet_id :: nat
  cmd_outlet_id :: "nat option"
  cmd_endpoint_key :: string
  cmd_action :: string
  cmd_actor_type :: string
  cmd_actor_ref :: "string option"
  cmd_tag_source :: "string option"
  cmd_reason :: "string option"
  cmd_request_url :: string
  cmd_http_status :: "int option"
  cmd_detail :: "string option"
  cmd_source_ip :: "string option"
  cmd_created_at :: dtime
  cmd_outcome :: "string option"
  cmd_completed_at :: "dtime option"

definition command_audit_checks :: "command_audit \<Rightarrow> bool" where
  "command_audit_checks c \<longleftrightarrow>
     cmd_actor_type c \<in> {''customer_nfc'', ''operator'', ''erp_auto''}
   \<and> (cmd_tag_source c = None \<or> cmd_tag_source c \<in> {Some ''scan'', Some ''mapping''})
   \<and> (cmd_actor_type c \<noteq> ''operator'' \<or> (case cmd_reason c of None \<Rightarrow> False | Some r \<Rightarrow> sql_trim r \<noteq> []))"

section \<open>Customers and money (\<open>models/billing.py\<close>)\<close>

record customer =
  cus_id :: nat
  cus_marina_id :: nat
  cus_external_ref :: "string option"
  cus_full_name :: string
  cus_email :: "string option"
  cus_is_demo :: bool
  cus_created_at :: dtime

record ledger_row =
  led_id :: nat
  led_customer_id :: nat
  led_delta :: rat
  led_reason :: string
  led_session_id :: "nat option"
  led_balance_after :: rat
  led_created_by :: string
  led_created_at :: dtime

definition ledger_checks :: "ledger_row \<Rightarrow> bool" where
  "ledger_checks l \<longleftrightarrow>
     led_reason l \<in> {''topup'', ''consumption'', ''adjustment'', ''refund''}
   \<and> sql_trim (led_created_by l) \<noteq> []
   \<and> (led_reason l \<noteq> ''consumption'' \<or> led_session_id l \<noteq> None)"

section \<open>Caches, logs and security (\<open>models/cache.py\<close>, \<open>models/security.py\<close>)\<close>

record pedestal_cache =
  pc_id :: nat
  pc_marina_id :: nat
  pc_pedestal_id :: "int option"
  pc_cache_key :: "string option"
  pc_last_seen_data :: json
  pc_last_synced_at :: "dtime option"
  pc_is_stale :: bool
  pc_last_temperature :: "rat option"
  pc_last_temperature_alarm :: "bool option"
  pc_last_temperature_at :: "dtime option"
  pc_last_readings :: "(string \<times> json) list option"

record alarm_log =
  al_id :: nat
  al_marina_id :: nat
  al_pedestal_id :: int
  al_alarm_data :: json
  al_received_at :: dtime
  al_acknowledged_at :: "dtime option"
  al_acknowledged_by :: "nat option"
  al_cabinet_id :: "nat option"
  al_cabinet_alarm_id :: "int option"
  al_source :: "string option"

record session_log =
  sl_id :: nat
  sl_marina_id :: nat
  sl_pedestal_id :: int
  sl_session_data :: json
  sl_recorded_at :: dtime

record sync_log =
  sy_id :: nat
  sy_marina_id :: nat
  sy_sync_type :: string
  sy_status :: string
  sy_started_at :: dtime
  sy_completed_at :: "dtime option"
  sy_error_message :: "string option"

record audit_log =
  au_id :: nat
  au_user_id :: "nat option"
  au_marina_id :: nat
  au_pedestal_id :: "int option"
  au_action :: string
  au_target_id :: "int option"
  au_details :: json
  au_performed_at :: dtime

record security_alarm =
  sa_id :: nat
  sa_rule_id :: string
  sa_fingerprint :: string
  sa_severity :: string
  sa_title :: string
  sa_why :: string
  sa_evidence :: json
  sa_window_from :: "dtime option"
  sa_window_to :: "dtime option"
  sa_created_at :: dtime
  sa_state :: string
  sa_decided_by :: "nat option"
  sa_decided_at :: "dtime option"
  sa_decision_note :: "string option"
  sa_simulated :: bool

definition security_alarm_checks :: "security_alarm \<Rightarrow> bool" where
  "security_alarm_checks a \<longleftrightarrow> sa_severity a \<in> {''info'', ''warning'', ''critical''}
     \<and> sa_state a \<in> {''open'', ''acknowledged'', ''closed''}
     \<and> (sa_state a = ''open'') = (sa_decided_by a = None \<and> sa_decided_at a = None)"

record agent_pass =
  ap_id :: nat
  ap_finished_at :: dtime
  ap_rules :: int
  ap_opened :: int

definition agent_pass_checks :: "agent_pass \<Rightarrow> bool" where
  "agent_pass_checks p \<longleftrightarrow> 0 \<le> ap_rules p \<and> 0 \<le> ap_opened p"

record service_window =
  sw_id :: nat
  sw_cabinet_id :: nat
  sw_from_at :: dtime
  sw_to_at :: dtime
  sw_announced_by :: string
  sw_note :: "string option"
  sw_created_by :: "nat option"
  sw_created_at :: dtime

definition service_window_checks :: "service_window \<Rightarrow> bool" where
  "service_window_checks w \<longleftrightarrow> sw_from_at w < sw_to_at w \<and> sql_trim (sw_announced_by w) \<noteq> []"

record decoy_hit =
  dh_id :: nat
  dh_kind :: string
  dh_decoy :: string
  dh_method :: "string option"
  dh_path :: "string option"
  dh_source_ip :: "string option"
  dh_user_agent :: "string option"
  dh_observed_at :: dtime

record rule_setting =
  rs_rule_id :: string
  rs_mode :: string
  rs_decided_by :: "nat option"
  rs_decided_at :: dtime

record admin_import =
  ai_id :: nat
  ai_kind :: string
  ai_filename :: string
  ai_sha256 :: string
  ai_content :: json
  ai_imported_by :: "nat option"
  ai_imported_at :: dtime

section \<open>The database\<close>

record db =
  db_users :: "user list"
  db_access :: "user_marina_access list"
  db_backup_codes :: "backup_code list"
  db_setup_tokens :: "setup_token list"
  db_auth_audit :: "auth_audit list"
  db_cabinets :: "cabinet list"
  db_capabilities :: "capability list"
  db_outlets :: "outlet list"
  db_berths :: "berth list"
  db_berth_outlets :: "berth_outlet list"
  db_berth_outlets_cabinet :: "berth_outlet_cabinet list"
  db_mapping :: "mapping_comparison list"
  db_nfc_tags :: "nfc_tag list"
  db_sessions :: "erp_session list"
  db_intervals :: "interval list"
  db_monthly :: "monthly list"
  db_meter_states :: "meter_state list"
  db_runs :: "reconciliation_run list"
  db_command_audit :: "command_audit list"
  db_customers :: "customer list"
  db_ledger :: "ledger_row list"
  db_cache :: "pedestal_cache list"
  db_alarm_log :: "alarm_log list"
  db_session_log :: "session_log list"
  db_sync_log :: "sync_log list"
  db_security_alarms :: "security_alarm list"
  db_service_windows :: "service_window list"
  db_decoy_hits :: "decoy_hit list"
  db_rule_settings :: "rule_setting list"
  db_audit_log :: "audit_log list"
  db_agent_passes :: "agent_pass list"
  db_reservations :: "berth_reservation list"
  db_marinas :: "marina list"
  db_vessels :: "vessel list"
  db_berth_vessels :: "berth_vessel list"
  db_vessel_photos :: "vessel_photo list"
  db_admin_imports :: "admin_import list"

definition empty_db :: db where
  "empty_db = \<lparr>db_users = [], db_access = [], db_backup_codes = [], db_setup_tokens = [],
     db_auth_audit = [], db_cabinets = [], db_capabilities = [], db_outlets = [], db_berths = [],
     db_berth_outlets = [], db_berth_outlets_cabinet = [], db_mapping = [], db_nfc_tags = [],
     db_sessions = [], db_intervals = [], db_monthly = [], db_meter_states = [], db_runs = [],
     db_command_audit = [], db_customers = [], db_ledger = [], db_cache = [], db_alarm_log = [],
     db_session_log = [], db_sync_log = [], db_security_alarms = [], db_service_windows = [],
     db_decoy_hits = [], db_rule_settings = [], db_audit_log = [], db_agent_passes = [],
     db_reservations = [], db_marinas = [], db_vessels = [], db_berth_vessels = [],
     db_vessel_photos = [], db_admin_imports = []\<rparr>"

section \<open>Rows that must stay apart\<close>

text \<open>
  A table with CHECK and UNIQUE constraints, as the operations of a component use it: \<open>ok\<close> is
  the row's CHECKs, \<open>apart\<close> says that two rows may be in the table together. An insert, a
  delete and an update of a row that respect them keep the table valid.
\<close>

definition table_valid :: "('r \<Rightarrow> bool) \<Rightarrow> ('r \<Rightarrow> 'r \<Rightarrow> bool) \<Rightarrow> 'r list \<Rightarrow> bool" where
  "table_valid ok apart rs \<longleftrightarrow> list_all ok rs \<and> sorted_wrt apart rs"

locale constrained_table =
  fixes ok :: "'r \<Rightarrow> bool" and apart :: "'r \<Rightarrow> 'r \<Rightarrow> bool"
  assumes apart_sym: "apart a b \<Longrightarrow> apart b a"
begin

lemma valid_append:
  "table_valid ok apart (rs @ [r]) \<longleftrightarrow>
     table_valid ok apart rs \<and> ok r \<and> (\<forall>r' \<in> set rs. apart r' r)"
  by (auto simp: table_valid_def sorted_wrt_append)

lemma valid_filter: "table_valid ok apart rs \<Longrightarrow> table_valid ok apart (filter P rs)"
  by (simp add: table_valid_def sorted_wrt_filter list_all_iff)

lemma valid_update_where:
  assumes "table_valid ok apart rs"
    and "\<And>r. r \<in> set rs \<Longrightarrow> P r \<Longrightarrow> ok (f r)"
    and "\<And>a b. a \<in> set rs \<Longrightarrow> b \<in> set rs \<Longrightarrow> apart a b \<Longrightarrow>
           apart (if P a then f a else a) (if P b then f b else b)"
  shows "table_valid ok apart (update_where P f rs)"
proof -
  have "list_all ok (update_where P f rs)"
    using assms(1,2) by (auto simp: table_valid_def list_all_iff set_update_where)
  moreover have "sorted_wrt apart (update_where P f rs)"
    unfolding update_where_def sorted_wrt_map
    by (rule sorted_wrt_mono_rel[of rs apart]) (use assms(1,3) in \<open>simp_all add: table_valid_def\<close>)
  ultimately show ?thesis by (simp add: table_valid_def)
qed

lemma valid_member: "table_valid ok apart rs \<Longrightarrow> r \<in> set rs \<Longrightarrow> ok r"
  by (simp add: table_valid_def list_all_iff)

end

interpretation sessions_t: constrained_table session_checks session_apart
  by unfold_locales (auto simp: session_apart_def)

interpretation berth_outlets_t: constrained_table berth_outlet_checks berth_outlet_apart
  by unfold_locales (auto simp: berth_outlet_apart_def)

end
