(* ===== verification/Session_Sync.thy ===== *)
theory Session_Sync
  imports Schema
begin

text \<open>
  \<open>services/session_sync.py\<close>: one cabinet session payload written onto one ERP session, for the
  webhook and for the pull reconciler alike. The lemmas say which session a payload may
  touch, that billed sessions are left alone, that only the pull can mark a session
  reconciled, that a review is never lifted, that the row's CHECK constraints are kept, and
  that delivering a payload twice is delivering it once.

  \<open>Decimal\<close>'s limit of 28 digits (a reading above 10^22) is not modelled.
\<close>

text \<open>Exceptions that are not \<open>PayloadError\<close> leave \<open>apply\<close> and abort the caller's transaction.\<close>

datatype sync_error = Crash

definition RECOMPUTE_FINDINGS :: "string list" where
  "RECOMPUTE_FINDINGS = [''recompute_mismatch'', ''recompute_impossible'']"

definition dec :: "rat option \<Rightarrow> nat \<Rightarrow> rat option" where
  "dec v places = map_option (\<lambda>x. quantize places (float_repr x)) v"

text \<open>\<open>timedelta(minutes=x)\<close>: whole minutes exactly, the fraction in float, microseconds half-even.\<close>

definition timedelta_minutes :: "rat \<Rightarrow> tdelta" where
  "timedelta_minutes x =
     (let i = (if x < 0 then - \<lfloor>- x\<rfloor> else \<lfloor>x\<rfloor>); f = x - of_int i
      in round_half_even (of_int (i * 60000000) + fl (f * 60000000)))"

definition by_erp_ref :: "erp_session list \<Rightarrow> parsed_session \<Rightarrow> erp_session option" where
  "by_erp_ref q ps =
     (if jtrue (ps_erp_ref ps) then find (\<lambda>s. ps_erp_ref ps = JStr (ses_erp_ref s)) q else None)"

definition by_cabinet_id :: "erp_session list \<Rightarrow> parsed_session \<Rightarrow> erp_session option" where
  "by_cabinet_id q ps = find (\<lambda>s. ses_cabinet_session_id s = Some (ps_cabinet_session_id ps)) q"

text \<open>The join on customer and outlet: a session still waiting for the cabinet's id, newest first.\<close>

definition waiting_on_outlet :: "db \<Rightarrow> erp_session list \<Rightarrow> parsed_session \<Rightarrow> erp_session option" where
  "waiting_on_outlet d q ps =
     (if jtrue (ps_customer_id ps) \<and> truthy (ps_outlet_name ps)
      then find (\<lambda>s. list_ex (\<lambda>c. ses_customer_id s = Some (cus_id c)
                             \<and> map_option JStr (cus_external_ref c) = Some (ps_customer_id ps)) (db_customers d)
                   \<and> list_ex (\<lambda>o1. ses_outlet_id s = out_id o1
                             \<and> Some (out_outlet_name o1) = ps_outlet_name ps) (db_outlets d)
                   \<and> ses_cabinet_session_id s = None
                   \<and> ses_status s \<in> {''reserved'', ''active''}) (rev q)
      else None)"

definition find_session :: "db \<Rightarrow> cabinet \<Rightarrow> parsed_session \<Rightarrow> erp_session option" where
  "find_session d cab ps =
     (let q = filter (\<lambda>s. ses_cabinet_id s = cab_id cab) (db_sessions d) in
      case by_erp_ref q ps of
        Some s \<Rightarrow> Some s
      | None \<Rightarrow> (case by_cabinet_id q ps of Some s \<Rightarrow> Some s | None \<Rightarrow> waiting_on_outlet d q ps))"

text \<open>\<open>parse_utc\<close> of a payload value: falsy is \<open>None\<close>, anything but a string has no \<open>replace\<close>.\<close>

definition parse_utc_json :: "json \<Rightarrow> sync_error + dtime option" where
  "parse_utc_json v =
     (if \<not> jtrue v then Inr None
      else case v of
        JStr s \<Rightarrow> (case parse_utc (Some s) of Inl _ \<Rightarrow> Inl Crash | Inr t \<Rightarrow> Inr t)
      | _ \<Rightarrow> Inl Crash)"

definition outlet_row :: "db \<Rightarrow> nat \<Rightarrow> outlet option" where
  "outlet_row d i = find (\<lambda>o1. out_id o1 = i) (db_outlets d)"

text \<open>\<open>review\<close>, and the error when the session's outlet row is missing.\<close>

definition review_of :: "db \<Rightarrow> parsed_session \<Rightarrow> erp_session \<Rightarrow> sync_error + bool" where
  "review_of d ps s =
     (let typed = (ps_session_type ps \<noteq> ses_session_type s) in
      if truthy (ps_outlet_name ps)
      then (case outlet_row d (ses_outlet_id s) of
              None \<Rightarrow> Inl Crash
            | Some o1 \<Rightarrow> Inr (ps_manual_review ps \<or> Some (out_outlet_name o1) \<noteq> ps_outlet_name ps \<or> typed))
      else Inr (ps_manual_review ps \<or> typed))"

definition known_source :: "json \<Rightarrow> string option" where
  "known_source v = (case v of
     JStr s \<Rightarrow> if s \<in> set CONSUMPTION_SOURCES then Some s else None
   | _ \<Rightarrow> None)"

definition write_medium :: "parsed_session \<Rightarrow> erp_session \<Rightarrow> erp_session" where
  "write_medium ps s =
     (if ps_session_type ps = ''electricity''
      then s\<lparr>ses_energy_kwh := dec (ps_consumption ps) 4,
             ses_meter_e_start := dec (ps_meter_start ps) 4, ses_meter_e_end := dec (ps_meter_end ps) 4\<rparr>
      else s\<lparr>ses_water_liters := dec (ps_consumption ps) 3,
             ses_meter_w_start := dec (ps_meter_start ps) 3, ses_meter_w_end := dec (ps_meter_end ps) 3\<rparr>)"

definition write_session ::
    "parsed_session \<Rightarrow> bool \<Rightarrow> dtime option \<Rightarrow> bool \<Rightarrow> dtime \<Rightarrow> erp_session \<Rightarrow> erp_session" where
  "write_session ps review0 activated final_by_pull now s0 =
     (let ended = (ps_status ps = JStr ''ended'');
          review = (review0 \<or> (known_source (ps_consumption_source ps) = None
                               \<and> ps_consumption_source ps \<noteq> JNull));
          s1 = s0\<lparr>ses_cabinet_session_id := Some (ps_cabinet_session_id ps),
                  ses_status := (if ended then ''ended'' else ''active''),
                  ses_activated_at := activated,
                  ses_duration_min := dec (ps_duration_minutes ps) 2,
                  ses_ended_at :=
                    (case (activated, ps_duration_minutes ps) of
                       (Some a, Some m) \<Rightarrow> if ended then Some (a + timedelta_minutes m) else ses_ended_at s0
                     | _ \<Rightarrow> ses_ended_at s0)\<rparr>;
          s2 = write_medium ps s1
      in s2\<lparr>ses_consumption_source := known_source (ps_consumption_source ps),
            ses_recompute_ok :=
              (if ps_consumption ps = None then None
               else Some (\<not> list_ex (\<lambda>f. fnd_code f \<in> set RECOMPUTE_FINDINGS) (ps_findings ps))),
            ses_billing_state := (if review then ''manual_review'' else ses_billing_state s0),
            ses_reconciled_at := (if final_by_pull \<and> ended then Some now else ses_reconciled_at s0)\<rparr>)"

definition other_cabinet :: "cabinet \<Rightarrow> parsed_session \<Rightarrow> bool" where
  "other_cabinet cab ps \<longleftrightarrow> jtrue (ps_cabinet_display_id ps) \<and> ps_cabinet_display_id ps \<noteq> JStr (cab_display_id cab)"

definition apply_parsed ::
    "db \<Rightarrow> cabinet \<Rightarrow> parsed_session \<Rightarrow> bool \<Rightarrow> dtime \<Rightarrow> sync_error + string \<times> db" where
  "apply_parsed d cab ps final_by_pull now =
     (if other_cabinet cab ps then Inr (''unknown'', d)
      else case find_session d cab ps of
        None \<Rightarrow> Inr (''unknown'', d)
      | Some s \<Rightarrow>
          if ses_billing_state s = ''billed'' then Inr (''billed'', d)
          else sbind (review_of d ps s) (\<lambda>review.
               sbind (parse_utc_json (ps_activated_at ps)) (\<lambda>activated.
               Inr (''updated'',
                    d\<lparr>db_sessions := update_where (\<lambda>r. ses_id r = ses_id s)
                        (write_session ps review activated final_by_pull now) (db_sessions d)\<rparr>))))"

definition apply_session ::
    "db \<Rightarrow> cabinet \<Rightarrow> json \<Rightarrow> bool \<Rightarrow> dtime \<Rightarrow> sync_error + string \<times> db" where
  "apply_session d cab raw final_by_pull now =
     (case parse_session raw of
        Inl e \<Rightarrow> if is_PayloadError e then Inr (''invalid'', d) else Inl Crash
      | Inr ps \<Rightarrow> apply_parsed d cab ps final_by_pull now)"

section \<open>What is written, and what is not\<close>

lemma write_medium_keeps [simp]:
  "ses_id (write_medium ps s) = ses_id s" "ses_erp_ref (write_medium ps s) = ses_erp_ref s"
  "ses_cabinet_id (write_medium ps s) = ses_cabinet_id s"
  "ses_cabinet_session_id (write_medium ps s) = ses_cabinet_session_id s"
  "ses_outlet_id (write_medium ps s) = ses_outlet_id s"
  "ses_customer_id (write_medium ps s) = ses_customer_id s"
  "ses_session_type (write_medium ps s) = ses_session_type s"
  "ses_status (write_medium ps s) = ses_status s"
  "ses_activated_at (write_medium ps s) = ses_activated_at s"
  "ses_ended_at (write_medium ps s) = ses_ended_at s"
  "ses_duration_min (write_medium ps s) = ses_duration_min s"
  "ses_created_at (write_medium ps s) = ses_created_at s"
  "ses_ack_sent_at (write_medium ps s) = ses_ack_sent_at s"
  by (simp_all add: write_medium_def)

lemma write_medium_fields:
  "ses_energy_kwh (write_medium ps s) =
     (if ps_session_type ps = ''electricity'' then dec (ps_consumption ps) 4 else ses_energy_kwh s)"
  "ses_meter_e_start (write_medium ps s) =
     (if ps_session_type ps = ''electricity'' then dec (ps_meter_start ps) 4 else ses_meter_e_start s)"
  "ses_meter_e_end (write_medium ps s) =
     (if ps_session_type ps = ''electricity'' then dec (ps_meter_end ps) 4 else ses_meter_e_end s)"
  "ses_water_liters (write_medium ps s) =
     (if ps_session_type ps = ''electricity'' then ses_water_liters s else dec (ps_consumption ps) 3)"
  "ses_meter_w_start (write_medium ps s) =
     (if ps_session_type ps = ''electricity'' then ses_meter_w_start s else dec (ps_meter_start ps) 3)"
  "ses_meter_w_end (write_medium ps s) =
     (if ps_session_type ps = ''electricity'' then ses_meter_w_end s else dec (ps_meter_end ps) 3)"
  by (simp_all add: write_medium_def)

lemma write_session_keeps [simp]:
  "ses_id (write_session ps r a f n s) = ses_id s"
  "ses_erp_ref (write_session ps r a f n s) = ses_erp_ref s"
  "ses_cabinet_id (write_session ps r a f n s) = ses_cabinet_id s"
  "ses_outlet_id (write_session ps r a f n s) = ses_outlet_id s"
  "ses_customer_id (write_session ps r a f n s) = ses_customer_id s"
  "ses_session_type (write_session ps r a f n s) = ses_session_type s"
  "ses_created_at (write_session ps r a f n s) = ses_created_at s"
  "ses_ack_sent_at (write_session ps r a f n s) = ses_ack_sent_at s"
  "ses_cabinet_session_id (write_session ps r a f n s) = Some (ps_cabinet_session_id ps)"
  by (simp_all add: write_session_def Let_def)

definition review_due :: "parsed_session \<Rightarrow> bool \<Rightarrow> bool" where
  "review_due ps r \<longleftrightarrow> r \<or> (known_source (ps_consumption_source ps) = None \<and> ps_consumption_source ps \<noteq> JNull)"

lemma write_session_fields:
  "ses_status (write_session ps r a f n s) = (if ps_status ps = JStr ''ended'' then ''ended'' else ''active'')"
  "ses_activated_at (write_session ps r a f n s) = a"
  "ses_duration_min (write_session ps r a f n s) = dec (ps_duration_minutes ps) 2"
  "ses_ended_at (write_session ps r a f n s) =
     (case (a, ps_duration_minutes ps) of
        (Some t, Some m) \<Rightarrow> if ps_status ps = JStr ''ended'' then Some (t + timedelta_minutes m) else ses_ended_at s
      | _ \<Rightarrow> ses_ended_at s)"
  "ses_consumption_source (write_session ps r a f n s) = known_source (ps_consumption_source ps)"
  "ses_recompute_ok (write_session ps r a f n s) =
     (if ps_consumption ps = None then None
      else Some (\<not> list_ex (\<lambda>f. fnd_code f \<in> set RECOMPUTE_FINDINGS) (ps_findings ps)))"
  "ses_billing_state (write_session ps r a f n s) =
     (if review_due ps r then ''manual_review'' else ses_billing_state s)"
  "ses_reconciled_at (write_session ps r a f n s) =
     (if f \<and> ps_status ps = JStr ''ended'' then Some n else ses_reconciled_at s)"
  by (simp_all add: write_session_def Let_def review_due_def)

lemma write_session_medium:
  "ses_energy_kwh (write_session ps r a f n s) = ses_energy_kwh (write_medium ps s)"
  "ses_meter_e_start (write_session ps r a f n s) = ses_meter_e_start (write_medium ps s)"
  "ses_meter_e_end (write_session ps r a f n s) = ses_meter_e_end (write_medium ps s)"
  "ses_water_liters (write_session ps r a f n s) = ses_water_liters (write_medium ps s)"
  "ses_meter_w_start (write_session ps r a f n s) = ses_meter_w_start (write_medium ps s)"
  "ses_meter_w_end (write_session ps r a f n s) = ses_meter_w_end (write_medium ps s)"
  by (simp_all add: write_session_def write_medium_fields Let_def)

lemma write_session_states:
  "ses_billing_state (write_session ps r a f n s) \<in> {ses_billing_state s, ''manual_review''}"
  "ses_reconciled_at (write_session ps r a f n s) =
     (if f \<and> ps_status ps = JStr ''ended'' then Some n else ses_reconciled_at s)"
  "ses_status (write_session ps r a f n s) = (if ps_status ps = JStr ''ended'' then ''ended'' else ''active'')"
  by (simp_all add: write_session_fields)

text \<open>Writing over an earlier delivery of the same payload is writing once.\<close>

lemma write_session_twice:
  assumes "f1 \<longrightarrow> f2"
  shows "write_session ps r a f2 n2 (write_session ps r a f1 n1 s) = write_session ps r a f2 n2 s"
  using assms
  by (intro erp_session.equality)
     (auto simp: write_session_fields write_session_medium write_medium_fields split: option.splits)

lemma find_session_member:
  "find_session d cab ps = Some s \<Longrightarrow> s \<in> set (db_sessions d) \<and> ses_cabinet_id s = cab_id cab"
  by (auto simp: find_session_def by_erp_ref_def by_cabinet_id_def waiting_on_outlet_def Let_def
      dest!: find_Some_D split: option.splits if_splits)

lemma apply_parsed_cases:
  assumes "apply_parsed d cab ps f now = Inr (answer, d')"
  shows "(d' = d \<and> answer \<in> {''unknown'', ''billed''}) \<or>
    (\<exists>s review activated. find_session d cab ps = Some s \<and> ses_billing_state s \<noteq> ''billed''
       \<and> review_of d ps s = Inr review \<and> parse_utc_json (ps_activated_at ps) = Inr activated
       \<and> answer = ''updated''
       \<and> d' = d\<lparr>db_sessions := update_where (\<lambda>r. ses_id r = ses_id s)
               (write_session ps review activated f now) (db_sessions d)\<rparr>
       \<and> \<not> other_cabinet cab ps)"
proof (cases "other_cabinet cab ps \<or> find_session d cab ps = None")
  case True
  with assms have "d' = d" "answer = ''unknown''" unfolding apply_parsed_def by (auto split: if_splits)
  then show ?thesis by simp
next
  case own: False
  then obtain s where s: "find_session d cab ps = Some s" by blast
  show ?thesis
  proof (cases "ses_billing_state s = ''billed''")
    case True
    with own s assms show ?thesis unfolding apply_parsed_def by simp
  next
    case False
    with own s assms obtain review activated where "review_of d ps s = Inr review"
      "parse_utc_json (ps_activated_at ps) = Inr activated" "answer = ''updated''"
      "d' = d\<lparr>db_sessions := update_where (\<lambda>r. ses_id r = ses_id s)
             (write_session ps review activated f now) (db_sessions d)\<rparr>"
      unfolding apply_parsed_def by (auto simp: sbind_Inr)
    with own s False show ?thesis by (intro disjI2 exI[of _ s] exI[of _ review] exI[of _ activated] conjI) simp_all
  qed
qed

lemma apply_cases:
  assumes "apply_session d cab raw f now = Inr (answer, d')"
  obtains (left) "d' = d" "answer \<in> {''unknown'', ''billed'', ''invalid''}"
  | (updated) ps s review activated where "parse_session raw = Inr ps" "find_session d cab ps = Some s"
      "ses_billing_state s \<noteq> ''billed''" "review_of d ps s = Inr review"
      "parse_utc_json (ps_activated_at ps) = Inr activated" "answer = ''updated''"
      "d' = d\<lparr>db_sessions := update_where (\<lambda>r. ses_id r = ses_id s)
               (write_session ps review activated f now) (db_sessions d)\<rparr>"
      "\<not> other_cabinet cab ps"
proof (cases "parse_session raw")
  case (Inl e)
  with assms have "d' = d" "answer = ''invalid''" by (simp_all add: apply_session_def split: if_splits)
  with left show ?thesis by simp
next
  case (Inr ps)
  with assms have "apply_parsed d cab ps f now = Inr (answer, d')" by (simp add: apply_session_def)
  from apply_parsed_cases[OF this] show ?thesis
  proof (elim disjE exE conjE)
    assume "d' = d" "answer \<in> {''unknown'', ''billed''}"
    then show ?thesis by (intro left) auto
  qed (rule updated[OF Inr])
qed

lemma apply_answers:
  "apply_session d cab raw f now = Inr (answer, d') \<Longrightarrow> answer \<noteq> ''updated'' \<Longrightarrow> d' = d"
  by (erule apply_cases) auto

text \<open>
  C10. Money that has been billed is final, and only a person clears a review. Whatever payload
  arrives over whichever path: a session that is billed is left exactly as it is; no
  session becomes billed; a session in manual review stays there; and a session is marked
  reconciled only by the pull and only when it has ended.
\<close>

theorem sync_never_touches_money:
  assumes "apply_session d cab raw final now = Inr (answer, d')"
    and "i < length (db_sessions d)"
  shows "let s = db_sessions d ! i; s' = db_sessions d' ! i in
     length (db_sessions d') = length (db_sessions d)
   \<and> (distinct (map ses_id (db_sessions d)) \<and> ses_billing_state s = ''billed'' \<longrightarrow> s' = s)
   \<and> (ses_billing_state s' = ''billed'' \<longrightarrow> ses_billing_state s = ''billed'')
   \<and> (ses_billing_state s = ''manual_review'' \<longrightarrow> ses_billing_state s' = ''manual_review'')
   \<and> (ses_reconciled_at s' \<noteq> ses_reconciled_at s \<longrightarrow>
        final \<and> ses_reconciled_at s' = Some now \<and> ses_status s' = ''ended'')"
  using assms(1)
proof (cases rule: apply_cases)
  case left
  then show ?thesis by (simp add: Let_def)
next
  case (updated ps s review activated)
  let ?s = "db_sessions d ! i"
  have s: "s \<in> set (db_sessions d)" using find_session_member[OF updated(2)] by simp
  have row: "db_sessions d' ! i = (if ses_id ?s = ses_id s then
      write_session ps review activated final now ?s else ?s)"
    using updated(7) assms(2) by (simp add: update_where_def)
  have "distinct (map ses_id (db_sessions d)) \<Longrightarrow> ses_id ?s = ses_id s \<Longrightarrow> ?s = s"
    using s assms(2) by (auto simp: distinct_map dest: inj_onD)
  with row updated(3) write_session_states[of ps review activated final now ?s] updated(7)
  show ?thesis by (auto simp: Let_def split: if_splits)
qed

text \<open>
  C11. A payload can only reach a session of the cabinet that sent it, and it changes at most
  that one row: the session's identity (its reference, cabinet, outlet, customer and medium,
  its creation and its acknowledgement) is never rewritten, every other row and every other
  table stays as it was, and the row's CHECK constraints hold afterwards if they held before.
\<close>

theorem sync_touches_one_session:
  assumes "apply_session d cab raw final now = Inr (answer, d')"
    and "list_all session_checks (db_sessions d)" and "distinct (map ses_id (db_sessions d))"
  shows "d' = d\<lparr>db_sessions := db_sessions d'\<rparr> \<and> list_all session_checks (db_sessions d')
   \<and> (\<exists>j. \<forall>i < length (db_sessions d). let s = db_sessions d ! i; s' = db_sessions d' ! i in
        (i \<noteq> j \<or> ses_cabinet_id s \<noteq> cab_id cab \<longrightarrow> s' = s)
      \<and> (ses_id s', ses_erp_ref s', ses_cabinet_id s', ses_outlet_id s', ses_customer_id s',
           ses_session_type s', ses_created_at s', ses_ack_sent_at s') =
        (ses_id s, ses_erp_ref s, ses_cabinet_id s, ses_outlet_id s, ses_customer_id s,
           ses_session_type s, ses_created_at s, ses_ack_sent_at s))"
  using assms(1)
proof (cases rule: apply_cases)
  case left
  with assms(2) show ?thesis by (auto simp: Let_def)
next
  case (updated ps s review activated)
  let ?w = "write_session ps review activated final now"
  have s: "s \<in> set (db_sessions d)" "ses_cabinet_id s = cab_id cab"
    using find_session_member[OF updated(2)] by auto
  obtain j where j: "j < length (db_sessions d)" "db_sessions d ! j = s"
    using s by (auto simp: in_set_conv_nth)
  have src: "known_source v = None \<or> known_source v \<in> Some ` set CONSUMPTION_SOURCES" for v
    by (simp add: known_source_def split: json.splits)
  have ck: "session_checks (?w s)"
  proof -
    have "session_checks s" using assms(2) s by (simp add: list_all_iff)
    then show ?thesis using updated(3) write_session_states[of ps review activated final now s] src
      by (auto simp: session_checks_def write_session_def write_medium_def Let_def)
  qed
  have same: "r = s" if "r \<in> set (db_sessions d)" "ses_id r = ses_id s" for r
    using that s assms(3) by (auto simp: distinct_map dest: inj_onD)
  have checks: "list_all session_checks (db_sessions d')"
  proof -
    have "session_checks (if ses_id r = ses_id s then ?w r else r)" if "r \<in> set (db_sessions d)" for r
      using that assms(2) ck same[OF that] by (auto simp: list_all_iff)
    then show ?thesis by (auto simp: updated(7) list_all_iff set_update_where simp del: if_split_asm)
  qed
  have row: "db_sessions d' ! i = (if i = j then ?w s else db_sessions d ! i)"
    if "i < length (db_sessions d)" for i
    using that updated(7) j assms(3) same[of "db_sessions d ! i"]
    by (auto simp: update_where_def distinct_conv_nth)
  have "d' = d\<lparr>db_sessions := db_sessions d'\<rparr>" using updated(7) by simp
  with checks row j s show ?thesis by (auto simp: Let_def intro!: exI[of _ j])
qed

section \<open>Delivering a payload twice\<close>

lemma find_session_again:
  assumes "find_session d cab ps = Some s" and "distinct (map ses_id (db_sessions d))"
  shows "find_session (d\<lparr>db_sessions := update_where (\<lambda>r. ses_id r = ses_id s)
           (write_session ps rv a f n) (db_sessions d)\<rparr>) cab ps = Some (write_session ps rv a f n s)"
proof -
  let ?w = "write_session ps rv a f n"
  let ?g = "\<lambda>r. if ses_id r = ses_id s then ?w r else r"
  let ?q = "filter (\<lambda>s. ses_cabinet_id s = cab_id cab) (db_sessions d)"
  have s: "s \<in> set ?q" using find_session_member[OF assms(1)] by simp
  have same: "r = s" if "r \<in> set ?q" "ses_id r = ses_id s" for r
    using that s assms(2) by (auto simp: distinct_map dest: inj_onD)
  have q: "filter (\<lambda>s. ses_cabinet_id s = cab_id cab)
      (update_where (\<lambda>r. ses_id r = ses_id s) ?w (db_sessions d)) = map ?g ?q"
    by (rule filter_update_where) simp
  have ref: "by_erp_ref (map ?g ?q) ps = map_option ?g (by_erp_ref ?q ps)"
    unfolding by_erp_ref_def by (simp add: find_map_update)
  have hit: "by_cabinet_id (map ?g ?q) ps = Some (?g s)" if "by_cabinet_id ?q ps = Some s"
  proof -
    have "ses_cabinet_session_id s = Some (ps_cabinet_session_id ps)"
      using find_Some_D[OF that[unfolded by_cabinet_id_def]] by simp
    then have "by_cabinet_id (map ?g ?q) ps = map_option ?g (by_cabinet_id ?q ps)"
      unfolding by_cabinet_id_def using same by (intro find_map_update_set) auto
    with that show ?thesis by simp
  qed
  have new: "by_cabinet_id (map ?g ?q) ps = Some (?g s)" if none: "by_cabinet_id ?q ps = None"
  proof -
    have "ses_cabinet_session_id x \<noteq> Some (ps_cabinet_session_id ps)" if "x \<in> set ?q" for x
      by (rule find_None_D[OF none[unfolded by_cabinet_id_def] that])
    then show ?thesis unfolding by_cabinet_id_def using same by (intro find_only[OF s]) auto
  qed
  have lookup: "find_session d' cab ps = (case by_erp_ref (map ?g ?q) ps of Some s \<Rightarrow> Some s
      | None \<Rightarrow> (case by_cabinet_id (map ?g ?q) ps of Some s \<Rightarrow> Some s
          | None \<Rightarrow> waiting_on_outlet d' (map ?g ?q) ps))"
    if "db_sessions d' = update_where (\<lambda>r. ses_id r = ses_id s) ?w (db_sessions d)" for d'
    unfolding find_session_def that q Let_def ..
  show ?thesis
  proof (cases "by_erp_ref ?q ps")
    case (Some r)
    with assms(1) have "r = s" by (simp add: find_session_def)
    with Some ref show ?thesis by (simp add: lookup)
  next
    case None
    then have "by_cabinet_id (map ?g ?q) ps = Some (?g s)"
      using assms(1) hit new by (cases "by_cabinet_id ?q ps") (auto simp: find_session_def)
    with None ref show ?thesis by (simp add: lookup)
  qed
qed

text \<open>
  C12. Webhook and pull may both deliver the same session, and either may repeat: after a payload
  has been applied, applying it again over a path at least as final answers and leaves
  exactly what that delivery alone would have. In particular a repeated delivery changes
  nothing, and a webhook before the pull leaves no trace in the pull's result.
\<close>

theorem sync_delivered_twice:
  assumes "apply_session d cab raw f1 n1 = Inr (answer, d')"
    and "f1 \<longrightarrow> f2" and "distinct (map ses_id (db_sessions d))"
  shows "apply_session d' cab raw f2 n2 = apply_session d cab raw f2 n2"
  using assms(1)
proof (cases rule: apply_cases)
  case (updated ps s review activated)
  let ?w = "write_session ps review activated f1 n1"
  have again: "find_session d' cab ps = Some (?w s)"
    unfolding updated(7) by (rule find_session_again[OF updated(2) assms(3)])
  have "review_of d' ps (?w s) = review_of d ps s"
    by (simp add: updated(7) review_of_def outlet_row_def Let_def cong: if_cong)
  moreover have "ses_billing_state (?w s) \<noteq> ''billed''"
    using write_session_states(1)[of ps review activated f1 n1 s] updated(3) by auto
  moreover have "update_where (\<lambda>r. ses_id r = ses_id s) (write_session ps review activated f2 n2)
      (update_where (\<lambda>r. ses_id r = ses_id s) ?w (db_sessions d))
    = update_where (\<lambda>r. ses_id r = ses_id s) (write_session ps review activated f2 n2) (db_sessions d)"
    using assms(2) by (simp add: update_where_def write_session_twice)
  ultimately show ?thesis
    using updated again by (simp add: apply_session_def apply_parsed_def)
qed simp

section \<open>A concrete delivery\<close>

definition sample_cabinet :: cabinet where
  "sample_cabinet = \<lparr>cab_id = 1, cab_marina_id = 1, cab_pedestal_pk = 1, cab_display_id = ''KRK-1'',
     cab_device_type = ''full'', cab_base_url = ''https://krk'', cab_service_email = ''e'',
     cab_service_pw_enc = ''x'', cab_erp_api_key_enc = None, cab_dock = None, cab_webhook_key_enc = None,
     cab_webhook_hmac = False, cab_webhook_secret_enc = None, cab_smart_mode = None,
     cab_last_heartbeat_at = None, cab_last_polled_at = None, cab_is_simulated = False\<rparr>"

definition sample_erp_session :: erp_session where
  "sample_erp_session = \<lparr>ses_id = 1, ses_erp_ref = ''r1'', ses_cabinet_id = 1,
     ses_cabinet_session_id = None, ses_outlet_id = 2, ses_customer_id = Some 7,
     ses_session_type = ''electricity'', ses_status = ''reserved'', ses_activated_at = None,
     ses_ended_at = None, ses_duration_min = None, ses_energy_kwh = None, ses_water_liters = None,
     ses_meter_e_start = None, ses_meter_e_end = None, ses_meter_w_start = None, ses_meter_w_end = None,
     ses_consumption_source = None, ses_recompute_ok = None, ses_billing_state = ''pending'',
     ses_created_at = 0, ses_reconciled_at = None, ses_ack_sent_at = None\<rparr>"

definition sample_db :: db where
  "sample_db = empty_db\<lparr>db_cabinets := [sample_cabinet], db_sessions := [sample_erp_session],
     db_outlets := [\<lparr>out_id = 2, out_cabinet_id = 1, out_outlet_name = ''Q2'', out_medium = ''electricity'',
       out_phases = None, out_rated_amps = None, out_rated_lpm = None\<rparr>],
     db_customers := [\<lparr>cus_id = 7, cus_marina_id = 1, cus_external_ref = Some ''C-7'', cus_full_name = ''N'',
       cus_email = None, cus_is_demo = False, cus_created_at = 0\<rparr>]\<rparr>"

definition sample_payload :: json where
  "sample_payload = JObj
    [(''session_id'', JInt 41), (''cabinet_id'', JStr ''KRK-1''), (''socket_id'', JStr ''Q2''),
     (''session_type'', JStr ''electricity''), (''customer_id'', JStr ''C-7''), (''status'', JStr ''ended''),
     (''activated_at'', JNull), (''duration_minutes'', JNull), (''energy_kwh'', JNull),
     (''water_liters'', JNull), (''meter_energy_start_kwh'', JNull), (''meter_energy_end_kwh'', JNull),
     (''meter_water_start_l'', JNull), (''meter_water_end_l'', JNull),
     (''consumption_source'', JStr ''register''), (''power_kw_current'', JNull)]"

lemma sample_applied:
  "\<exists>d'. apply_session sample_db sample_cabinet sample_payload True 5 = Inr (''updated'', d')"
proof -
  have "case apply_session sample_db sample_cabinet sample_payload True 5 of
      Inr (a, d') \<Rightarrow> a = ''updated'' | Inl _ \<Rightarrow> False" by code_simp
  then show ?thesis by (auto split: sum.splits)
qed

lemma sample_db_ok:
  "list_all session_checks (db_sessions sample_db)" "distinct (map ses_id (db_sessions sample_db))"
  "length (db_sessions sample_db) = 1"
proof -
  have "session_checks sample_erp_session" by (simp add: sample_erp_session_def session_checks_def)
  then show "list_all session_checks (db_sessions sample_db)" by (simp add: sample_db_def)
qed (simp_all add: sample_db_def)

theorem sync_never_touches_money_witness:
  "\<exists>d'. apply_session sample_db sample_cabinet sample_payload True 5 = Inr (''updated'', d')
     \<and> ses_billing_state (db_sessions d' ! 0) \<noteq> ''billed''"
proof -
  obtain d' where d': "apply_session sample_db sample_cabinet sample_payload True 5 = Inr (''updated'', d')"
    using sample_applied by blast
  have "ses_billing_state (db_sessions d' ! 0) = ''billed'' \<longrightarrow> ses_billing_state (db_sessions sample_db ! 0) = ''billed''"
    by (rule sync_never_touches_money[OF d', of 0, unfolded Let_def, THEN conjunct2, THEN conjunct2, THEN conjunct1])
       (simp add: sample_db_ok)
  then have "ses_billing_state (db_sessions d' ! 0) \<noteq> ''billed''"
    by (simp add: sample_db_def sample_erp_session_def)
  with d' show ?thesis by blast
qed

theorem sync_touches_one_session_witness:
  "\<exists>d'. apply_session sample_db sample_cabinet sample_payload True 5 = Inr (''updated'', d')
     \<and> list_all session_checks (db_sessions d')"
proof -
  obtain d' where d': "apply_session sample_db sample_cabinet sample_payload True 5 = Inr (''updated'', d')"
    using sample_applied by blast
  with sync_touches_one_session[OF d' sample_db_ok(1,2)] show ?thesis by blast
qed

theorem sync_delivered_twice_witness:
  "\<exists>d'. apply_session sample_db sample_cabinet sample_payload True 5 = Inr (''updated'', d')
     \<and> apply_session d' sample_cabinet sample_payload True 5 = Inr (''updated'', d')"
proof -
  obtain d' where d': "apply_session sample_db sample_cabinet sample_payload True 5 = Inr (''updated'', d')"
    using sample_applied by blast
  have "apply_session d' sample_cabinet sample_payload True 5 = apply_session sample_db sample_cabinet sample_payload True 5"
    by (rule sync_delivered_twice[OF d' _ sample_db_ok(2)]) simp
  with d' show ?thesis by simp
qed

end
