(* ===== verification/Outcomes.thy ===== *)
theory Outcomes
  imports Py_Values
begin

text \<open>
  \<open>cabinet/outcomes.py\<close>: every way a cabinet call can end, as one code with one sentence, and
  the two functions that read the cabinet's own refusal texts. The lemmas say that each
  known text has its code and that every code they answer has a sentence.
\<close>

definition SENTENCES :: "(string \<times> string) list" where
  "SENTENCES =
    [(''ok'', ''''),
     (''cabinet_auth_failed'', ''The cabinet does not accept our sign-in.''),
     (''not_enabled'', ''This function is not enabled on the cabinet.''),
     (''standalone'', ''The cabinet is running on its own. Marina staff can control it once it reconnects.''),
     (''awaiting_plug'', ''Plug in the cable to start.''),
     (''outlet_busy'', ''Someone else is using this outlet right now.''),
     (''nfc_mapping_mismatch'',
        ''The tag does not belong to this outlet '' @ [CHR 0xE2, CHR 0x80, CHR 0x94] @
        '' switching on was refused.''),
     (''already_ended'', ''''),
     (''session_state_changed'', ''The session changed in the meantime. Refresh the view.''),
     (''not_found'', ''The cabinet does not know this record.''),
     (''conflict'', ''The cabinet refused the command.''),
     (''erp_bug'', ''Technical error, reported.''),
     (''capability_unavailable'', ''This feature is not available on the cabinet right now.''),
     (''stale'',
        ''The cabinet is not answering '' @ [CHR 0xE2, CHR 0x80, CHR 0x94] @
        '' showing the last known data.''),
     (''no_contact'', ''No connection to this cabinet.'')]"

definition NOT_ERRORS :: "string list" where
  "NOT_ERRORS = [''ok'', ''already_ended'', ''standalone'', ''awaiting_plug'', ''outlet_busy'',
     ''capability_unavailable'', ''not_enabled'', ''stale'']"

text \<open>What a response carries: decoded JSON (\<open>None\<close> is JSON null) or raw bytes.\<close>

datatype payload = Json json | Bytes string

record Outcome =
  oc_code :: string
  oc_endpoint_key :: string
  oc_data :: payload
  oc_http_status :: "int option"
  oc_is_stale :: bool
  oc_synced_at :: "dtime option"
  oc_cabinet_detail :: "string option"

definition outcome :: "string \<Rightarrow> string \<Rightarrow> Outcome" where
  "outcome code key = \<lparr>oc_code = code, oc_endpoint_key = key, oc_data = Json JNull,
     oc_http_status = None, oc_is_stale = False, oc_synced_at = None, oc_cabinet_detail = None\<rparr>"

definition oc_ok :: "Outcome \<Rightarrow> bool" where
  "oc_ok o1 \<longleftrightarrow> oc_code o1 = ''ok''"

text \<open>\<open>SENTENCES[code]\<close>: \<open>None\<close> would be a \<open>KeyError\<close>.\<close>

definition sentence :: "Outcome \<Rightarrow> string option" where
  "sentence o1 = map_of SENTENCES (oc_code o1)"

definition has_data :: "Outcome \<Rightarrow> bool" where
  "has_data o1 \<longleftrightarrow> oc_data o1 \<noteq> Json JNull \<and> oc_code o1 \<in> {''ok'', ''stale''}"

record public_outcome =
  po_code :: string
  po_sentence :: string
  po_endpoint :: string
  po_is_stale :: bool
  po_data_as_of :: "string option"

definition public :: "Outcome \<Rightarrow> public_outcome option" where
  "public o1 = (case sentence o1 of
     None \<Rightarrow> None
   | Some s \<Rightarrow> Some \<lparr>po_code = oc_code o1, po_sentence = s, po_endpoint = oc_endpoint_key o1,
        po_is_stale = oc_is_stale o1,
        po_data_as_of = map_option (\<lambda>t. iso_str t @ ''Z'') (oc_synced_at o1)\<rparr>)"

definition classify_409 :: "string \<Rightarrow> string" where
  "classify_409 d =
     (if starts_with d ''Smart Mode is OFF'' \<or> starts_with d ''This pedestal is running on its own''
        then ''standalone''
      else if d = ''Socket has no plug inserted'' then ''awaiting_plug''
      else if d = ''Session already ended by operator'' then ''already_ended''
      else if contains d ''is already in use'' \<or> contains d ''already has an active session''
              \<or> contains d ''being held for them'' then ''outlet_busy''
      else if starts_with d ''NFC tag '' \<and> contains d '' is mapped to '' then ''nfc_mapping_mismatch''
      else ''conflict'')"

definition classify_400 :: "string \<Rightarrow> string" where
  "classify_400 d =
     (if starts_with d ''Session is '' \<and> contains d '', expected '' then ''session_state_changed''
      else ''erp_bug'')"

definition known_code :: "string \<Rightarrow> bool" where
  "known_code c \<longleftrightarrow> map_of SENTENCES c \<noteq> None"

lemma known_codes [simp]:
  "known_code ''ok''" "known_code ''cabinet_auth_failed''" "known_code ''not_enabled''"
  "known_code ''standalone''" "known_code ''awaiting_plug''" "known_code ''outlet_busy''"
  "known_code ''nfc_mapping_mismatch''" "known_code ''already_ended''"
  "known_code ''session_state_changed''" "known_code ''not_found''" "known_code ''conflict''"
  "known_code ''erp_bug''" "known_code ''capability_unavailable''" "known_code ''stale''"
  "known_code ''no_contact''"
  by code_simp+

lemma classify_known [simp]: "known_code (classify_409 d)" "known_code (classify_400 d)"
  by (simp_all add: classify_409_def classify_400_def)

lemma classify_409_not:
  "classify_409 d \<notin> {''ok'', ''stale'', ''no_contact'', ''cabinet_auth_failed'', ''not_enabled'', ''erp_bug''}"
  "classify_400 d \<notin> {''ok'', ''stale'', ''no_contact'', ''cabinet_auth_failed'', ''not_enabled''}"
  by (simp_all add: classify_409_def classify_400_def)

lemma outcome_sel [simp]:
  "oc_code (outcome c k) = c" "oc_endpoint_key (outcome c k) = k" "oc_data (outcome c k) = Json JNull"
  "oc_is_stale (outcome c k) = False" "oc_synced_at (outcome c k) = None"
  "oc_http_status (outcome c k) = None"
  by (simp_all add: outcome_def)

end
