(* ===== verification/Reconciler.thy ===== *)
theory Reconciler
  imports Session_Sync Outcomes
begin

text \<open>
  \<open>services/reconciler.py\<close>: the pull that the money rests on. One run fetches the sessions that
  ended in a window, page by page, refreshes the open ones, acknowledges billed ones, and
  leaves a row that says how far it got; a cabinet without the range call is asked customer
  by customer. The cabinet is a parameter: a state and the four calls of the client, each of
  which answers an outcome or raises. A raise rolls the database and the run row back to the
  last commit.

  The run's row is written here once, at its end; while it runs, nothing reads it.
\<close>

section \<open>The cabinet as the reconciler sees it\<close>

record 'w nfc_cabinet =
  nc_has_channel_b :: bool
  nc_range :: "dtime \<Rightarrow> dtime \<Rightarrow> nat \<Rightarrow> nat \<Rightarrow> 'w \<Rightarrow> (sync_error + Outcome) \<times> 'w"
  nc_session :: "int \<Rightarrow> 'w \<Rightarrow> (sync_error + Outcome) \<times> 'w"
  nc_by_user :: "string \<Rightarrow> nat \<Rightarrow> 'w \<Rightarrow> (sync_error + Outcome) \<times> 'w"
  nc_ack :: "int list \<Rightarrow> 'w \<Rightarrow> (sync_error + Outcome) \<times> 'w"

definition OVERLAP :: tdelta where "OVERLAP = minutes 10"
definition FIRST_LOOKBACK :: tdelta where "FIRST_LOOKBACK = days 2"
definition NIGHTLY_LOOKBACK :: tdelta where "NIGHTLY_LOOKBACK = days 30"
definition PAGE :: nat where "PAGE = 100"

definition is_missing_route :: "Outcome \<Rightarrow> bool" where
  "is_missing_route o1 \<longleftrightarrow> oc_code o1 = ''not_found'' \<and> oc_cabinet_detail o1 = Some ''Not Found''"

text \<open>\<open>f"{code}: {detail or ''}"\<close>, cut to 2000 characters.\<close>

definition error_text :: "string \<Rightarrow> Outcome \<Rightarrow> string" where
  "error_text what o1 = cut 2000 (oc_code o1 @ what @ '': '' @ or_else (oc_cabinet_detail o1) [])"

text \<open>\<open>(out.data or {}).get(k)\<close>: a false value is the empty object, anything else without \<open>get\<close> raises.\<close>

definition data_get :: "Outcome \<Rightarrow> string \<Rightarrow> sync_error + json" where
  "data_get o1 k = (case oc_data o1 of
     Json v \<Rightarrow> if \<not> jtrue v then Inr JNull
              else (case v of JObj ob \<Rightarrow> Inr (jget ob k) | _ \<Rightarrow> Inl Crash)
   | Bytes b \<Rightarrow> if b = [] then Inr JNull else Inl Crash)"

text \<open>\<open>v or []\<close>, iterated: an object yields its keys, a text its characters, a number raises.\<close>

definition iter_json :: "json \<Rightarrow> sync_error + json list" where
  "iter_json v = (if \<not> jtrue v then Inr []
     else case v of
       JList l \<Rightarrow> Inr l
     | JObj ob \<Rightarrow> Inr (map (\<lambda>(k, _). JStr k) ob)
     | JStr s \<Rightarrow> Inr (map (\<lambda>c. JStr [c]) s)
     | _ \<Rightarrow> Inl Crash)"

definition sessions_of :: "Outcome \<Rightarrow> sync_error + json list" where
  "sessions_of o1 = sbind (data_get o1 ''sessions'') iter_json"

text \<open>\<open>total is not None and offset >= total\<close>.\<close>

definition reached_total :: "json \<Rightarrow> nat \<Rightarrow> sync_error + bool" where
  "reached_total t offset = (case t of
     JNull \<Rightarrow> Inr False
   | JInt n \<Rightarrow> Inr (int offset \<ge> n)
   | JFloat x \<Rightarrow> Inr (of_nat offset \<ge> x)
   | JBool b \<Rightarrow> Inr (offset \<ge> (if b then 1 else 0))
   | _ \<Rightarrow> Inl Crash)"

section \<open>Applying what was fetched\<close>

definition count_result :: "string \<Rightarrow> reconciliation_run \<Rightarrow> reconciliation_run" where
  "count_result r run =
     (let run1 = run\<lparr>run_sessions_seen := run_sessions_seen run + 1\<rparr>
      in if r = ''updated'' then run1\<lparr>run_sessions_updated := run_sessions_updated run + 1\<rparr>
         else if r = ''unknown'' then run1\<lparr>run_sessions_unknown := run_sessions_unknown run + 1\<rparr>
         else run1)"

fun apply_rows ::
    "cabinet \<Rightarrow> dtime \<Rightarrow> json list \<Rightarrow> db \<times> reconciliation_run \<Rightarrow> sync_error + db \<times> reconciliation_run" where
  "apply_rows cab now [] s = Inr s"
| "apply_rows cab now (raw # rs) (d, run) =
     sbind (apply_session d cab raw True now)
       (\<lambda>(r, d'). apply_rows cab now rs (d', count_result r run))"

text \<open>
  How a step of the run ends: it goes on with the current state, it returns with the run not
  ok, the range route is missing, or it raised, with what had been committed.
\<close>

datatype 'w step_end =
    Finished db reconciliation_run 'w
  | Stopped db reconciliation_run 'w
  | Fallback db reconciliation_run reconciliation_run 'w
  | Raised db reconciliation_run 'w

definition last_good_window_to :: "db \<Rightarrow> cabinet \<Rightarrow> dtime option" where
  "last_good_window_to d cab =
     (case find (\<lambda>r. run_cabinet_id r = cab_id cab \<and> run_ok r \<and> run_mode r = ''range'') (rev (db_runs d)) of
        None \<Rightarrow> None | Some r \<Rightarrow> run_window_to r)"

text \<open>One page: the request, the fallback, the error, or the rows and whether it was the last.
  \<open>rc\<close> is the run row as last committed.\<close>

datatype 'w page_end = Page db reconciliation_run 'w nat bool | Leave "'w step_end"

definition range_page ::
    "'w nfc_cabinet \<Rightarrow> cabinet \<Rightarrow> dtime \<Rightarrow> dtime \<Rightarrow> nat \<Rightarrow> db \<Rightarrow> reconciliation_run \<Rightarrow> reconciliation_run
     \<Rightarrow> 'w \<Rightarrow> 'w page_end" where
  "range_page nc cab frm now offset d rc run w =
     (case nc_range nc frm now PAGE offset w of
        (Inl _, w') \<Rightarrow> Leave (Raised d rc w')
      | (Inr out, w') \<Rightarrow>
          if is_missing_route out then Leave (Fallback d rc run w')
          else if \<not> oc_ok out then Leave (Stopped d (run\<lparr>run_error := Some (error_text [] out)\<rparr>) w')
          else (case sbind (sessions_of out) (\<lambda>rows. sbind (apply_rows cab now rows (d, run))
                       (\<lambda>(d', run'). Inr (rows, d', run'))) of
                  Inl _ \<Rightarrow> Leave (Raised d rc w')
                | Inr (rows, d', run') \<Rightarrow>
                    (case sbind (data_get out ''total'') (\<lambda>t.
                            if rows = [] then Inr True else reached_total t (offset + length rows)) of
                       Inl _ \<Rightarrow> Leave (Raised d' run' w')
                     | Inr stop \<Rightarrow> Page d' run' w' (length rows) stop)))"

text \<open>The loop over pages; a cabinet that never stops sending pages keeps it running.\<close>

partial_function (option) range_loop ::
    "'w nfc_cabinet \<Rightarrow> cabinet \<Rightarrow> dtime \<Rightarrow> dtime \<Rightarrow> nat \<Rightarrow> db \<Rightarrow> reconciliation_run \<Rightarrow> reconciliation_run
     \<Rightarrow> 'w \<Rightarrow> 'w step_end option" where
  "range_loop nc cab frm now offset d rc run w =
     (case range_page nc cab frm now offset d rc run w of
        Leave e \<Rightarrow> Some e
      | Page d' run' w' n stop \<Rightarrow>
          if stop then Some (Finished d' run' w')
          else range_loop nc cab frm now (offset + n) d' run' run' w')"

declare range_loop.simps [code]

section \<open>Open sessions, acknowledgement, fallback\<close>

definition current_row :: "db \<Rightarrow> nat \<Rightarrow> erp_session option" where
  "current_row d i = find (\<lambda>s. ses_id s = i) (db_sessions d)"

text \<open>\<open>out.ok and isinstance(out.data, dict)\<close>, and the object then.\<close>

definition session_object :: "Outcome \<Rightarrow> json option" where
  "session_object o1 = (if oc_ok o1
     then (case oc_data o1 of Json (JObj ob) \<Rightarrow> Some (JObj ob) | _ \<Rightarrow> None) else None)"

fun refresh_rows ::
    "'w nfc_cabinet \<Rightarrow> cabinet \<Rightarrow> dtime \<Rightarrow> nat list \<Rightarrow> db \<times> reconciliation_run \<times> 'w
     \<Rightarrow> (sync_error \<times> 'w) + db \<times> reconciliation_run \<times> 'w" where
  "refresh_rows nc cab now [] s = Inr s"
| "refresh_rows nc cab now (i # is) (d, run, w) =
     (case Option.bind (current_row d i) ses_cabinet_session_id of
        None \<Rightarrow> refresh_rows nc cab now is (d, run, w)
      | Some sid \<Rightarrow>
          (case nc_session nc sid w of
             (Inl e, w') \<Rightarrow> Inl (e, w')
           | (Inr out, w') \<Rightarrow>
               (case session_object out of
                  None \<Rightarrow> refresh_rows nc cab now is (d, run, w')
                | Some ob \<Rightarrow>
                    (case apply_session d cab ob True now of
                       Inl e \<Rightarrow> Inl (e, w')
                     | Inr (r, d') \<Rightarrow> refresh_rows nc cab now is (d', count_result r run, w')))))"

definition open_ids :: "db \<Rightarrow> cabinet \<Rightarrow> nat list" where
  "open_ids d cab = map ses_id (filter (\<lambda>s. ses_cabinet_id s = cab_id cab \<and> ses_status s = ''active''
     \<and> ses_cabinet_session_id s \<noteq> None) (db_sessions d))"

definition refresh_active ::
    "'w nfc_cabinet \<Rightarrow> cabinet \<Rightarrow> dtime \<Rightarrow> db \<Rightarrow> reconciliation_run \<Rightarrow> 'w \<Rightarrow> 'w step_end" where
  "refresh_active nc cab now d run w =
     (case refresh_rows nc cab now (open_ids d cab) (d, run, w) of
        Inl (_, w') \<Rightarrow> Raised d run w'
      | Inr (d', run', w') \<Rightarrow> Finished d' run' w')"

definition to_ack :: "cabinet \<Rightarrow> erp_session \<Rightarrow> bool" where
  "to_ack cab s \<longleftrightarrow> ses_cabinet_id s = cab_id cab \<and> ses_billing_state s = ''billed''
     \<and> ses_ack_sent_at s = None \<and> ses_cabinet_session_id s \<noteq> None"

definition ack_sessions ::
    "'w nfc_cabinet \<Rightarrow> cabinet \<Rightarrow> dtime \<Rightarrow> db \<Rightarrow> reconciliation_run \<Rightarrow> 'w \<Rightarrow> 'w step_end" where
  "ack_sessions nc cab now d run w =
     (let rows = filter (to_ack cab) (db_sessions d) in
      if rows = [] then Finished d run w
      else (case nc_ack nc (map (\<lambda>s. or_else (ses_cabinet_session_id s) 0) rows) w of
              (Inl _, w') \<Rightarrow> Raised d run w'
            | (Inr out, w') \<Rightarrow>
                if is_missing_route out \<or> \<not> oc_ok out then Finished d run w'
                else Finished (d\<lparr>db_sessions := update_where (to_ack cab) (\<lambda>s. s\<lparr>ses_ack_sent_at := Some now\<rparr>)
                                   (db_sessions d)\<rparr>)
                       (run\<lparr>run_sessions_acked := length rows\<rparr>) w'))"

definition user_refs :: "db \<Rightarrow> cabinet \<Rightarrow> dtime \<Rightarrow> bool \<Rightarrow> string list" where
  "user_refs d cab now nightly =
     (let wanted = (\<lambda>s. ses_cabinet_id s = cab_id cab \<and>
            (if nightly then now - NIGHTLY_LOOKBACK \<le> ses_created_at s
             else ses_status s \<in> {''reserved'', ''active''} \<or> ses_reconciled_at s = None));
          refs = List.map_filter (\<lambda>c. if list_ex (\<lambda>s. ses_customer_id s = Some (cus_id c)) (filter wanted (db_sessions d))
                                  then cus_external_ref c else None) (db_customers d)
      in sort (remdups refs))"

fun by_user_loop ::
    "'w nfc_cabinet \<Rightarrow> cabinet \<Rightarrow> dtime \<Rightarrow> string list \<Rightarrow> db \<Rightarrow> reconciliation_run \<Rightarrow> reconciliation_run
     \<Rightarrow> 'w \<Rightarrow> 'w step_end" where
  "by_user_loop nc cab now [] d rc run w = Finished d (run\<lparr>run_ok := True\<rparr>) w"
| "by_user_loop nc cab now (ref # refs) d rc run w =
     (case nc_by_user nc ref PAGE w of
        (Inl _, w') \<Rightarrow> Raised d rc w'
      | (Inr out, w') \<Rightarrow>
          if \<not> oc_ok out
          then Stopped d (run\<lparr>run_error := Some (error_text ('' for user '' @ ref) out)\<rparr>) w'
          else (case sbind (sessions_of out) (\<lambda>rows. apply_rows cab now rows (d, run)) of
                  Inl _ \<Rightarrow> Raised d rc w'
                | Inr (d', run') \<Rightarrow> by_user_loop nc cab now refs d' run' run' w'))"

section \<open>A run\<close>

definition window_from :: "db \<Rightarrow> cabinet \<Rightarrow> dtime \<Rightarrow> bool \<Rightarrow> dtime" where
  "window_from d cab now nightly =
     (if nightly then now - NIGHTLY_LOOKBACK
      else (case last_good_window_to d cab of
              Some last_to \<Rightarrow> last_to - OVERLAP
            | None \<Rightarrow> now - FIRST_LOOKBACK))"

definition after_pages ::
    "'w nfc_cabinet \<Rightarrow> cabinet \<Rightarrow> dtime \<Rightarrow> 'w step_end \<Rightarrow> 'w step_end" where
  "after_pages nc cab now e =
     (case e of
        Finished d run w \<Rightarrow>
          (case refresh_active nc cab now d run w of
             Finished d1 run1 w1 \<Rightarrow>
               (case ack_sessions nc cab now d1 run1 w1 of
                  Finished d2 run2 w2 \<Rightarrow> Finished d2 (run2\<lparr>run_ok := True\<rparr>) w2
                | e2 \<Rightarrow> e2)
           | e1 \<Rightarrow> e1)
      | e0 \<Rightarrow> e0)"

definition run_range ::
    "'w nfc_cabinet \<Rightarrow> cabinet \<Rightarrow> dtime \<Rightarrow> bool \<Rightarrow> db \<Rightarrow> reconciliation_run \<Rightarrow> 'w \<Rightarrow> 'w step_end option" where
  "run_range nc cab now nightly d run0 w =
     (let frm = window_from d cab now nightly;
          run = run0\<lparr>run_window_from := Some frm, run_window_to := Some now\<rparr>
      in case range_loop nc cab frm now 0 d run0 run w of
           None \<Rightarrow> None
         | Some (Fallback d1 rc run1 w1) \<Rightarrow>
             Some (by_user_loop nc cab now (user_refs d1 cab now nightly) d1 rc
                (run1\<lparr>run_mode := ''by_user'', run_window_from := None, run_window_to := None\<rparr>) w1)
         | Some e \<Rightarrow> Some (after_pages nc cab now e))"

definition new_run :: "db \<Rightarrow> cabinet \<Rightarrow> dtime \<Rightarrow> reconciliation_run" where
  "new_run d cab now = \<lparr>run_id = next_id run_id (db_runs d), run_cabinet_id = cab_id cab,
     run_mode = ''range'', run_started_at = now, run_finished_at = None, run_window_from = None,
     run_window_to = None, run_ok = False, run_sessions_seen = 0, run_sessions_updated = 0,
     run_sessions_unknown = 0, run_sessions_acked = 0, run_error = None\<rparr>"

definition finish_run :: "dtime \<Rightarrow> 'w step_end \<Rightarrow> reconciliation_run \<times> db \<times> 'w" where
  "finish_run now e =
     (case (case e of
              Finished d run w \<Rightarrow> (d, run, w)
            | Stopped d run w \<Rightarrow> (d, run, w)
            | Fallback d rc run w \<Rightarrow> (d, run, w)
            | Raised d run w \<Rightarrow> (d, run\<lparr>run_ok := False, run_error := Some ''exception''\<rparr>, w)) of
        (d, run, w) \<Rightarrow>
          (let r = run\<lparr>run_finished_at := Some now\<rparr> in (r, d\<lparr>db_runs := db_runs d @ [r]\<rparr>, w)))"

definition reconcile ::
    "'w nfc_cabinet \<Rightarrow> db \<Rightarrow> cabinet \<Rightarrow> dtime \<Rightarrow> bool \<Rightarrow> 'w \<Rightarrow> (reconciliation_run \<times> db \<times> 'w) option" where
  "reconcile nc d cab now nightly w =
     (let run0 = new_run d cab now in
      if \<not> nc_has_channel_b nc
      then Some (finish_run now (Stopped d
             (run0\<lparr>run_error := Some ''no X-API-Key configured for this cabinet (channel B)''\<rparr>) w))
      else map_option (finish_run now) (run_range nc cab now nightly d run0 w))"

section \<open>What every run keeps\<close>

primrec end_db :: "'w step_end \<Rightarrow> db" where
  "end_db (Finished d' _ _) = d'"
| "end_db (Stopped d' _ _) = d'"
| "end_db (Fallback d' _ _ _) = d'"
| "end_db (Raised d' _ _) = d'"

text \<open>
  A relation between the database before and after that holds for one applied payload and for
  writing acknowledgements holds for a whole run, whatever the cabinet answers and wherever
  the run stops.
\<close>

locale run_keeps =
  fixes R :: "db \<Rightarrow> db \<Rightarrow> bool"
  assumes refl: "R d d"
    and trans: "R d d1 \<Longrightarrow> R d1 d2 \<Longrightarrow> R d d2"
    and applied: "apply_session d cab raw True now = Inr (r, d') \<Longrightarrow> R d d'"
    and acked: "R d (d\<lparr>db_sessions := update_where (to_ack cab) (\<lambda>s. s\<lparr>ses_ack_sent_at := Some now\<rparr>) (db_sessions d)\<rparr>)"
begin

lemma rows: "apply_rows cab now rs (d, run) = Inr (d', run') \<Longrightarrow> R d d'"
proof (induction rs arbitrary: d run)
  case Nil
  then show ?case by (simp add: refl)
next
  case (Cons raw rs)
  then obtain r d1 where "apply_session d cab raw True now = Inr (r, d1)"
    "apply_rows cab now rs (d1, count_result r run) = Inr (d', run')"
    by (auto simp: sbind_Inr)
  with Cons.IH applied trans show ?case by blast
qed

lemma end_trans: "R d d1 \<Longrightarrow> R d1 (end_db e) \<Longrightarrow> R d (end_db e)"
  by (rule trans)

lemma page:
  "case range_page nc cab frm now offset d rc run w of
     Leave e \<Rightarrow> R d (end_db e) | Page d' run' w' n stop \<Rightarrow> R d d'"
  by (auto simp: range_page_def refl sbind_def dest!: rows
      split: prod.splits sum.splits if_splits page_end.splits)

lemma loop:
  fixes w :: 'x
  assumes "range_loop nc cab frm now offset d rc run w = Some e"
  shows "R d (end_db e)"
proof (rule range_loop.raw_induct[where P = "\<lambda>(nc :: 'x nfc_cabinet) (cab :: cabinet) (frm :: dtime)
      (now :: dtime) (offset :: nat) (d :: db) (rc :: reconciliation_run) (run :: reconciliation_run)
      (w :: 'x) e. R d (end_db e)", OF _ assms], goal_cases)
  case (1 f nc cab frm now offset d rc run w e)
  note p = page[where nc = nc and cab = cab and frm = frm and now = now and offset = offset and d = d
      and rc = rc and run = run and w = w]
  show ?case
  proof (cases "range_page nc cab frm now offset d rc run w")
    case (Page d' run' w' n stop)
    with p have k: "R d d'" by simp
    show ?thesis
    proof (cases stop)
      case True
      with 1(2) Page k show ?thesis by auto
    next
      case False
      with 1(2) Page have "f nc cab frm now (offset + n) d' run' run' w' = Some e" by simp
      from 1(1)[OF this] k show ?thesis by (blast intro: end_trans)
    qed
  next
    case (Leave e')
    with p 1(2) show ?thesis by simp
  qed
qed

lemma refresh: "refresh_rows nc cab now is (d, run, w) = Inr (d', run', w') \<Longrightarrow> R d d'"
proof (induction "is" arbitrary: d run w)
  case Nil
  then show ?case by (simp add: refl)
next
  case (Cons i "is")
  note ih = Cons.IH and step = Cons.prems[unfolded refresh_rows.simps]
  show ?case
  proof (cases "Option.bind (current_row d i) ses_cabinet_session_id")
    case None
    with step show ?thesis by (auto intro: ih)
  next
    case (Some sid)
    with step obtain out w1 where q: "nc_session nc sid w = (Inr out, w1)"
      by (auto split: prod.splits sum.splits)
    show ?thesis
    proof (cases "session_object out")
      case None
      with step Some q show ?thesis by (auto intro: ih)
    next
      case (Some ob)
      with step q \<open>_ = Some sid\<close> obtain r d1 where a: "apply_session d cab ob True now = Inr (r, d1)"
        by (auto split: sum.splits prod.splits)
      from step \<open>_ = Some sid\<close> q Some a have "refresh_rows nc cab now is (d1, count_result r run, w1) = Inr (d', run', w')"
        by simp
      from ih[OF this] show ?thesis by (rule trans[OF applied[OF a]])
    qed
  qed
qed

lemma refresh_end: "R d (end_db (refresh_active nc cab now d run w))"
  by (auto simp: refresh_active_def refl dest: refresh split: sum.splits prod.splits)

lemma ack_end: "R d (end_db (ack_sessions nc cab now d run w))"
  by (auto simp: ack_sessions_def Let_def refl acked split: sum.splits prod.splits if_splits)

lemma after_end:
  assumes "R d (end_db e)"
  shows "R d (end_db (after_pages nc cab now e))"
proof (cases e)
  case (Finished d1 run1 w1)
  have r: "R d (end_db (refresh_active nc cab now d1 run1 w1))"
    using assms Finished by (auto intro: end_trans[OF _ refresh_end])
  show ?thesis
  proof (cases "refresh_active nc cab now d1 run1 w1")
    case (Finished d2 run2 w2)
    with r have "R d (end_db (ack_sessions nc cab now d2 run2 w2))"
      by (auto intro: end_trans[OF _ ack_end])
    then show ?thesis using \<open>e = Finished d1 run1 w1\<close> Finished
      by (cases "ack_sessions nc cab now d2 run2 w2") (auto simp: after_pages_def)
  qed (use r Finished in \<open>simp_all add: after_pages_def\<close>)
qed (use assms in \<open>simp_all add: after_pages_def\<close>)

lemma users: "R d (end_db (by_user_loop nc cab now refs d rc run w))"
proof (induction refs arbitrary: d rc run w)
  case Nil
  then show ?case by (simp add: refl)
next
  case (Cons ref refs)
  have go: "R d (end_db (by_user_loop nc cab now refs d' run' run' w'))"
    if s: "sbind (sessions_of out) (\<lambda>rs. apply_rows cab now rs (d, run)) = Inr (d', run')" for out d' run' w'
  proof -
    from s have "R d d'" using rows by (auto simp: sbind_Inr)
    then show ?thesis by (rule end_trans) (rule Cons.IH)
  qed
  show ?case
  proof (cases "nc_by_user nc ref PAGE w")
    case (Pair res w')
    show ?thesis
    proof (cases res)
      case (Inr out)
      with Pair go[of out] show ?thesis by (simp add: refl split: sum.splits prod.splits)
    qed (use Pair in \<open>simp add: refl\<close>)
  qed
qed

lemma run_range_end:
  assumes r: "run_range nc cab now nightly d run0 w = Some e"
  shows "R d (end_db e)"
proof -
  let ?run = "run0\<lparr>run_window_from := Some (window_from d cab now nightly), run_window_to := Some now\<rparr>"
  obtain e0 where e0: "range_loop nc cab (window_from d cab now nightly) now 0 d run0 ?run w = Some e0"
    using r by (auto simp: run_range_def Let_def split: option.splits)
  note k = loop[OF e0]
  show ?thesis
  proof (cases e0)
    case (Fallback d1 rc run1 w1)
    with k have "R d d1" by simp
    from r e0 Fallback have e: "e = by_user_loop nc cab now (user_refs d1 cab now nightly) d1 rc
        (run1\<lparr>run_mode := ''by_user'', run_window_from := None, run_window_to := None\<rparr>) w1"
      by (simp add: run_range_def Let_def)
    show ?thesis unfolding e by (rule end_trans[OF \<open>R d d1\<close> users])
  qed (use r e0 after_end[OF k, of nc cab now] in \<open>simp_all add: run_range_def Let_def\<close>)
qed

lemma whole_run:
  assumes "reconcile nc d cab now nightly w = Some (r, d', w')"
  shows "\<exists>d1. R d d1 \<and> d' = d1\<lparr>db_runs := db_runs d1 @ [r]\<rparr>"
proof (cases "nc_has_channel_b nc")
  case True
  with assms obtain e where e: "run_range nc cab now nightly d (new_run d cab now) w = Some e"
    "(r, d', w') = finish_run now e"
    by (auto simp: reconcile_def Let_def)
  from run_range_end[OF e(1)] e(2) show ?thesis
    by (cases e) (auto simp: finish_run_def Let_def intro!: exI[of _ "end_db e"])
next
  case False
  with assms show ?thesis by (auto simp: reconcile_def finish_run_def Let_def intro: refl)
qed

end

definition only_sessions :: "db \<Rightarrow> db \<Rightarrow> bool" where
  "only_sessions d d' \<longleftrightarrow> d'\<lparr>db_sessions := []\<rparr> = d\<lparr>db_sessions := []\<rparr>"

interpretation frame: run_keeps only_sessions
proof (unfold_locales, goal_cases)
  case (3 d cab raw now r d')
  then show ?case by (elim apply_cases) (simp_all add: only_sessions_def)
qed (auto simp: only_sessions_def)

text \<open>What a run may do to the money side of one session.\<close>

definition money_kept :: "erp_session \<Rightarrow> erp_session \<Rightarrow> bool" where
  "money_kept s s' \<longleftrightarrow> ses_id s' = ses_id s
   \<and> (ses_billing_state s = ''billed'' \<longrightarrow> s'\<lparr>ses_ack_sent_at := None\<rparr> = s\<lparr>ses_ack_sent_at := None\<rparr>)
   \<and> (ses_billing_state s' = ''billed'' \<longrightarrow> ses_billing_state s = ''billed'')
   \<and> (ses_billing_state s = ''manual_review'' \<longrightarrow> ses_billing_state s' = ''manual_review'')
   \<and> (ses_ack_sent_at s' \<noteq> ses_ack_sent_at s \<longrightarrow> ses_billing_state s = ''billed'')"

definition money_safe :: "db \<Rightarrow> db \<Rightarrow> bool" where
  "money_safe d d' \<longleftrightarrow> distinct (map ses_id (db_sessions d)) \<longrightarrow>
     distinct (map ses_id (db_sessions d')) \<and> list_all2 money_kept (db_sessions d) (db_sessions d')"

lemma money_kept_refl: "money_kept s s"
  by (simp add: money_kept_def)

lemma money_kept_trans:
  assumes "money_kept s s1" and "money_kept s1 s2"
  shows "money_kept s s2"
proof -
  have "ses_billing_state s1 = ''billed''" if "ses_billing_state s = ''billed''"
  proof -
    have "s1\<lparr>ses_ack_sent_at := None\<rparr> = s\<lparr>ses_ack_sent_at := None\<rparr>" using assms(1) that by (simp add: money_kept_def)
    from arg_cong[OF this, of ses_billing_state] that show ?thesis by simp
  qed
  with assms show ?thesis unfolding money_kept_def by metis
qed

lemma money_ids: "list_all2 money_kept xs ys \<Longrightarrow> map ses_id ys = map ses_id xs"
  by (induction rule: list_all2_induct) (auto simp: money_kept_def)

lemma money_safe_refl: "money_safe d d"
  by (simp add: money_safe_def list_all2_same money_kept_refl)

lemma money_safe_trans: "money_safe d d1 \<Longrightarrow> money_safe d1 d2 \<Longrightarrow> money_safe d d2"
  unfolding money_safe_def using list_all2_trans[of money_kept money_kept money_kept] money_kept_trans by blast

lemma money_safe_apply:
  assumes "apply_session d cab raw True now = Inr (r, d')"
  shows "money_safe d d'"
  using assms
proof (cases rule: apply_cases)
  case left
  then show ?thesis by (simp add: money_safe_refl)
next
  case (updated ps s review activated)
  let ?w = "write_session ps review activated True now"
  have s: "s \<in> set (db_sessions d)" using find_session_member[OF updated(2)] by simp
  show ?thesis
    unfolding money_safe_def
  proof
    assume dist: "distinct (map ses_id (db_sessions d))"
    have kept: "money_kept x (if ses_id x = ses_id s then ?w x else x)" if "x \<in> set (db_sessions d)" for x
    proof (cases "ses_id x = ses_id s")
      case True
      then have "x = s" using that s dist by (auto simp: distinct_map dest: inj_onD)
      then show ?thesis using updated(3) write_session_states(1)[of ps review activated True now s]
        by (auto simp: money_kept_def)
    qed (simp add: money_kept_refl)
    have "list_all2 money_kept (db_sessions d) (db_sessions d')"
      using kept by (simp add: updated(7) update_where_def list_all2_map2 list_all2_same)
    with dist money_ids[OF this] show "distinct (map ses_id (db_sessions d')) \<and> list_all2 money_kept (db_sessions d) (db_sessions d')"
      by simp
  qed
qed

interpretation money: run_keeps money_safe
proof (unfold_locales, goal_cases)
  case (4 d cab now)
  have "list_all2 money_kept (db_sessions d) (update_where (to_ack cab) (\<lambda>s. s\<lparr>ses_ack_sent_at := Some now\<rparr>) (db_sessions d))"
    by (simp add: update_where_def list_all2_map2 list_all2_same money_kept_def to_ack_def)
  from money_ids[OF this] this show ?case by (simp add: money_safe_def)
qed (fact money_safe_refl money_safe_trans money_safe_apply)+

text \<open>
  C18. No reconciliation can touch money, whatever the cabinet answers, on every path of a run
  (range, fallback, refused, interrupted by an exception at any page): a billed session only
  ever gets its acknowledgement time, no session becomes billed, no review is lifted, no
  session that is not billed is acknowledged, and besides the sessions only the run's own row
  is written.
\<close>

theorem reconcile_never_touches_money:
  assumes "reconcile nc d cab now nightly w = Some (r, d', w')"
    and "distinct (map ses_id (db_sessions d))"
  shows "list_all2 money_kept (db_sessions d) (db_sessions d')
     \<and> db_runs d' = db_runs d @ [r] \<and> d'\<lparr>db_sessions := [], db_runs := []\<rparr> = d\<lparr>db_sessions := [], db_runs := []\<rparr>"
proof -
  from money.whole_run[OF assms(1)] obtain d1 where
    m: "money_safe d d1" "d' = d1\<lparr>db_runs := db_runs d1 @ [r]\<rparr>" by blast
  from frame.whole_run[OF assms(1)] obtain d2 where
    f: "only_sessions d d2" "d' = d2\<lparr>db_runs := db_runs d2 @ [r]\<rparr>" by blast
  have eq: "d2\<lparr>db_sessions := []\<rparr> = d\<lparr>db_sessions := []\<rparr>" using f(1) by (simp add: only_sessions_def)
  have runs: "db_runs d2 = db_runs d" using arg_cong[OF eq, of db_runs] by simp
  have ses: "db_sessions d' = db_sessions d1" unfolding m(2) by simp
  have "db_runs d' = db_runs d @ [r]" unfolding f(2) by (simp add: runs)
  moreover have "d'\<lparr>db_sessions := [], db_runs := []\<rparr> = d\<lparr>db_sessions := [], db_runs := []\<rparr>"
    using arg_cong[OF eq, of "\<lambda>e. e\<lparr>db_runs := []\<rparr>"] unfolding f(2) by simp
  moreover have "list_all2 money_kept (db_sessions d) (db_sessions d')"
    using m(1) assms(2) unfolding ses money_safe_def by simp
  ultimately show ?thesis by simp
qed


section \<open>Where the next window starts\<close>

text \<open>What a run says about itself, apart from its counters and its error.\<close>

definition run_header :: "reconciliation_run \<Rightarrow> nat \<times> string \<times> dtime option \<times> dtime option \<times> bool" where
  "run_header r = (run_cabinet_id r, run_mode r, run_window_from r, run_window_to r, run_ok r)"

fun end_header :: "'w step_end \<Rightarrow> (nat \<times> string \<times> dtime option \<times> dtime option \<times> bool) option" where
  "end_header (Finished _ r _) = Some (run_header r)"
| "end_header (Stopped _ r _) = Some (run_header r)"
| "end_header (Fallback _ _ r _) = Some (run_header r)"
| "end_header (Raised _ _ _) = None"

lemma count_result_header [simp]: "run_header (count_result r run) = run_header run"
  by (simp add: run_header_def count_result_def Let_def)

lemma apply_rows_header:
  "apply_rows cab now rs (d, run) = Inr (d', run') \<Longrightarrow> run_header run' = run_header run"
proof (induction rs arbitrary: d run)
  case (Cons raw rs)
  then obtain r d1 where "apply_rows cab now rs (d1, count_result r run) = Inr (d', run')"
    by (auto simp: sbind_Inr)
  from Cons.IH[OF this] show ?case by simp
qed simp

lemma range_page_Page:
  assumes "range_page nc cab frm now offset d rc run w = Page d' run' w' n stop"
  obtains out rows where "nc_range nc frm now PAGE offset w = (Inr out, w')" "oc_ok out"
    "sessions_of out = Inr rows" "apply_rows cab now rows (d, run) = Inr (d', run')" "n = length rows"
    "rows \<noteq> [] \<or> stop"
  using assms by (auto simp: range_page_def sbind_def split: prod.splits sum.splits if_splits)

lemma range_page_header:
  assumes "range_page nc cab frm now offset d rc run w = Page d' run' w' n stop"
  shows "run_header run' = run_header run"
  using assms by (rule range_page_Page) (rule apply_rows_header)

lemma range_leave_header:
  assumes "range_page nc cab frm now offset d rc run w = Leave e"
  shows "end_header e \<in> {None, Some (run_header run)} \<and> (\<forall>d' r' w'. e \<noteq> Finished d' r' w')"
  using assms by (auto simp: range_page_def sbind_def run_header_def
      split: prod.splits sum.splits if_splits)

lemma range_loop_header:
  fixes w :: 'x
  assumes "range_loop nc cab frm now offset d rc run w = Some e"
  shows "end_header e \<in> {None, Some (run_header run)}"
proof (rule range_loop.raw_induct[where P = "\<lambda>(nc :: 'x nfc_cabinet) (cab :: cabinet) (frm :: dtime)
      (now :: dtime) (offset :: nat) (d :: db) (rc :: reconciliation_run) (run :: reconciliation_run)
      (w :: 'x) e. end_header e \<in> {None, Some (run_header run)}", OF _ assms], goal_cases)
  case (1 f nc cab frm now offset d rc run w e)
  show ?case
  proof (cases "range_page nc cab frm now offset d rc run w")
    case (Page d' run' w' n stop)
    note h = range_page_header[OF Page]
    show ?thesis
    proof (cases stop)
      case True
      with 1(2) Page h show ?thesis by auto
    next
      case False
      with 1(2) Page have "f nc cab frm now (offset + n) d' run' run' w' = Some e" by simp
      from 1(1)[OF this] show ?thesis by (simp add: h)
    qed
  next
    case (Leave e')
    with 1(2) range_leave_header[OF Leave] show ?thesis by simp
  qed
qed

lemma refresh_rows_header:
  "refresh_rows nc cab now is (d, run, w) = Inr (d', run', w') \<Longrightarrow> run_header run' = run_header run"
proof (induction "is" arbitrary: d run w)
  case (Cons i "is")
  from Cons.prems obtain d1 r1 w1 where
    "refresh_rows nc cab now is (d1, r1, w1) = Inr (d', run', w')" "run_header r1 = run_header run"
    by (fastforce split: option.splits prod.splits sum.splits)
  with Cons.IH show ?case by simp
qed simp

lemma after_pages_header:
  assumes "end_header e \<in> {None, Some h}" and "h = (c, m, f, t, False)"
  shows "end_header (after_pages nc cab now e) \<in> {None, Some h, Some (c, m, f, t, True)}"
proof (cases e)
  case (Finished d run w)
  with assms have h: "run_header run = (c, m, f, t, False)" by simp
  show ?thesis
  proof (cases "refresh_rows nc cab now (open_ids d cab) (d, run, w)")
    case (Inl x)
    with Finished show ?thesis by (auto simp: after_pages_def refresh_active_def split: prod.splits)
  next
    case (Inr x)
    obtain d1 run1 w1 where x: "x = (d1, run1, w1)" by (cases x)
    with refresh_rows_header Inr h have h1: "run_header run1 = (c, m, f, t, False)" by metis
    show ?thesis using Finished Inr x h1
      by (auto simp: after_pages_def refresh_active_def ack_sessions_def Let_def run_header_def
          split: prod.splits sum.splits)
  qed
qed (use assms in \<open>simp_all add: after_pages_def\<close>)

lemma by_user_mode:
  "end_header (by_user_loop nc cab now refs d rc run w) = Some h \<Longrightarrow> fst (snd h) = run_mode run"
proof (induction refs arbitrary: d rc run w)
  case (Cons ref refs)
  obtain res w' where p: "nc_by_user nc ref PAGE w = (res, w')" by fastforce
  consider e where "res = Inl e" | out where "res = Inr out" "\<not> oc_ok out"
    | out e where "res = Inr out" "oc_ok out" "sbind (sessions_of out) (\<lambda>rows. apply_rows cab now rows (d, run)) = Inl e"
    | out d1 r1 where "res = Inr out" "oc_ok out" "sbind (sessions_of out) (\<lambda>rows. apply_rows cab now rows (d, run)) = Inr (d1, r1)"
    by (metis old.sum.exhaust surj_pair)
  then show ?case
  proof cases
    case 4
    then obtain rs where "apply_rows cab now rs (d, run) = Inr (d1, r1)" by (auto simp: sbind_Inr)
    then have "run_mode r1 = run_mode run" using apply_rows_header by (fastforce simp: run_header_def)
    with Cons p 4 show ?thesis by simp
  qed (use Cons.prems p in \<open>auto simp: run_header_def\<close>)
qed (auto simp: run_header_def)

lemma finish_run_ok:
  "finish_run now e = (r, d', w') \<Longrightarrow> run_ok r \<Longrightarrow> end_header e = Some (run_header r)"
  by (cases e) (auto simp: finish_run_def Let_def run_header_def)

lemma finish_run_finished: "finish_run now e = (r, d', w') \<Longrightarrow> run_finished_at r = Some now"
  by (cases e) (auto simp: finish_run_def Let_def)

lemma reconcile_cases:
  assumes "reconcile nc d cab now nightly w = Some x"
  obtains e where "\<not> nc_has_channel_b nc" "finish_run now e = x" "\<exists>r. e = Stopped d r w \<and> \<not> run_ok r"
  | e where "nc_has_channel_b nc" "finish_run now e = x" "run_range nc cab now nightly d (new_run d cab now) w = Some e"
  using assms by (auto simp: reconcile_def Let_def new_run_def split: if_splits)

text \<open>A run that ends well in range mode read exactly its window.\<close>

lemma good_run_window:
  assumes run: "reconcile nc d cab now nightly w = Some (r, d', w')"
    and good: "run_ok r" "run_mode r = ''range''"
  shows "run_cabinet_id r = cab_id cab \<and> run_window_from r = Some (window_from d cab now nightly)
    \<and> run_window_to r = Some now"
proof -
  let ?frm = "window_from d cab now nightly"
  let ?run = "(new_run d cab now)\<lparr>run_window_from := Some ?frm, run_window_to := Some now\<rparr>"
  from run obtain e where e: "run_range nc cab now nightly d (new_run d cab now) w = Some e"
    "finish_run now e = (r, d', w')"
    by (rule reconcile_cases) (use good finish_run_ok in \<open>fastforce simp: run_header_def\<close>)+
  from e(1) obtain e0 where e0: "range_loop nc cab ?frm now 0 d (new_run d cab now) ?run w = Some e0"
    by (auto simp: run_range_def Let_def split: option.splits)
  have h: "run_header ?run = (cab_id cab, ''range'', Some ?frm, Some now, False)"
    by (simp add: run_header_def new_run_def)
  note h0 = range_loop_header[OF e0, unfolded h]
  show ?thesis
  proof (cases "\<exists>d1 rc r1 w1. e0 = Fallback d1 rc r1 w1")
    case True
    then obtain d1 rc r1 w1 where f: "e0 = Fallback d1 rc r1 w1" by blast
    let ?b = "by_user_loop nc cab now (user_refs d1 cab now nightly) d1 rc
        (r1\<lparr>run_mode := ''by_user'', run_window_from := None, run_window_to := None\<rparr>) w1"
    have "run_range nc cab now nightly d (new_run d cab now) w = Some ?b"
      unfolding run_range_def Let_def e0 f by simp
    with e(1) have "e = ?b" by (rule option.inject[THEN iffD1, OF trans[OF sym]])
    with finish_run_ok[OF e(2) good(1)] have "end_header ?b = Some (run_header r)" by (simp only:)
    from by_user_mode[OF this] good(2) have False by (simp add: run_header_def)
    then show ?thesis ..
  next
    case False
    then have "e = after_pages nc cab now e0"
      using e(1) e0 by (cases e0) (simp_all add: run_range_def Let_def)
    with after_pages_header[OF h0 refl, of nc cab now] finish_run_ok[OF e(2) good(1)]
    have "run_header r \<in> {(cab_id cab, ''range'', Some ?frm, Some now, False), (cab_id cab, ''range'', Some ?frm, Some now, True)}"
      by (simp only: insert_iff empty_iff option.inject option.distinct simp_thms)
    then show ?thesis by (auto simp: run_header_def)
  qed
qed

lemma reconcile_appends_run:
  "reconcile nc d cab now nightly w = Some (r, d', w') \<Longrightarrow> db_runs d' = db_runs d @ [r]"
proof -
  assume "reconcile nc d cab now nightly w = Some (r, d', w')"
  from frame.whole_run[OF this] obtain d2 where
    f: "only_sessions d d2" "d' = d2\<lparr>db_runs := db_runs d2 @ [r]\<rparr>" by blast
  from f(1) have "d2\<lparr>db_sessions := []\<rparr> = d\<lparr>db_sessions := []\<rparr>" by (simp add: only_sessions_def)
  from arg_cong[OF this, of db_runs] f(2) show ?thesis by simp
qed

text \<open>
  C19. The windows of good range runs join up: the next good run of a cabinet starts no later
  than the last one ended, exactly unless it is a nightly run more than 30 days after that
  end. In that one case the 30 days replace the missing window, later runs start from the new
  end, and what ended in between is never asked for again.
\<close>

theorem windows_join_up:
  assumes "reconcile nc d cab now nightly w = Some (r, d', w')"
    and "run_ok r" and "run_mode r = ''range''"
    and "last_good_window_to d cab = Some prev"
  shows "(\<exists>f. run_window_from r = Some f \<and> (f \<le> prev \<longleftrightarrow> \<not> (nightly \<and> prev + NIGHTLY_LOOKBACK < now)))
    \<and> last_good_window_to d' cab = Some now"
proof -
  note g = good_run_window[OF assms(1-3)]
  have "last_good_window_to d' cab = Some now"
    using g assms(2,3) by (simp add: last_good_window_to_def reconcile_appends_run[OF assms(1)])
  with g assms(4) show ?thesis by (auto simp: window_from_def OVERLAP_def tdelta_defs)
qed

section \<open>A run ends\<close>

lemma range_loop_ends:
  assumes dry: "\<And>off w out w'. N \<le> off \<Longrightarrow> nc_range nc frm now PAGE off w = (Inr out, w') \<Longrightarrow> oc_ok out
      \<Longrightarrow> sessions_of out = Inr []"
  shows "\<exists>e. range_loop nc cab frm now offset d rc run w = Some e"
proof (induction "N - offset" arbitrary: offset d rc run w rule: less_induct)
  case less
  show ?case
  proof (cases "range_page nc cab frm now offset d rc run w")
    case (Leave e)
    then show ?thesis by (subst range_loop.simps) simp
  next
    case (Page d' run' w' n stop)
    show ?thesis
    proof (cases stop)
      case True
      with Page show ?thesis by (subst range_loop.simps) simp
    next
      case False
      from Page obtain out rows where p: "nc_range nc frm now PAGE offset w = (Inr out, w')" "oc_ok out"
        "sessions_of out = Inr rows" "n = length rows" "rows \<noteq> [] \<or> stop"
        by (rule range_page_Page)
      with False have "0 < n" by auto
      moreover have "offset < N" using dry[OF _ p(1,2)] p(3,5) False by (cases "N \<le> offset") auto
      ultimately have "N - (offset + n) < N - offset" by linarith
      from less[OF this, of d' run' run' w'] Page False show ?thesis by (subst range_loop.simps) simp
    qed
  qed
qed

text \<open>
  C20. A run ends, with its row written: it is enough that beyond some offset the cabinet has no
  more sessions to give, whatever else it answers or raises. The program itself puts no bound
  on the number of pages.
\<close>

theorem reconcile_returns:
  assumes "\<And>off w out w'. N \<le> off \<Longrightarrow>
      nc_range nc (window_from d cab now nightly) now PAGE off w = (Inr out, w') \<Longrightarrow> oc_ok out \<Longrightarrow> sessions_of out = Inr []"
  shows "\<exists>r d' w'. reconcile nc d cab now nightly w = Some (r, d', w') \<and> db_runs d' = db_runs d @ [r]
    \<and> run_finished_at r = Some now"
proof -
  have "reconcile nc d cab now nightly w \<noteq> None"
  proof (cases "nc_has_channel_b nc")
    case True
    have "\<exists>e. range_loop nc cab (window_from d cab now nightly) now 0 d (new_run d cab now)
        ((new_run d cab now)\<lparr>run_window_from := Some (window_from d cab now nightly), run_window_to := Some now\<rparr>) w = Some e"
      by (rule range_loop_ends) (rule assms)
    then obtain e where e: "range_loop nc cab (window_from d cab now nightly) now 0 d (new_run d cab now)
        ((new_run d cab now)\<lparr>run_window_from := Some (window_from d cab now nightly), run_window_to := Some now\<rparr>) w = Some e" ..
    show ?thesis using True e by (cases e) (simp_all add: reconcile_def run_range_def Let_def)
  qed (simp add: reconcile_def Let_def)
  then obtain r d' w' where r: "reconcile nc d cab now nightly w = Some (r, d', w')" by auto
  then have "run_finished_at r = Some now"
    by (elim reconcile_cases) (auto dest: finish_run_finished)
  with r reconcile_appends_run[OF r] show ?thesis by blast
qed

section \<open>Concrete runs\<close>

definition sample_reply :: "json list \<Rightarrow> Outcome" where
  "sample_reply l = (outcome ''ok'' ''k'')\<lparr>oc_data := Json (JObj [(''sessions'', JList l), (''total'', JInt 1)])\<rparr>"

text \<open>A cabinet with one ended session, and nothing beyond it.\<close>

definition sample_nc :: "unit nfc_cabinet" where
  "sample_nc = \<lparr>nc_has_channel_b = True,
     nc_range = (\<lambda>_ _ _ off w. (Inr (sample_reply (if off = 0 then [sample_payload] else [])), w)),
     nc_session = (\<lambda>_ w. (Inr (outcome ''not_found'' ''k''), w)),
     nc_by_user = (\<lambda>_ _ w. (Inr (outcome ''not_found'' ''k''), w)),
     nc_ack = (\<lambda>_ w. (Inr (outcome ''not_found'' ''k''), w))\<rparr>"

definition sample_good_run :: reconciliation_run where
  "sample_good_run = (new_run empty_db sample_cabinet 0)\<lparr>run_window_to := Some 4, run_ok := True\<rparr>"

definition runs_db :: db where
  "runs_db = sample_db\<lparr>db_runs := [sample_good_run]\<rparr>"

lemma runs_db_ids: "distinct (map ses_id (db_sessions runs_db))"
  using sample_db_ok(2) by (simp add: runs_db_def)

lemma sample_run:
  "\<exists>r d'. reconcile sample_nc runs_db sample_cabinet 5 False () = Some (r, d', ()) \<and> run_ok r
     \<and> run_mode r = ''range'' \<and> run_sessions_updated r = 1 \<and> last_good_window_to runs_db sample_cabinet = Some 4"
proof -
  have "case reconcile sample_nc runs_db sample_cabinet 5 False () of
      Some (r, d', w) \<Rightarrow> run_ok r \<and> run_mode r = ''range'' \<and> run_sessions_updated r = 1 | None \<Rightarrow> False"
    by code_simp
  moreover have "last_good_window_to runs_db sample_cabinet = Some 4" by code_simp
  ultimately show ?thesis by (auto split: option.splits)
qed

theorem reconcile_never_touches_money_witness:
  "\<exists>r d'. reconcile sample_nc runs_db sample_cabinet 5 False () = Some (r, d', ())
     \<and> list_all2 money_kept (db_sessions runs_db) (db_sessions d')"
proof -
  obtain r d' where r: "reconcile sample_nc runs_db sample_cabinet 5 False () = Some (r, d', ())"
    using sample_run by (elim exE conjE)
  from reconcile_never_touches_money[OF r runs_db_ids] r show ?thesis by (intro exI conjI) (rule r, elim conjE)
qed

theorem windows_join_up_witness:
  "\<exists>r d'. reconcile sample_nc runs_db sample_cabinet 5 False () = Some (r, d', ())
     \<and> last_good_window_to d' sample_cabinet = Some 5"
proof -
  obtain r d' where r: "reconcile sample_nc runs_db sample_cabinet 5 False () = Some (r, d', ())"
    "run_ok r" "run_mode r = ''range''" "last_good_window_to runs_db sample_cabinet = Some 4"
    using sample_run by (elim exE conjE)
  from windows_join_up[OF r] show ?thesis by (intro exI conjI) (rule r(1), elim conjE)
qed

theorem reconcile_returns_witness:
  "\<exists>r d' w'. reconcile sample_nc empty_db sample_cabinet 5 True () = Some (r, d', w') \<and> run_finished_at r = Some 5"
proof -
  have "\<exists>r d' w'. reconcile sample_nc empty_db sample_cabinet 5 True () = Some (r, d', w')
      \<and> db_runs d' = db_runs empty_db @ [r] \<and> run_finished_at r = Some 5"
    by (rule reconcile_returns[where N = 1])
       (auto simp: sample_nc_def sample_reply_def sessions_of_def data_get_def iter_json_def jget_def split: if_splits)
  then show ?thesis by blast
qed

end
