(* ===== verification/Cabinet_Client.thy ===== *)
theory Cabinet_Client
  imports Reconciler
begin

text \<open>
  \<open>cabinet/client.py\<close> and the storage it uses (\<open>services/pedestal_api.py\<close>): one call on
  channel A (Bearer token, retries, one re-login, the hour of silence after "not enabled",
  the cache for reads) and one on channel B (API key). The network, the clock, the JWT reader
  and \<open>json.dumps\<close> are an environment over a world; the client's own state is a record and
  the database is optional, as in the code.

  A failing write of the cache or the sync log is swallowed by the code and does not occur in
  the model. The text of a \<open>ContractError\<close> is reduced to its kind. Log lines are left out.
\<close>

section \<open>Requests and the world\<close>

datatype credential = Bearer json | ApiKey string | Anonymous
datatype req_body = NoBody | JsonBody json | RawBody string string

record http_request =
  rq_method :: string
  rq_url :: string
  rq_query :: "(string \<times> string) list"
  rq_body :: req_body
  rq_auth :: credential

text \<open>A response: its status, whether its content type is JSON, its body decoded (\<open>None\<close>: it
  does not parse) and as text and bytes.\<close>

record http_response =
  rs_status :: int
  rs_json_type :: bool
  rs_json :: "json option"
  rs_text :: string
  rs_content :: string

text \<open>A request can also end in a timeout or transport error, which the client handles, or in
  another exception, which it does not.\<close>

datatype http_result = Responded http_response | Lost string | Failed

record 'w cab_env =
  env_now :: "'w \<Rightarrow> dtime"
  env_http :: "http_request \<Rightarrow> 'w \<Rightarrow> http_result \<times> 'w"
  env_sleep :: "rat \<Rightarrow> 'w \<Rightarrow> 'w"
  env_jwt_exp :: "json \<Rightarrow> sync_error + dtime option"
  env_dumps :: "json \<Rightarrow> string"

definition ATTEMPTS :: nat where "ATTEMPTS = 3"
definition BACKOFF :: "rat list" where "BACKOFF = [1, 2]"
definition NOT_ENABLED_RETRY :: tdelta where "NOT_ENABLED_RETRY = hours 1"
definition FALLBACK_TOKEN_LIFETIME :: tdelta where "FALLBACK_TOKEN_LIFETIME = minutes 100"
definition TOKEN_MARGIN :: tdelta where "TOKEN_MARGIN = minutes 5"

record client =
  cl_marina_id :: nat
  cl_base_url :: string
  cl_service_email :: string
  cl_service_password :: string
  cl_erp_api_key :: "string option"
  cl_token :: "json option"
  cl_token_expires :: "dtime option"
  cl_not_enabled_until :: "string \<Rightarrow> dtime option"
  cl_last_status :: "string \<Rightarrow> string option"

text \<open>\<open>base_url.rstrip("/")\<close>.\<close>

definition rstrip_slash :: "string \<Rightarrow> string" where
  "rstrip_slash s = rev (dropWhile (\<lambda>c. c = CHR ''/'') (rev s))"

definition new_client :: "nat \<Rightarrow> string \<Rightarrow> string \<Rightarrow> string \<Rightarrow> string option \<Rightarrow> client" where
  "new_client mid url email pw key = \<lparr>cl_marina_id = mid, cl_base_url = rstrip_slash url,
     cl_service_email = email, cl_service_password = pw, cl_erp_api_key = key, cl_token = None,
     cl_token_expires = None, cl_not_enabled_until = (\<lambda>_. None), cl_last_status = (\<lambda>_. None)\<rparr>"

definition drop_token :: "client \<Rightarrow> client" where
  "drop_token cl = cl\<lparr>cl_token := None, cl_token_expires := None\<rparr>"

definition has_channel_b :: "client \<Rightarrow> bool" where
  "has_channel_b cl \<longleftrightarrow> truthy (cl_erp_api_key cl)"

section \<open>Cache and sync log\<close>

text \<open>\<open>"&".join(f"{k}={query[k]}" ...)\<close> over the sorted keys that have a value.\<close>

definition cache_query :: "(string \<times> string option) list \<Rightarrow> string" where
  "cache_query q = join_with ''&'' (List.map_filter
     (\<lambda>k. map_option (\<lambda>v. k @ ''='' @ v) (Option.bind (map_of q k) id)) (sort (map fst q)))"

definition cache_key :: "string \<Rightarrow> string \<Rightarrow> (string \<times> string option) list \<Rightarrow> string" where
  "cache_key key path q =
     (let s = cache_query q in key @ '':'' @ path @ (if s = [] then [] else ''?'' @ s))"

definition server_cache_key :: "client \<Rightarrow> string \<Rightarrow> string \<Rightarrow> (string \<times> string option) list \<Rightarrow> string" where
  "server_cache_key cl key path q = cache_key key path q @ ''@'' @ cl_base_url cl"

definition is_entry :: "nat \<Rightarrow> string \<Rightarrow> pedestal_cache \<Rightarrow> bool" where
  "is_entry mid k r \<longleftrightarrow> pc_marina_id r = mid \<and> pc_cache_key r = Some k"

fun update_first :: "('r \<Rightarrow> bool) \<Rightarrow> ('r \<Rightarrow> 'r) \<Rightarrow> 'r list \<Rightarrow> 'r list" where
  "update_first P f [] = []"
| "update_first P f (r # rs) = (if P r then f r # rs else r # update_first P f rs)"

definition update_cache :: "db option \<Rightarrow> nat \<Rightarrow> string \<Rightarrow> json \<Rightarrow> dtime \<Rightarrow> db option" where
  "update_cache dbo mid k data now = map_option (\<lambda>d.
     if list_ex (is_entry mid k) (db_cache d)
     then d\<lparr>db_cache := update_first (is_entry mid k)
              (\<lambda>r. r\<lparr>pc_last_seen_data := data, pc_last_synced_at := Some now, pc_is_stale := False\<rparr>) (db_cache d)\<rparr>
     else d\<lparr>db_cache := db_cache d @ [\<lparr>pc_id = next_id pc_id (db_cache d), pc_marina_id = mid,
              pc_pedestal_id = None, pc_cache_key = Some k, pc_last_seen_data = data,
              pc_last_synced_at = Some now, pc_is_stale = False,
              pc_last_temperature = None, pc_last_temperature_alarm = None, pc_last_temperature_at = None,
              pc_last_readings = None\<rparr>]\<rparr>) dbo"

definition cache_get :: "db option \<Rightarrow> nat \<Rightarrow> string \<Rightarrow> (json \<times> dtime option) option" where
  "cache_get dbo mid k = Option.bind dbo (\<lambda>d.
     case find (is_entry mid k) (db_cache d) of
       None \<Rightarrow> None
     | Some r \<Rightarrow> if pc_last_seen_data r = JNull then None
                else Some (pc_last_seen_data r, pc_last_synced_at r))"

definition write_sync_log :: "db option \<Rightarrow> nat \<Rightarrow> string \<Rightarrow> string \<Rightarrow> dtime \<Rightarrow> dtime \<Rightarrow> string option \<Rightarrow> db option" where
  "write_sync_log dbo mid ty st started done err = map_option (\<lambda>d.
     d\<lparr>db_sync_log := db_sync_log d @ [\<lparr>sy_id = next_id sy_id (db_sync_log d), sy_marina_id = mid,
        sy_sync_type = ty, sy_status = st, sy_started_at = started, sy_completed_at = Some done,
        sy_error_message = err\<rparr>]\<rparr>) dbo"

section \<open>Reading a response\<close>

definition resp_detail :: "'w cab_env \<Rightarrow> http_response \<Rightarrow> string" where
  "resp_detail env r = (case rs_json r of
     Some (JObj ob) \<Rightarrow>
       (case (if has_key ob ''detail'' then jget ob ''detail''
              else if has_key ob ''reason'' then jget ob ''reason'' else JStr []) of
          JStr s \<Rightarrow> s | v \<Rightarrow> cut 500 (env_dumps env v))
   | _ \<Rightarrow> cut 500 (rs_text r))"

definition json_or_bytes :: "http_response \<Rightarrow> sync_error + payload" where
  "json_or_bytes r =
     (if rs_json_type r then (case rs_json r of Some j \<Rightarrow> Inr (Json j) | None \<Rightarrow> Inl Crash)
      else Inr (Bytes (rs_content r)))"

definition says_not_enabled :: "http_response \<Rightarrow> bool" where
  "says_not_enabled r = (case rs_json r of
     Some (JObj ob) \<Rightarrow> jget ob ''reason'' = JStr ''Not enabled'' | _ \<Rightarrow> False)"

section \<open>The token\<close>

datatype token_result = Token json | Refused | TokenLost string | TokenCrash

definition token_request :: "client \<Rightarrow> http_request" where
  "token_request cl = \<lparr>rq_method = ''POST'', rq_url = cl_base_url cl @ ''/api/auth/service-token'',
     rq_query = [], rq_body = JsonBody (JObj [(''email'', JStr (cl_service_email cl)),
       (''password'', JStr (cl_service_password cl))]), rq_auth = Anonymous\<rparr>"

definition held_token :: "client \<Rightarrow> dtime \<Rightarrow> json option" where
  "held_token cl now = (case (cl_token cl, cl_token_expires cl) of
     (Some t, Some e) \<Rightarrow> if jtrue t \<and> now < e then Some t else None
   | _ \<Rightarrow> None)"

definition token_now :: "'w cab_env \<Rightarrow> client \<Rightarrow> 'w \<Rightarrow> token_result \<times> client \<times> 'w" where
  "token_now env cl w =
     (let now = env_now env w in
      case held_token cl now of
        Some t \<Rightarrow> (Token t, cl, w)
      | None \<Rightarrow>
          (case env_http env (token_request cl) w of
             (Lost e, w') \<Rightarrow> (TokenLost e, cl, w')
           | (Failed, w') \<Rightarrow> (TokenCrash, cl, w')
           | (Responded r, w') \<Rightarrow>
               if rs_status r \<noteq> 200 then (Refused, cl, w')
               else (case rs_json r of
                       Some (JObj ob) \<Rightarrow>
                         (let t = jget ob ''access_token'' in
                          if \<not> jtrue t then (Refused, cl, w')
                          else (case env_jwt_exp env t of
                                  Inl _ \<Rightarrow> (TokenCrash, cl, w')
                                | Inr e \<Rightarrow>
                                    (Token t, cl\<lparr>cl_token := Some t,
                                       cl_token_expires := Some (case e of Some x \<Rightarrow> x - TOKEN_MARGIN
                                         | None \<Rightarrow> now + FALLBACK_TOKEN_LIFETIME)\<rparr>, w')))
                     | _ \<Rightarrow> (TokenCrash, cl, w'))))"

section \<open>Channel A\<close>

text \<open>What a call is about, fixed for all its attempts.\<close>

record call_args =
  ca_key :: string
  ca_method :: string
  ca_url :: string
  ca_ckey :: string
  ca_query :: "(string \<times> string option) list"
  ca_body :: req_body
  ca_started :: dtime

definition send_request :: "call_args \<Rightarrow> json \<Rightarrow> http_request" where
  "send_request ca t = \<lparr>rq_method = ca_method ca, rq_url = ca_url ca,
     rq_query = List.map_filter (\<lambda>(k, v). map_option (Pair k) v) (ca_query ca),
     rq_body = ca_body ca, rq_auth = Bearer t\<rparr>"

definition failed_outcome :: "string \<Rightarrow> string \<Rightarrow> int \<Rightarrow> string \<Rightarrow> Outcome" where
  "failed_outcome code key status detail =
     (outcome code key)\<lparr>oc_http_status := Some status, oc_cabinet_detail := Some detail\<rparr>"

text \<open>What one response means: an end of the call, another attempt, or a new token first.\<close>

datatype verdict = Done "sync_error + Outcome" client "db option" | Again string | Relogin client

definition set_status :: "string \<Rightarrow> string \<Rightarrow> client \<Rightarrow> client" where
  "set_status key st cl = cl\<lparr>cl_last_status := (cl_last_status cl)(key := Some st)\<rparr>"

definition silence :: "string \<Rightarrow> dtime \<Rightarrow> client \<Rightarrow> client" where
  "silence key now cl = cl\<lparr>cl_not_enabled_until := (cl_not_enabled_until cl)(key := Some (now + NOT_ENABLED_RETRY))\<rparr>"

definition log_error :: "'w cab_env \<Rightarrow> call_args \<Rightarrow> client \<Rightarrow> db option \<Rightarrow> 'w \<Rightarrow> string option \<Rightarrow> db option" where
  "log_error env ca cl dbo w err =
     write_sync_log dbo (cl_marina_id cl) (ca_key ca) ''error'' (ca_started ca) (env_now env w) err"

definition on_success ::
    "'w cab_env \<Rightarrow> call_args \<Rightarrow> client \<Rightarrow> db option \<Rightarrow> 'w \<Rightarrow> http_response \<Rightarrow> verdict" where
  "on_success env ca cl dbo w r =
     (case json_or_bytes r of
        Inl e \<Rightarrow> Done (Inl e) cl dbo
      | Inr data \<Rightarrow>
          (let key = ca_key ca; now = env_now env w;
               d1 = (if cl_last_status cl key \<noteq> Some ''success''
                     then write_sync_log dbo (cl_marina_id cl) key ''success'' (ca_started ca) now None else dbo);
               d2 = (case data of
                       Json j \<Rightarrow> if ca_method ca = ''GET'' then update_cache d1 (cl_marina_id cl) (ca_ckey ca) j now else d1
                     | Bytes _ \<Rightarrow> d1)
           in Done (Inr ((outcome ''ok'' key)\<lparr>oc_data := data, oc_http_status := Some (rs_status r)\<rparr>))
                (set_status key ''success'' cl) d2))"

definition on_response ::
    "'w cab_env \<Rightarrow> call_args \<Rightarrow> bool \<Rightarrow> client \<Rightarrow> db option \<Rightarrow> 'w \<Rightarrow> http_response \<Rightarrow> verdict" where
  "on_response env ca retried cl dbo w r =
     (let s = rs_status r; key = ca_key ca; detail = resp_detail env r; now = env_now env w;
          finish = (\<lambda>code. Inr (failed_outcome code key s detail));
          logged = (\<lambda>t. log_error env ca cl dbo w (Some (t @ detail)))
      in if 200 \<le> s \<and> s < 300 then on_success env ca cl dbo w r
         else if s = 401 then
           (if \<not> retried then Relogin (drop_token cl)
            else Done (finish ''cabinet_auth_failed'') (set_status key ''error'' cl) (logged ''401 ''))
         else if s = 403 then
           Done (finish ''not_enabled'') (set_status key ''error'' (silence key now cl)) (logged ''403 '')
         else if s = 503 then
           (if says_not_enabled r then Done (finish ''not_enabled'') (silence key now cl) dbo
            else Done (finish ''capability_unavailable'') cl dbo)
         else if s = 409 then Done (finish (classify_409 detail)) cl dbo
         else if s = 400 then Done (finish (classify_400 detail)) cl dbo
         else if s = 404 then Done (finish ''not_found'') cl dbo
         else if s = 422 then Done (finish ''erp_bug'') (set_status key ''error'' cl) (logged ''422 '')
         else if 500 \<le> s then Again (''HTTP '' @ int_str s @ '': '' @ detail)
         else Done (finish ''erp_bug'') cl dbo)"

text \<open>All attempts spent: the cache answers a read, and says how old it is.\<close>

definition give_up ::
    "'w cab_env \<Rightarrow> call_args \<Rightarrow> string option \<Rightarrow> client \<Rightarrow> db option \<Rightarrow> 'w \<Rightarrow> Outcome \<times> client \<times> db option" where
  "give_up env ca err cl dbo w =
     (let key = ca_key ca; cl1 = set_status key ''error'' cl; d1 = log_error env ca cl dbo w err;
          gone = ((outcome ''no_contact'' key)\<lparr>oc_is_stale := True, oc_cabinet_detail := err\<rparr>, cl1, d1)
      in if ca_method ca = ''GET''
         then (case cache_get d1 (cl_marina_id cl) (ca_ckey ca) of
                 Some (data, synced) \<Rightarrow>
                   ((outcome ''stale'' key)\<lparr>oc_data := Json data, oc_is_stale := True, oc_synced_at := synced,
                      oc_cabinet_detail := err\<rparr>,
                    set_status key ''stale'' cl1,
                    write_sync_log d1 (cl_marina_id cl) key ''stale'' (ca_started ca) (env_now env w) None)
               | None \<Rightarrow> gone)
         else gone)"

definition pause :: "'w cab_env \<Rightarrow> nat \<Rightarrow> 'w \<Rightarrow> 'w" where
  "pause env attempt w = (if attempt < ATTEMPTS then env_sleep env (BACKOFF ! (attempt - 1)) w else w)"

function call_loop ::
    "'w cab_env \<Rightarrow> call_args \<Rightarrow> nat \<Rightarrow> bool \<Rightarrow> string option \<Rightarrow> client \<Rightarrow> db option \<Rightarrow> 'w
     \<Rightarrow> (sync_error + Outcome) \<times> client \<times> db option \<times> 'w" where
  "call_loop env ca attempt retried err cl dbo w =
     (if \<not> attempt < ATTEMPTS then
        (case give_up env ca err cl dbo w of (oc, cl', d') \<Rightarrow> (Inr oc, cl', d', w))
      else
        (case token_now env cl w of
           (TokenCrash, cl1, w1) \<Rightarrow> (Inl Crash, cl1, dbo, w1)
         | (Refused, cl1, w1) \<Rightarrow>
             (Inr ((outcome ''cabinet_auth_failed'' (ca_key ca))\<lparr>oc_http_status := Some 401\<rparr>),
              set_status (ca_key ca) ''error'' cl1,
              log_error env ca cl1 dbo w1 (Some ''service-token refused''), w1)
         | (TokenLost e, cl1, w1) \<Rightarrow>
             call_loop env ca (Suc attempt) retried (Some e) cl1 dbo (pause env (Suc attempt) w1)
         | (Token t, cl1, w1) \<Rightarrow>
             (case env_http env (send_request ca t) w1 of
                (Failed, w2) \<Rightarrow> (Inl Crash, cl1, dbo, w2)
              | (Lost e, w2) \<Rightarrow>
                  call_loop env ca (Suc attempt) retried (Some e) cl1 dbo (pause env (Suc attempt) w2)
              | (Responded r, w2) \<Rightarrow>
                  (case on_response env ca retried cl1 dbo w2 r of
                     Done res cl2 d2 \<Rightarrow> (res, cl2, d2, w2)
                   | Again e \<Rightarrow> call_loop env ca (Suc attempt) retried (Some e) cl1 dbo (pause env (Suc attempt) w2)
                   | Relogin cl2 \<Rightarrow>
                       if retried then (Inl Crash, cl2, dbo, w2)
                       else call_loop env ca attempt True err cl2 dbo w2))))"
  by pat_completeness auto
termination
  by (relation "measure (\<lambda>(env, ca, attempt, retried, _). 2 * (ATTEMPTS - attempt) + (if retried then 0 else 1))")
     (auto simp: ATTEMPTS_def)

declare call_loop.simps [simp del]

text \<open>The kind of a contract error stands for its text.\<close>

definition contract_text :: "contract_error \<Rightarrow> string" where
  "contract_text e = (case e of
     CatalogPath p \<Rightarrow> ''catalog path '' @ p
   | UnknownKey k \<Rightarrow> ''unknown endpoint key '' @ k
   | DoubledExt p \<Rightarrow> ''doubled ext in '' @ p
   | WrongParams k \<Rightarrow> k @ '': needs other parameters''
   | NumericPkOnly k \<Rightarrow> k @ '' takes the numeric PK''
   | OutletName k n \<Rightarrow> k @ '': '' @ n @ '' must be Q1-Q4/V1-V2'')"

definition is_known_not_enabled :: "client \<Rightarrow> string \<Rightarrow> dtime \<Rightarrow> bool" where
  "is_known_not_enabled cl key now = (case cl_not_enabled_until cl key of Some u \<Rightarrow> now < u | None \<Rightarrow> False)"

definition url_for :: "client \<Rightarrow> string \<Rightarrow> (string \<times> pval) list \<Rightarrow> string" where
  "url_for cl key params = (case build_path key params of
     Inr p \<Rightarrow> cl_base_url cl @ p
   | Inl e \<Rightarrow> cl_base_url cl @ '' <not sent: '' @ contract_text e @ ''>'')"

definition endpoint_method :: "string \<Rightarrow> string" where
  "endpoint_method key = (case ENDPOINTS key of Some e \<Rightarrow> ep_method e | None \<Rightarrow> [])"

definition call ::
    "'w cab_env \<Rightarrow> string \<Rightarrow> (string \<times> pval) list \<Rightarrow> (string \<times> string option) list \<Rightarrow> req_body
     \<Rightarrow> client \<Rightarrow> db option \<Rightarrow> 'w \<Rightarrow> (sync_error + Outcome) \<times> client \<times> db option \<times> 'w" where
  "call env key params query body cl dbo w =
     (case build_path key params of
        Inl e \<Rightarrow> (Inr ((outcome ''erp_bug'' key)\<lparr>oc_cabinet_detail := Some (contract_text e)\<rparr>), cl, dbo, w)
      | Inr path \<Rightarrow>
          if is_known_not_enabled cl key (env_now env w) then (Inr (outcome ''not_enabled'' key), cl, dbo, w)
          else call_loop env \<lparr>ca_key = key, ca_method = endpoint_method key, ca_url = cl_base_url cl @ path,
                 ca_ckey = server_cache_key cl key path query, ca_query = query, ca_body = body,
                 ca_started = env_now env w\<rparr> 0 False None cl dbo w)"

section \<open>Channel B\<close>

definition iso_z :: "dtime \<Rightarrow> string" where
  "iso_z t = iso_str (t - t mod usec) @ ''Z''"

text \<open>\<open>str.format\<close> of one placeholder.\<close>

definition format1 :: "string \<Rightarrow> string \<Rightarrow> string" where
  "format1 template v = subst_toks (\<lambda>_. v) (toks template)"

fun nfc_loop ::
    "'w cab_env \<Rightarrow> http_request \<Rightarrow> string \<Rightarrow> nat \<Rightarrow> string option \<Rightarrow> nat \<Rightarrow> 'w \<Rightarrow> (sync_error + Outcome) \<times> 'w" where
  "nfc_loop env rq key attempt err 0 w =
     (Inr ((outcome ''no_contact'' key)\<lparr>oc_cabinet_detail := err\<rparr>), w)"
| "nfc_loop env rq key attempt err (Suc left) w =
     (let again = (\<lambda>e w'. nfc_loop env rq key (Suc attempt) (Some e) left (pause env (Suc attempt) w')) in
      case env_http env rq w of
        (Failed, w') \<Rightarrow> (Inl Crash, w')
      | (Lost e, w') \<Rightarrow> again e w'
      | (Responded r, w') \<Rightarrow>
          (let s = rs_status r; detail = resp_detail env r;
               finish = (\<lambda>code. (Inr (failed_outcome code key s detail), w'))
           in if 200 \<le> s \<and> s < 300 then
                (case rs_json r of
                   Some j \<Rightarrow> (Inr ((outcome ''ok'' key)\<lparr>oc_data := Json j, oc_http_status := Some s\<rparr>), w')
                 | None \<Rightarrow> (Inl Crash, w'))
              else if s = 401 then finish ''cabinet_auth_failed''
              else if s = 409 then finish (classify_409 detail)
              else if s = 404 then finish ''not_found''
              else if s = 503 then finish ''capability_unavailable''
              else if 500 \<le> s then again (''HTTP '' @ int_str s @ '': '' @ detail) w'
              else finish ''erp_bug''))"

definition nfc ::
    "'w cab_env \<Rightarrow> client \<Rightarrow> string \<Rightarrow> string \<Rightarrow> string \<Rightarrow> req_body \<Rightarrow> (string \<times> string) list
     \<Rightarrow> 'w \<Rightarrow> (sync_error + Outcome) \<times> 'w" where
  "nfc env cl method path key body query w =
     (case cl_erp_api_key cl of
        Some (c # k) \<Rightarrow>
          nfc_loop env \<lparr>rq_method = method, rq_url = cl_base_url cl @ path, rq_query = query,
             rq_body = body, rq_auth = ApiKey (c # k)\<rparr> key 0 None ATTEMPTS w
      | _ \<Rightarrow> (Inr ((outcome ''capability_unavailable'' key)\<lparr>oc_cabinet_detail := Some ''no X-API-Key configured''\<rparr>), w))"

definition nfc_scan :: "'w cab_env \<Rightarrow> client \<Rightarrow> string \<Rightarrow> string \<Rightarrow> 'w \<Rightarrow> (sync_error + Outcome) \<times> 'w" where
  "nfc_scan env cl tag user = nfc env cl ''POST'' NFC_SCAN ''nfc.scan''
     (JsonBody (JObj [(''nfc_tag_id'', JStr tag), (''user_id'', JStr user)])) []"

definition nfc_stop :: "'w cab_env \<Rightarrow> client \<Rightarrow> int \<Rightarrow> 'w \<Rightarrow> (sync_error + Outcome) \<times> 'w" where
  "nfc_stop env cl sid = nfc env cl ''POST'' (format1 NFC_SESSION_STOP (int_str sid)) ''nfc.stop'' NoBody []"

definition nfc_session_for_reconciliation :: "'w cab_env \<Rightarrow> client \<Rightarrow> int \<Rightarrow> 'w \<Rightarrow> (sync_error + Outcome) \<times> 'w" where
  "nfc_session_for_reconciliation env cl sid =
     nfc env cl ''GET'' (format1 NFC_SESSION (int_str sid)) ''nfc.session'' NoBody []"

definition nfc_sessions_by_user_for_reconciliation ::
    "'w cab_env \<Rightarrow> client \<Rightarrow> string \<Rightarrow> nat \<Rightarrow> 'w \<Rightarrow> (sync_error + Outcome) \<times> 'w" where
  "nfc_sessions_by_user_for_reconciliation env cl user limit =
     nfc env cl ''GET'' (format1 NFC_SESSIONS_BY_USER user) ''nfc.sessions_by_user'' NoBody
       [(''limit'', nat_str limit)]"

definition nfc_sessions_ended_between ::
    "'w cab_env \<Rightarrow> client \<Rightarrow> dtime \<Rightarrow> dtime \<Rightarrow> nat \<Rightarrow> nat \<Rightarrow> 'w \<Rightarrow> (sync_error + Outcome) \<times> 'w" where
  "nfc_sessions_ended_between env cl frm to limit offset =
     nfc env cl ''GET'' NFC_SESSIONS_RANGE ''nfc.sessions_range'' NoBody
       [(''ended_from'', iso_z frm), (''ended_to'', iso_z to), (''limit'', nat_str limit), (''offset'', nat_str offset)]"

definition nfc_ack_call :: "'w cab_env \<Rightarrow> client \<Rightarrow> int list \<Rightarrow> 'w \<Rightarrow> (sync_error + Outcome) \<times> 'w" where
  "nfc_ack_call env cl ids = nfc env cl ''POST'' NFC_SESSIONS_ACK ''nfc.ack''
     (JsonBody (JObj [(''session_ids'', JList (map JInt ids))])) []"

text \<open>The client as the reconciler uses it.\<close>

definition channel_b :: "'w cab_env \<Rightarrow> client \<Rightarrow> 'w nfc_cabinet" where
  "channel_b env cl = \<lparr>nc_has_channel_b = has_channel_b cl,
     nc_range = nfc_sessions_ended_between env cl, nc_session = nfc_session_for_reconciliation env cl,
     nc_by_user = nfc_sessions_by_user_for_reconciliation env cl, nc_ack = nfc_ack_call env cl\<rparr>"

section \<open>The named calls\<close>

type_synonym 'w reading = "client \<Rightarrow> db option \<Rightarrow> 'w \<Rightarrow> (sync_error + Outcome) \<times> client \<times> db option \<times> 'w"

definition get_plain :: "'w cab_env \<Rightarrow> string \<Rightarrow> 'w reading" where
  "get_plain env key = call env key [] [] NoBody"

definition health :: "'w cab_env \<Rightarrow> 'w reading" where "health env = get_plain env ''pedestals.health''"
definition list_pedestals :: "'w cab_env \<Rightarrow> 'w reading" where "list_pedestals env = get_plain env ''pedestals.list''"
definition list_berths :: "'w cab_env \<Rightarrow> 'w reading" where "list_berths env = get_plain env ''berths.list''"
definition active_sessions :: "'w cab_env \<Rightarrow> 'w reading" where "active_sessions env = get_plain env ''sessions.active''"
definition pending_sessions :: "'w cab_env \<Rightarrow> 'w reading" where "pending_sessions env = get_plain env ''sessions.pending''"
definition active_alarms :: "'w cab_env \<Rightarrow> 'w reading" where "active_alarms env = get_plain env ''alarms.active''"
definition session_summary :: "'w cab_env \<Rightarrow> 'w reading" where "session_summary env = get_plain env ''analytics.summary''"

definition daily_analytics :: "'w cab_env \<Rightarrow> string option \<Rightarrow> string option \<Rightarrow> 'w reading" where
  "daily_analytics env frm to = call env ''analytics.daily'' [] [(''date_from'', frm), (''date_to'', to)] NoBody"

definition of_pedestal :: "'w cab_env \<Rightarrow> string \<Rightarrow> pval \<Rightarrow> 'w reading" where
  "of_pedestal env key p = call env key [(''pedestal_id'', p)] [] NoBody"

definition pedestal_status :: "'w cab_env \<Rightarrow> pval \<Rightarrow> 'w reading" where
  "pedestal_status env p = of_pedestal env ''pedestals.status_ext'' p"
definition pedestal_load :: "'w cab_env \<Rightarrow> int \<Rightarrow> 'w reading" where
  "pedestal_load env p = of_pedestal env ''load.pedestal_get_ext'' (PInt p)"
definition pedestal_breakers :: "'w cab_env \<Rightarrow> int \<Rightarrow> 'w reading" where
  "pedestal_breakers env p = of_pedestal env ''breakers.pedestal_list_ext'' (PInt p)"
definition pedestal_load_alarms :: "'w cab_env \<Rightarrow> int \<Rightarrow> 'w reading" where
  "pedestal_load_alarms env p = of_pedestal env ''load.pedestal_alarms_ext'' (PInt p)"
definition berth_occupancy :: "'w cab_env \<Rightarrow> pval \<Rightarrow> 'w reading" where
  "berth_occupancy env p = of_pedestal env ''berths.occupancy_ext'' p"
definition run_diagnostics :: "'w cab_env \<Rightarrow> int \<Rightarrow> 'w reading" where
  "run_diagnostics env p = of_pedestal env ''diagnostics.run'' (PInt p)"

definition allow_session :: "'w cab_env \<Rightarrow> int \<Rightarrow> 'w reading" where
  "allow_session env sid = call env ''controls.allow'' [(''session_id'', PInt sid)] [] NoBody"
definition deny_session :: "'w cab_env \<Rightarrow> int \<Rightarrow> string option \<Rightarrow> 'w reading" where
  "deny_session env sid reason = call env ''controls.deny'' [(''session_id'', PInt sid)] []
     (JsonBody (if truthy reason then JObj [(''reason'', JStr (or_else reason []))] else JObj []))"
definition stop_session :: "'w cab_env \<Rightarrow> int \<Rightarrow> 'w reading" where
  "stop_session env sid = call env ''controls.stop'' [(''session_id'', PInt sid)] [] NoBody"
definition acknowledge_alarm :: "'w cab_env \<Rightarrow> int \<Rightarrow> 'w reading" where
  "acknowledge_alarm env aid = call env ''alarms.acknowledge'' [(''alarm_id'', PInt aid)] [] NoBody"

definition push_reference_image :: "'w cab_env \<Rightarrow> cabinet \<Rightarrow> int \<Rightarrow> string \<Rightarrow> client \<Rightarrow> db \<Rightarrow> 'w
     \<Rightarrow> (sync_error + Outcome) \<times> client \<times> db option \<times> 'w" where
  "push_reference_image env cab berth jpeg cl d w =
     (let key = ''berths.push_image_ext'' in
      if \<not> list_ex (\<lambda>c. cap_cabinet_id c = cab_id cab
            \<and> Some (cap_capability c) = map_of PER_CABINET_RECORD key \<and> cap_available c) (db_capabilities d)
      then (Inr ((outcome ''erp_bug'' key)\<lparr>oc_cabinet_detail := Some
               ''not sent: no P1 record for this cabinet (spec 6.12)''\<rparr>), cl, Some d, w)
      else call env key [(''pedestal_id'', PInt (cab_pedestal_pk cab)), (''berth_id'', PInt berth)] []
             (RawBody jpeg ''image/jpeg'') cl (Some d) w)"

definition socket_cmd :: "'w cab_env \<Rightarrow> int \<Rightarrow> string \<Rightarrow> string \<Rightarrow> string option \<Rightarrow> 'w reading" where
  "socket_cmd env pk outlet action tag =
     (let q = starts_with outlet ''Q'' in
      call env (if q then ''controls.socket_cmd'' else ''controls.water_cmd'')
        [(''pedestal_id'', PInt pk), (if q then ''socket_name'' else ''valve_name'', PStr outlet)] []
        (JsonBody (JObj ((''action'', JStr action) #
           (if truthy tag then [(''nfc_tag_id'', JStr (or_else tag []))] else [])))))"


section \<open>What a call sends\<close>

text \<open>An environment that also keeps the requests it was given.\<close>

definition recording :: "'w cab_env \<Rightarrow> ('w \<times> http_request list) cab_env" where
  "recording env = \<lparr>env_now = (\<lambda>(w, _). env_now env w),
     env_http = (\<lambda>rq (w, l). case env_http env rq w of (x, w') \<Rightarrow> (x, (w', l @ [rq]))),
     env_sleep = (\<lambda>s (w, l). (env_sleep env s w, l)),
     env_jwt_exp = env_jwt_exp env, env_dumps = env_dumps env\<rparr>"

lemma recording_sel [simp]:
  "env_http (recording env) rq (w, l) = (case env_http env rq w of (x, w') \<Rightarrow> (x, (w', l @ [rq])))"
  by (simp add: recording_def)

lemma recording_pause [simp]: "snd (pause (recording env) n s) = snd s"
  by (cases s) (simp add: pause_def recording_def)

text \<open>Who the client signs in as does not change while it works.\<close>

definition same_account :: "client \<Rightarrow> client \<Rightarrow> bool" where
  "same_account a b \<longleftrightarrow> cl_base_url a = cl_base_url b \<and> cl_service_email a = cl_service_email b
     \<and> cl_service_password a = cl_service_password b \<and> cl_marina_id a = cl_marina_id b"

lemma same_account_refl [simp]: "same_account cl cl"
  by (simp add: same_account_def)

lemma same_account_trans: "same_account a b \<Longrightarrow> same_account b c \<Longrightarrow> same_account a c"
  by (simp add: same_account_def)

lemma same_account_updates [simp]:
  "same_account cl (drop_token cl)" "same_account cl (set_status k st cl)" "same_account cl (silence k now cl)"
  "same_account cl (set_status k st (silence k' now cl))"
  by (simp_all add: same_account_def drop_token_def set_status_def silence_def)

lemma token_request_same: "same_account a b \<Longrightarrow> token_request b = token_request a"
  by (simp add: same_account_def token_request_def)

lemma token_now_account:
  "token_now env cl w = (t, cl1, w1) \<Longrightarrow> same_account cl cl1"
  by (auto simp: token_now_def Let_def same_account_def split: option.splits prod.splits http_result.splits
      if_splits json.splits sum.splits)

lemma token_now_sent:
  assumes "token_now (recording env) cl s = (t, cl1, s1)"
  shows "snd s1 = snd s \<or> snd s1 = snd s @ [token_request cl]"
  using assms by (cases s) (auto simp: token_now_def Let_def split: option.splits prod.splits
      http_result.splits if_splits json.splits sum.splits)

lemma on_response_account:
  "case on_response env ca retried cl dbo w r of
     Done _ cl' _ \<Rightarrow> same_account cl cl' | Again _ \<Rightarrow> True | Relogin cl' \<Rightarrow> same_account cl cl' \<and> \<not> retried"
  by (auto simp: on_response_def on_success_def Let_def intro: same_account_trans split: sum.splits)

text \<open>What a log of one call may hold: sign-ins and the command, each a bounded number of times.\<close>

definition is_command :: "call_args \<Rightarrow> http_request \<Rightarrow> bool" where
  "is_command ca rq \<longleftrightarrow> rq_auth rq \<noteq> Anonymous \<and> rq_method rq = ca_method ca \<and> rq_url rq = ca_url ca
     \<and> rq_body rq = ca_body ca"

definition sent_within :: "client \<Rightarrow> call_args \<Rightarrow> nat \<Rightarrow> http_request list \<Rightarrow> http_request list \<Rightarrow> bool" where
  "sent_within cl ca n l l' \<longleftrightarrow> (\<exists>new. l' = l @ new \<and> (\<forall>rq \<in> set new. rq = token_request cl \<or> is_command ca rq)
     \<and> length (filter (is_command ca) new) \<le> n \<and> length (filter (\<lambda>rq. rq = token_request cl) new) \<le> n)"

lemma is_command_send [simp]: "is_command ca (send_request ca t)"
  by (simp add: is_command_def send_request_def)

lemma token_not_command [simp]: "\<not> is_command ca (token_request cl)" "send_request ca t \<noteq> token_request cl"
  by (simp_all add: is_command_def token_request_def send_request_def)

lemma sent_within_mono: "sent_within cl ca n l l' \<Longrightarrow> n \<le> m \<Longrightarrow> sent_within cl ca m l l'"
  unfolding sent_within_def by (elim exE conjE) (intro exI conjI, assumption, auto)

lemma sent_within_refl [simp]: "sent_within cl ca n l l"
  by (simp add: sent_within_def)

lemma sent_within_step:
  assumes "l1 = l \<or> l1 = l @ [token_request cl]" and "l2 = l1 \<or> l2 = l1 @ [send_request ca t]"
    and "sent_within cl ca n l2 l'"
  shows "sent_within cl ca (Suc n) l l'"
proof -
  from assms(3) obtain new where n: "l' = l2 @ new" "\<forall>rq \<in> set new. rq = token_request cl \<or> is_command ca rq"
    "length (filter (is_command ca) new) \<le> n" "length (filter (\<lambda>rq. rq = token_request cl) new) \<le> n"
    by (auto simp: sent_within_def)
  from assms(1,2) obtain a b where ab: "a = [] \<or> a = [token_request cl]" "b = [] \<or> b = [send_request ca t]"
    "l2 = l @ a @ b" by (elim disjE) (fastforce+)
  show ?thesis unfolding sent_within_def
    by (rule exI[of _ "a @ b @ new"]) (use n ab in auto)
qed

definition budget :: "nat \<Rightarrow> bool \<Rightarrow> nat" where
  "budget attempt retried = (ATTEMPTS - attempt) + (if retried then 0 else 1)"

lemma call_loop_sent:
  "call_loop (recording env) ca attempt retried err cl dbo s = (res, cl', d', s') \<Longrightarrow>
   sent_within cl ca (budget attempt retried) (snd s) (snd s')"
proof (induction "recording env" ca attempt retried err cl dbo s arbitrary: res cl' d' s' rule: call_loop.induct)
  case (1 ca attempt retried err cl dbo s)
  note run = trans[OF call_loop.simps[symmetric] 1(5)]
  show ?case
  proof (cases "attempt < ATTEMPTS")
    case False
    with run show ?thesis by (auto split: prod.splits)
  next
    case True
    then obtain n where n: "budget attempt retried = Suc n" "n = budget (Suc attempt) retried"
      by (auto simp: budget_def)
    obtain t cl1 s1 where tok: "token_now (recording env) cl s = (t, cl1, s1)" by (metis prod_cases3)
    note acc = token_now_account[OF tok] and sent1 = token_now_sent[OF tok]
    have same: "sent_within cl1 ca m = sent_within cl ca m" for m
      using token_request_same[OF acc] by (simp add: sent_within_def fun_eq_iff)
    show ?thesis
    proof (cases t)
      case (Token tk)
      obtain x s2 where http: "env_http (recording env) (send_request ca tk) s1 = (x, s2)" by (metis surj_pair)
      then have sent2: "snd s2 = snd s1 @ [send_request ca tk]" by (cases s1) (auto split: prod.splits)
      have step: "sent_within cl ca (Suc n) (snd s) (snd s')" if "sent_within cl ca n (snd s2) (snd s')"
        using sent_within_step[OF sent1 _ that] sent2 by blast
      note run1 = run[simplified True tok Token http, simplified]
      show ?thesis
      proof (cases x)
        case (Lost e)
        with 1(3) True tok Token http run1 have "sent_within cl1 ca n (snd s2) (snd s')" by (simp add: n)
        then show ?thesis unfolding n(1) same by (rule step)
      next
        case Failed
        with run1 http step show ?thesis by (simp add: n)
      next
        case (Responded r)
        note acc2 = on_response_account[where env = "recording env" and ca = ca and retried = retried and cl = cl1 and dbo = dbo and w = s2 and r = r]
        show ?thesis
        proof (cases "on_response (recording env) ca retried cl1 dbo s2 r")
          case (Done res2 cl2 d2)
          with run1 http Responded step show ?thesis by (simp add: n)
        next
          case (Again e)
          with 1(1) True tok Token http Responded run1 have "sent_within cl1 ca n (snd s2) (snd s')" by (simp add: n)
          then show ?thesis unfolding n(1) same by (rule step)
        next
          case (Relogin cl2)
          with acc2 have r: "\<not> retried" and a2: "same_account cl1 cl2" by auto
          have same2: "sent_within cl2 ca m = sent_within cl ca m" for m
            using token_request_same[OF same_account_trans[OF acc a2]] by (simp add: sent_within_def fun_eq_iff)
          have n2: "n = budget attempt True" using n(1) r by (simp add: budget_def)
          from 1(2) True tok Token http Responded Relogin r run1
          have "sent_within cl2 ca n (snd s2) (snd s')" by (simp add: n2)
          then show ?thesis unfolding n(1) same2 by (rule step)
        qed
      qed
    next
      case Refused
      with run True tok sent1 n show ?thesis
        using sent_within_step[OF sent1, of "snd s1" ca JNull n "snd s'"] by simp
    next
      case (TokenLost e)
      with 1(4) True tok run have "sent_within cl1 ca n (snd s1) (snd s')" by (simp add: n)
      then show ?thesis unfolding n(1) same by (rule sent_within_step[OF sent1 disjI1[OF refl]])
    next
      case TokenCrash
      with run True tok sent1 n show ?thesis
        using sent_within_step[OF sent1, of "snd s1" ca JNull n "snd s'"] by simp
    qed
  qed
qed

text \<open>
  C21. A call is bounded whatever the cabinet does: it sends at most four times the very
  request asked for (three attempts and one more after a new sign-in) and at most four
  sign-ins, and nothing else; a call the contract refuses sends nothing.
\<close>

theorem call_bounded:
  "case call (recording env) key params query body cl dbo (w, []) of (res, cl', d', (w', sent)) \<Rightarrow>
     length (filter (\<lambda>rq. rq = token_request cl) sent) \<le> 4
   \<and> length (filter (\<lambda>rq. rq \<noteq> token_request cl) sent) \<le> 4
   \<and> (\<forall>rq \<in> set sent. rq = token_request cl
        \<or> (\<exists>path. build_path key params = Inr path \<and> rq_url rq = cl_base_url cl @ path
             \<and> rq_method rq = endpoint_method key \<and> rq_body rq = body))"
proof (cases "build_path key params")
  case (Inl e)
  then show ?thesis by (simp add: call_def)
next
  case (Inr path)
  define ca where "ca = \<lparr>ca_key = key, ca_method = endpoint_method key, ca_url = cl_base_url cl @ path,
      ca_ckey = server_cache_key cl key path query, ca_query = query, ca_body = body,
      ca_started = env_now (recording env) (w, [])\<rparr>"
  obtain res cl' d' w' sent where r: "call (recording env) key params query body cl dbo (w, []) = (res, cl', d', (w', sent))"
    by (metis prod_cases5)
  have "sent_within cl ca 4 [] sent"
  proof (cases "is_known_not_enabled cl key (env_now (recording env) (w, []))")
    case True
    with r Inr show ?thesis by (simp add: call_def)
  next
    case False
    with r Inr have "call_loop (recording env) ca 0 False None cl dbo (w, []) = (res, cl', d', (w', sent))"
      by (simp add: call_def ca_def)
    from call_loop_sent[OF this] show ?thesis by (simp add: budget_def ATTEMPTS_def)
  qed
  then have s: "\<forall>rq \<in> set sent. rq = token_request cl \<or> is_command ca rq"
      "length (filter (is_command ca) sent) \<le> 4" "length (filter (\<lambda>rq. rq = token_request cl) sent) \<le> 4"
    by (auto simp: sent_within_def)
  have "filter (\<lambda>rq. rq \<noteq> token_request cl) sent = filter (is_command ca) sent"
    using s(1) by (intro filter_cong) (auto simp: is_command_def token_request_def)
  moreover have "rq_url rq = cl_base_url cl @ path \<and> rq_method rq = endpoint_method key \<and> rq_body rq = body"
    if "is_command ca rq" for rq
    using that by (simp add: is_command_def ca_def)
  ultimately show ?thesis using r s Inr by auto
qed

section \<open>What a call answers\<close>

definition answer_ok :: "'w cab_env \<Rightarrow> call_args \<Rightarrow> client \<Rightarrow> db option \<Rightarrow> Outcome \<Rightarrow> client \<Rightarrow> 'w \<Rightarrow> bool" where
  "answer_ok env ca cl dbo out cl' w' \<longleftrightarrow>
     known_code (oc_code out) \<and> oc_endpoint_key out = ca_key ca
   \<and> (oc_is_stale out \<longleftrightarrow> oc_code out \<in> {''stale'', ''no_contact''})
   \<and> (oc_data out \<noteq> Json JNull \<longrightarrow> oc_code out \<in> {''ok'', ''stale''})
   \<and> (oc_code out = ''ok'' \<longrightarrow> (\<exists>s. oc_http_status out = Some s \<and> 200 \<le> s \<and> s < 300))
   \<and> (oc_code out = ''stale'' \<longrightarrow> ca_method ca = ''GET''
        \<and> (\<exists>j. oc_data out = Json j \<and> cache_get dbo (cl_marina_id cl) (ca_ckey ca) = Some (j, oc_synced_at out)))
   \<and> (oc_code out = ''not_enabled'' \<longrightarrow>
        cl_not_enabled_until cl' (ca_key ca) = Some (env_now env w' + NOT_ENABLED_RETRY))"

lemma cache_get_log [simp]: "cache_get (write_sync_log dbo mid ty st a b e) m k = cache_get dbo m k"
  by (cases dbo) (simp_all add: cache_get_def write_sync_log_def)

lemma give_up_ok:
  "give_up env ca err cl dbo w = (out, cl', d') \<Longrightarrow> answer_ok env ca cl dbo out cl' w"
  by (auto simp: give_up_def Let_def answer_ok_def log_error_def split: if_splits option.splits)

lemma failed_outcome_ok:
  "known_code code \<Longrightarrow> code \<notin> {''ok'', ''stale'', ''no_contact''} \<Longrightarrow>
   (code = ''not_enabled'' \<Longrightarrow> cl_not_enabled_until cl' (ca_key ca) = Some (env_now env w' + NOT_ENABLED_RETRY)) \<Longrightarrow>
   answer_ok env ca cl dbo (failed_outcome code (ca_key ca) s detail) cl' w'"
  by (simp add: answer_ok_def failed_outcome_def)

lemma on_response_ok:
  assumes "on_response env ca retried cl dbo w r = Done (Inr out) cl' d'"
  shows "answer_ok env ca cl dbo out cl' w"
proof -
  have ok: "answer_ok env ca cl dbo out cl' w"
    if "on_success env ca cl dbo w r = Done (Inr out) cl' d'" "200 \<le> rs_status r" "rs_status r < 300"
    using that by (auto simp: on_success_def Let_def answer_ok_def split: sum.splits)
  show ?thesis
    using assms ok classify_409_not classify_known
    by (auto simp: on_response_def Let_def set_status_def silence_def intro!: failed_outcome_ok split: if_splits)
qed

lemma on_response_marina:
  "on_response env ca retried cl dbo w r = Relogin cl' \<Longrightarrow> cl_marina_id cl' = cl_marina_id cl"
  using on_response_account[where env = env and ca = ca and retried = retried and cl = cl and dbo = dbo and w = w and r = r]
  by (simp add: same_account_def)

lemma answer_ok_cong: "cl_marina_id cl1 = cl_marina_id cl \<Longrightarrow> answer_ok env ca cl1 = answer_ok env ca cl"
  by (simp add: answer_ok_def fun_eq_iff)

lemma call_loop_ok:
  "call_loop env ca attempt retried err cl dbo w = (Inr out, cl', d', w') \<Longrightarrow> answer_ok env ca cl dbo out cl' w'"
proof (induction env ca attempt retried err cl dbo w arbitrary: out cl' d' w' rule: call_loop.induct)
  case (1 env ca attempt retried err cl dbo w)
  note run = trans[OF call_loop.simps[symmetric] 1(5)]
  show ?case
  proof (cases "attempt < ATTEMPTS")
    case False
    with run give_up_ok show ?thesis by (auto split: prod.splits)
  next
    case True
    obtain t cl1 w1 where tok: "token_now env cl w = (t, cl1, w1)" by (metis prod_cases3)
    have same: "answer_ok env ca cl = answer_ok env ca cl1"
      using token_now_account[OF tok] by (intro answer_ok_cong) (simp add: same_account_def)
    show ?thesis
    proof (cases t)
      case (Token tk)
      obtain x w2 where http: "env_http env (send_request ca tk) w1 = (x, w2)" by (metis surj_pair)
      note run1 = run[simplified True tok Token, simplified]
      show ?thesis
      proof (cases x)
        case (Lost e)
        with 1(3) True tok Token http run1 show ?thesis by (simp add: same)
      next
        case Failed
        with run1 http show ?thesis by simp
      next
        case (Responded r)
        show ?thesis
        proof (cases "on_response env ca retried cl1 dbo w2 r")
          case (Done res2 cl2 d2)
          with run1 http Responded on_response_ok[of env ca retried cl1 dbo w2 r] show ?thesis by (simp add: same)
        next
          case (Again e)
          with 1(1) True tok Token http Responded run1 show ?thesis by (simp add: same)
        next
          case (Relogin cl2)
          with on_response_marina have m: "answer_ok env ca cl1 = answer_ok env ca cl2" by (metis answer_ok_cong)
          from Relogin run1 http Responded have "\<not> retried" by (auto split: if_splits)
          with 1(2) True tok Token http Responded Relogin run1 show ?thesis by (simp add: same m)
        qed
      qed
    next
      case Refused
      with run True tok show ?thesis by (auto simp: answer_ok_def)
    next
      case (TokenLost e)
      with 1(4) True tok run show ?thesis by (simp add: same)
    next
      case TokenCrash
      with run True tok show ?thesis by simp
    qed
  qed
qed

text \<open>
  C22. Every call ends in one outcome that has a sentence for the user and says honestly where
  its data is from: fresh data only after a 2xx answer, stale data only for a read, marked as
  stale, and only the row kept for this marina, this endpoint, these parameters and this
  cabinet server, with the time it was read. No other outcome carries data.
\<close>

theorem call_answer_is_honest:
  assumes "call env key params query body cl dbo w = (Inr out, cl', d', w')"
  shows "known_code (oc_code out) \<and> oc_endpoint_key out = key
    \<and> (oc_is_stale out \<longleftrightarrow> oc_code out \<in> {''stale'', ''no_contact''})
    \<and> (oc_data out \<noteq> Json JNull \<longrightarrow> oc_code out \<in> {''ok'', ''stale''})
    \<and> (oc_code out = ''ok'' \<longrightarrow> (\<exists>s. oc_http_status out = Some s \<and> 200 \<le> s \<and> s < 300))
    \<and> (oc_code out = ''stale'' \<longrightarrow> endpoint_method key = ''GET'' \<and> (\<exists>path j. build_path key params = Inr path
         \<and> oc_data out = Json j
         \<and> cache_get dbo (cl_marina_id cl) (server_cache_key cl key path query) = Some (j, oc_synced_at out)))"
proof (cases "build_path key params")
  case (Inl e)
  with assms show ?thesis by (auto simp: call_def)
next
  case (Inr path)
  show ?thesis
  proof (cases "is_known_not_enabled cl key (env_now env w)")
    case True
    with assms Inr show ?thesis by (auto simp: call_def)
  next
    case False
    with assms Inr call_loop_ok show ?thesis
      by (fastforce simp: call_def answer_ok_def)
  qed
qed

text \<open>
  C23. After the cabinet says that a function is not enabled, the client leaves it alone for an
  hour: until then a call of that endpoint, with whatever parameters, answers "not enabled" at
  once, sends nothing, and changes neither the client nor the database.
\<close>

theorem not_enabled_is_left_alone:
  assumes "call env key params query body cl dbo w = (Inr out, cl', d', w')"
    and "oc_code out = ''not_enabled''" and "oc_http_status out \<noteq> None"
    and "env_now env w2 < env_now env w' + hours 1" and "build_path key params2 = Inr path2"
  shows "call env key params2 query2 body2 cl' dbo2 w2 = (Inr (outcome ''not_enabled'' key), cl', dbo2, w2)"
proof -
  obtain path where "build_path key params = Inr path"
    using assms(1,2) by (cases "build_path key params") (auto simp: call_def)
  with assms(1-3) have "cl_not_enabled_until cl' key = Some (env_now env w' + hours 1)"
    using call_loop_ok by (fastforce simp: call_def answer_ok_def NOT_ENABLED_RETRY_def split: if_splits)
  with assms(4,5) show ?thesis by (simp add: call_def is_known_not_enabled_def)
qed

section \<open>Concrete calls\<close>

text \<open>A network that is down, one whose gateway refuses every endpoint, a client and a cache row.\<close>

definition env_with :: "(http_request \<Rightarrow> http_result) \<Rightarrow> int cab_env" where
  "env_with f = \<lparr>env_now = (\<lambda>w. w), env_http = (\<lambda>rq w. (f rq, w + 1)), env_sleep = (\<lambda>s w. w + 1),
     env_jwt_exp = (\<lambda>_. Inr None), env_dumps = (\<lambda>_. [])\<rparr>"

definition reply :: "int \<Rightarrow> json \<Rightarrow> http_result" where
  "reply s j = Responded \<lparr>rs_status = s, rs_json_type = True, rs_json = Some j, rs_text = [], rs_content = []\<rparr>"

definition down_env :: "int cab_env" where "down_env = env_with (\<lambda>_. Lost ''down'')"

definition refusing_env :: "int cab_env" where
  "refusing_env = env_with (\<lambda>rq. if rq_auth rq = Anonymous then reply 200 (JObj [(''access_token'', JStr ''t'')])
     else reply 403 (JObj [(''detail'', JStr ''Endpoint not allowed'')]))"

definition sample_client :: client where
  "sample_client = new_client 1 ''http://c/'' ''e'' ''p'' (Some ''k'')"

definition cached_db :: db where
  "cached_db = empty_db\<lparr>db_cache := [\<lparr>pc_id = 1, pc_marina_id = 1, pc_pedestal_id = None,
     pc_cache_key = Some ''berths.list:/api/ext/berths@http://c'', pc_last_seen_data = JInt 5,
     pc_last_synced_at = Some 3, pc_is_stale = False, pc_last_temperature = None,
     pc_last_temperature_alarm = None, pc_last_temperature_at = None, pc_last_readings = None\<rparr>]\<rparr>"

lemma stale_call:
  "\<exists>out cl' d' w'. list_berths down_env sample_client (Some cached_db) 10 = (Inr out, cl', d', w')
     \<and> oc_code out = ''stale'' \<and> oc_synced_at out = Some 3"
proof -
  have "case list_berths down_env sample_client (Some cached_db) 10 of
      (Inr out, _) \<Rightarrow> oc_code out = ''stale'' \<and> oc_synced_at out = Some 3 | _ \<Rightarrow> False" by code_simp
  then show ?thesis by (auto split: prod.splits sum.splits)
qed

theorem call_answer_is_honest_witness:
  "\<exists>out cl' d' w'. call down_env ''berths.list'' [] [] NoBody sample_client (Some cached_db) 10 = (Inr out, cl', d', w')
     \<and> oc_is_stale out \<and> (\<exists>j. oc_data out = Json j)"
proof -
  obtain out cl' d' w' where o1: "call down_env ''berths.list'' [] [] NoBody sample_client (Some cached_db) 10 = (Inr out, cl', d', w')"
    "oc_code out = ''stale''" using stale_call by (auto simp: list_berths_def get_plain_def)
  from call_answer_is_honest[OF o1(1)] o1 show ?thesis by auto
qed

theorem call_bounded_witness:
  "case call (recording down_env) ''berths.list'' [] [] NoBody sample_client None (10, []) of (res, cl', d', (w', sent)) \<Rightarrow>
     length (filter (\<lambda>rq. rq = token_request sample_client) sent) \<le> 4
   \<and> length (filter (\<lambda>rq. rq \<noteq> token_request sample_client) sent) \<le> 4 \<and> length sent = 3"
proof -
  have n: "case call (recording down_env) ''berths.list'' [] [] NoBody sample_client None (10, []) of
      (res, cl', d', (w', sent)) \<Rightarrow> length sent = 3" by code_simp
  show ?thesis using n call_bounded[where env = down_env and key = "''berths.list''" and params = "[]" and query = "[]"
      and body = NoBody and cl = sample_client and dbo = None and w = 10]
    by (simp split: prod.splits)
qed

lemma refused_call:
  "\<exists>out cl' d' w'. call refusing_env ''berths.list'' [] [] NoBody sample_client None 10 = (Inr out, cl', d', w')
     \<and> oc_code out = ''not_enabled'' \<and> oc_http_status out = Some 403 \<and> w' = 12"
proof -
  have "case call refusing_env ''berths.list'' [] [] NoBody sample_client None 10 of
      (Inr out, _, _, w') \<Rightarrow> oc_code out = ''not_enabled'' \<and> oc_http_status out = Some 403 \<and> w' = 12 | _ \<Rightarrow> False"
    by code_simp
  then show ?thesis by (auto split: prod.splits sum.splits)
qed

theorem not_enabled_is_left_alone_witness:
  "\<exists>cl'. call refusing_env ''berths.list'' [] [] NoBody cl' None 1000000000 = (Inr (outcome ''not_enabled'' ''berths.list''), cl', None, 1000000000)"
proof -
  obtain out cl' d' w' where o1: "call refusing_env ''berths.list'' [] [] NoBody sample_client None 10 = (Inr out, cl', d', w')"
    "oc_code out = ''not_enabled''" "oc_http_status out = Some 403" "w' = 12" using refused_call by blast
  have p: "build_path ''berths.list'' [] = Inr ''/api/ext/berths''" by code_simp
  have t: "env_now refusing_env 1000000000 < env_now refusing_env w' + hours 1"
    by (simp add: refusing_env_def env_with_def o1(4) tdelta_defs)
  from not_enabled_is_left_alone[OF o1(1,2) _ t p] o1(3) show ?thesis by auto
qed

end
