(* ===== verification/Berth_View.thy ===== *)
theory Berth_View
  imports Berth_Status Cabinet_Client
begin

text \<open>
  \<open>cabinet/berth_view.py\<close> and \<open>cabinet/cabinet_config.py\<close>: the berths a screen shows, computed from
  the cabinet's answers and the ERP's own data. A control is in the result only when it can
  work; whatever the cabinet sent, a berth's status is \<open>compute\<close> of the signals read from it.

  An answer of another shape makes the code raise somewhere; that is \<open>Inl\<close> here, whichever
  exception it is. \<open>str\<close> of a number that is not an integer is a parameter.
\<close>

section \<open>The ERP's own data on a cabinet\<close>

record cabinet_config =
  cc_device_type :: "string option"
  cc_berth_outlets :: "(int \<times> string list) list"

definition has_water :: "cabinet_config \<Rightarrow> bool" where
  "has_water cc \<longleftrightarrow> cc_device_type cc = Some ''full''"

definition outlets_for :: "cabinet_config \<Rightarrow> json \<Rightarrow> string list" where
  "outlets_for cc bid =
     (let outs = (case find (\<lambda>(b, _). jint_eq b bid) (cc_berth_outlets cc) of Some (_, os) \<Rightarrow> os | None \<Rightarrow> [])
      in if has_water cc then outs else filter (\<lambda>o1. starts_with o1 ''Q'') outs)"

definition berths_sharing :: "cabinet_config \<Rightarrow> string \<Rightarrow> json \<Rightarrow> int list" where
  "berths_sharing cc outlet bid =
     sort (map fst (filter (\<lambda>(b, outs). outlet \<in> set outs \<and> \<not> jint_eq b bid) (cc_berth_outlets cc)))"

text \<open>\<open>load\<close>: nothing is guessed for a marina without a cabinet.\<close>

fun add_outlet :: "int \<Rightarrow> string \<Rightarrow> (int \<times> string list) list \<Rightarrow> (int \<times> string list) list" where
  "add_outlet b name [] = [(b, [name])]"
| "add_outlet b name ((b', os) # m) = (if b' = b then (b', os @ [name]) # m else (b', os) # add_outlet b name m)"

definition mapped_outlets :: "db \<Rightarrow> nat \<Rightarrow> (int \<times> string) list" where
  "mapped_outlets d mid = sort_key snd (concat (map (\<lambda>b. case ber_cabinet_berth_id b of
      None \<Rightarrow> []
    | Some cb \<Rightarrow> concat (map (\<lambda>bo. if bo_berth_id bo = ber_id b
         then map (\<lambda>o1. (cb, out_outlet_name o1)) (filter (\<lambda>o1. out_id o1 = bo_outlet_id bo) (db_outlets d)) else [])
        (db_berth_outlets d)))
    (filter (\<lambda>b. ber_marina_id b = mid) (db_berths d))))"

definition load_config :: "nat \<Rightarrow> db \<Rightarrow> cabinet_config" where
  "load_config mid d =
     (let cabs = filter (\<lambda>c. cab_marina_id c = mid) (db_cabinets d) in
      if cabs = [] then \<lparr>cc_device_type = None, cc_berth_outlets = []\<rparr>
      else \<lparr>cc_device_type = Some (if list_ex (\<lambda>c. cab_device_type c = ''full'') cabs then ''full'' else ''retrofit''),
            cc_berth_outlets = foldl (\<lambda>m (b, name). add_outlet b name m) [] (mapped_outlets d mid)\<rparr>)"

section \<open>Reading the answers\<close>

definition parse_iso :: "json \<Rightarrow> sync_error + dtime option" where
  "parse_iso v =
     (if \<not> jtrue v then Inr None
      else (case v of
              JStr s \<Rightarrow> (case parse_utc (Some s) of Inr t \<Rightarrow> Inr t | Inl _ \<Rightarrow> Inr None)
            | _ \<Rightarrow> Inl sync_error.Crash))"

record occupancy =
  oy_berth_id :: json
  oy_name :: json
  oy_occupied :: "bool option"
  oy_last_analyzed :: json
  oy_note :: json

definition occupancy_of :: "json \<Rightarrow> sync_error + occupancy" where
  "occupancy_of v = (case v of
     JObj b \<Rightarrow> Inr \<lparr>oy_berth_id = jget b ''berth_id'', oy_name = jget b ''berth_name'',
       oy_occupied = (case jget b ''occupied'' of JBool o1 \<Rightarrow> Some o1 | _ \<Rightarrow> None),
       oy_last_analyzed = jget b ''last_analyzed'', oy_note = jget b ''note''\<rparr>
   | _ \<Rightarrow> Inl sync_error.Crash)"

fun all_rows :: "('a \<Rightarrow> sync_error + 'b) \<Rightarrow> 'a list \<Rightarrow> sync_error + 'b list" where
  "all_rows f [] = Inr []"
| "all_rows f (x # xs) = sbind (f x) (\<lambda>y. sbind (all_rows f xs) (\<lambda>ys. Inr (y # ys)))"

text \<open>\<open>for x in v\<close> over a value whose elements must be objects.\<close>

definition iter_rows :: "json \<Rightarrow> sync_error + json list" where
  "iter_rows v = (case v of JList vs \<Rightarrow> Inr vs | JObj [] \<Rightarrow> Inr [] | JStr [] \<Rightarrow> Inr [] | _ \<Rightarrow> Inl sync_error.Crash)"

definition iter_or_empty :: "json \<Rightarrow> sync_error + json list" where
  "iter_or_empty v = (if jtrue v then iter_rows v else Inr [])"

definition parse_occupancy :: "json \<Rightarrow> sync_error + occupancy list" where
  "parse_occupancy body = (if \<not> jtrue body then Inr [] else (case body of
     JObj ob \<Rightarrow> sbind (iter_or_empty (jget ob ''berths'')) (all_rows occupancy_of)
   | _ \<Rightarrow> Inl sync_error.Crash))"

definition outlet_name :: "json \<Rightarrow> sync_error + string" where
  "outlet_name v = (case py_int v of Inr i \<Rightarrow> Inr (CHR ''Q'' # int_str i) | Inl _ \<Rightarrow> Inl sync_error.Crash)"

definition SWITCH :: "string \<Rightarrow> string option" where
  "SWITCH = map_of [(''active'', ''on''), (''idle'', ''off''), (''pending'', ''off'')]"

definition CONTROLS_FOR :: "string \<Rightarrow> string list" where
  "CONTROLS_FOR sw = (if sw = ''on'' then [''stop''] else if sw = ''off'' then [''activate''] else [''activate'', ''stop''])"

definition switch_of :: "json \<Rightarrow> sync_error + string" where
  "switch_of state =
     (if jtrue state \<and> \<not> hashable state then Inl sync_error.Crash
      else Inr (case state of JStr s \<Rightarrow> or_else (SWITCH s) ''unknown'' | _ \<Rightarrow> ''unknown''))"

record reading_row =
  er_phases :: json
  er_rated_amps :: json
  er_current_amps :: "json list"
  er_power_kw :: json
  er_load_status :: json
  er_state :: json

definition electricity_reading :: "(string \<times> json) list \<Rightarrow> reading_row" where
  "electricity_reading r =
     \<lparr>er_phases = jget r ''phases'', er_rated_amps = jget r ''rated_amps'',
      er_current_amps = (if jint_eq 3 (jget r ''phases'') then [jget r ''current_l1'', jget r ''current_l2'', jget r ''current_l3'']
        else [jget r ''current_amps'']),
      er_power_kw = jget r ''power_kw'', er_load_status = jget r ''load_status'',
      er_state = (if jtrue (jget r ''display_state'') then jget r ''display_state'' else JStr ''unknown'')\<rparr>"

text \<open>The answer's data, where the outcome has any.\<close>

definition data_of :: "Outcome option \<Rightarrow> json option" where
  "data_of out = (case out of
     None \<Rightarrow> None
   | Some o1 \<Rightarrow> if has_data o1 then (case oc_data o1 of Json j \<Rightarrow> Some j | Bytes s \<Rightarrow> Some (JStr s)) else None)"

definition object_data :: "Outcome option \<Rightarrow> (string \<times> json) list" where
  "object_data out = (case data_of out of Some (JObj ob) \<Rightarrow> ob | _ \<Rightarrow> [])"

definition list_data :: "Outcome option \<Rightarrow> json list" where
  "list_data out = (case data_of out of Some (JList vs) \<Rightarrow> vs | _ \<Rightarrow> [])"

definition rows_data :: "Outcome option \<Rightarrow> sync_error + json list" where
  "rows_data out = (case data_of out of None \<Rightarrow> Inr [] | Some v \<Rightarrow> iter_or_empty v)"

text \<open>Two values as keys of one dictionary.\<close>

definition key_eq :: "json \<Rightarrow> json \<Rightarrow> bool" where
  "key_eq a b = (case a of JInt i \<Rightarrow> jint_eq i b | _ \<Rightarrow> (case b of JInt i \<Rightarrow> jint_eq i a | _ \<Rightarrow> a = b))"

definition alarm_type_of :: "json \<Rightarrow> sync_error + json \<times> json" where
  "alarm_type_of v = (case v of
     JObj a \<Rightarrow> if hashable (jget a ''pedestal_id'') \<and> hashable (jget a ''alarm_type'')
       then Inr (jget a ''pedestal_id'', jget a ''alarm_type'') else Inl sync_error.Crash
   | _ \<Rightarrow> Inl sync_error.Crash)"

text \<open>\<open>_sockets\<close>, and the rows of every cabinet under their outlet's name.\<close>

definition sockets_of :: "Outcome \<Rightarrow> sync_error + json list" where
  "sockets_of out = (case data_of (Some out) of
     None \<Rightarrow> Inr []
   | Some v \<Rightarrow> if \<not> jtrue v then Inr []
       else (case v of JObj ob \<Rightarrow> (case map_of ob ''sockets'' of None \<Rightarrow> Inr [] | Some w \<Rightarrow> iter_rows w) | _ \<Rightarrow> Inl sync_error.Crash))"

type_synonym socket_table = "(int \<times> string \<times> (string \<times> json) list) list"

definition socket_row :: "int \<Rightarrow> json \<Rightarrow> sync_error + int \<times> string \<times> (string \<times> json) list" where
  "socket_row pk v = (case v of
     JObj r \<Rightarrow> (case map_of r ''socket_id'' of
         None \<Rightarrow> Inl sync_error.Crash
       | Some s \<Rightarrow> sbind (outlet_name s) (\<lambda>name. Inr (pk, name, r)))
   | _ \<Rightarrow> Inl sync_error.Crash)"

fun socket_rows :: "(int \<times> Outcome) list \<Rightarrow> sync_error + socket_table" where
  "socket_rows [] = Inr []"
| "socket_rows ((pk, out) # os) =
     sbind (sockets_of out) (\<lambda>vs. sbind (all_rows (socket_row pk) vs) (\<lambda>rs.
       sbind (socket_rows os) (\<lambda>rest. Inr (rs @ rest))))"

text \<open>A later row of the same socket replaces an earlier one.\<close>

definition row_at :: "socket_table \<Rightarrow> json \<Rightarrow> string \<Rightarrow> (string \<times> json) list option" where
  "row_at rs pk name = map_option (\<lambda>(_, _, r). r) (find (\<lambda>(p, n, _). jint_eq p pk \<and> n = name) (rev rs))"

text \<open>Only an electricity session makes power; \<open>None\<close> for a session that makes none.\<close>

definition powered :: "json \<Rightarrow> sync_error + (json \<times> string) option" where
  "powered v = (case v of
     JObj s \<Rightarrow> if jget s ''type'' = JStr ''electricity'' \<and> jget s ''socket_id'' \<noteq> JNull
       then sbind (outlet_name (jget s ''socket_id'')) (\<lambda>name.
         if hashable (jget s ''pedestal_id'') then Inr (Some (jget s ''pedestal_id'', name)) else Inl sync_error.Crash)
       else Inr None
   | _ \<Rightarrow> Inl sync_error.Crash)"

section \<open>One berth\<close>

record answers =
  an_cabinets :: "(string \<times> json) list"
  an_status :: "(int \<times> Outcome) list"
  an_alarm_types :: "(json \<times> json) list"
  an_loads :: socket_table
  an_breakers :: socket_table
  an_powered :: "(json \<times> string) list"
  an_stale :: bool
  an_synced_at :: "dtime option"

definition str_key :: "(json \<Rightarrow> string) \<Rightarrow> json \<Rightarrow> string" where
  "str_key str_of v = (case v of JInt i \<Rightarrow> int_str i | JStr s \<Rightarrow> s | _ \<Rightarrow> str_of v)"

text \<open>\<open>cab(pk)\<close>: what \<open>pedestals.health\<close> says of the berth's cabinet; a value that is no object has no \<open>get\<close>.\<close>

definition health_of :: "(json \<Rightarrow> string) \<Rightarrow> answers \<Rightarrow> json \<Rightarrow> sync_error + (string \<times> json) list" where
  "health_of str_of an pk =
     (if pk = JNull then Inr []
      else (case map_of (an_cabinets an) (str_key str_of pk) of
              None \<Rightarrow> Inr [] | Some (JObj c) \<Rightarrow> Inr c | Some _ \<Rightarrow> Inl sync_error.Crash))"

definition part_alarm :: "(string \<times> json) list \<Rightarrow> string \<Rightarrow> sync_error + bool" where
  "part_alarm st k = (let v = jget st k in
     if \<not> jtrue v then Inr False
     else (case v of JObj p \<Rightarrow> Inr (jtrue (jget p ''alarm'')) | _ \<Rightarrow> Inl sync_error.Crash))"

definition code_of :: "json \<Rightarrow> int option" where
  "code_of v = (if jint_eq 0 v then Some 0 else if jint_eq 1 v then Some 1 else if jint_eq 2 v then Some 2 else None)"

definition berth_signals_of ::
    "(json \<Rightarrow> string) \<Rightarrow> answers \<Rightarrow> cabinet_config \<Rightarrow> dtime \<Rightarrow> int list option \<Rightarrow> (string \<times> json) list
     \<Rightarrow> sync_error + berth_signals" where
  "berth_signals_of str_of an cc now reserved b =
     (let bid = jget b ''id''; pk = jget b ''pedestal_id'';
          elec = filter (\<lambda>o1. starts_with o1 ''Q'') (outlets_for cc bid);
          types = map snd (filter (\<lambda>(p, _). key_eq p pk) (an_alarm_types an));
          st = object_data (map_option snd (find (\<lambda>(p, _). jint_eq p pk) (an_status an)))
      in if \<not> hashable bid \<or> \<not> hashable pk then Inl sync_error.Crash
         else sbind (health_of str_of an pk) (\<lambda>c.
           sbind (parse_iso (jget c ''last_heartbeat'')) (\<lambda>hb.
           sbind (part_alarm st ''moisture'') (\<lambda>leak.
           sbind (part_alarm st ''temperature'') (\<lambda>hot.
           sbind (parse_iso (jget b ''last_analyzed'')) (\<lambda>analyzed.
             Inr ((BerthSignals now hb (case jget c ''smart_mode'' of JBool m \<Rightarrow> Some m | _ \<Rightarrow> None))
               \<lparr>sig_data_is_stale := an_stale an, sig_data_synced_at := an_synced_at an,
                sig_water_leak := leak \<or> JStr ''moisture'' \<in> set types,
                sig_too_hot := hot \<or> JStr ''temperature'' \<in> set types,
                sig_auto_off_overload := list_ex (\<lambda>o1. jget (or_else (row_at (an_loads an) pk o1) []) ''load_status'' = JStr ''auto_stop'') elec,
                sig_breaker_tripped := list_ex (\<lambda>o1. jget (or_else (row_at (an_breakers an) pk o1) []) ''breaker_state'' = JStr ''tripped'') elec,
                sig_state_code := code_of (jget b ''state_code''), sig_last_analyzed := analyzed,
                sig_power_active := (if elec = [] then None
                  else Some (list_ex (\<lambda>o1. list_ex (\<lambda>(p, n). key_eq p pk \<and> n = o1) (an_powered an)) elec)),
                sig_reserved := map_option (list_ex (\<lambda>r. jint_eq r bid)) reserved\<rparr>)))))))"

record outlet_view =
  ov_name :: string
  ov_medium :: string
  ov_reading :: "reading_row option"
  ov_breaker_tripped :: "bool option"
  ov_rated_lpm :: "int option"
  ov_shared_with :: "int list"
  ov_switch :: string
  ov_controls :: "string list option"

text \<open>\<open>None\<close> for a socket the cabinet does not report.\<close>

definition outlet_view_of ::
    "answers \<Rightarrow> cabinet_config \<Rightarrow> bool \<Rightarrow> json \<Rightarrow> json \<Rightarrow> string \<Rightarrow> sync_error + outlet_view option" where
  "outlet_view_of an cc can_control bid pk name =
     (let socket = starts_with name ''Q''; row = row_at (an_loads an) pk name;
          reading = (if socket then map_option electricity_reading row else None);
          state = (case reading of Some r \<Rightarrow> er_state r | None \<Rightarrow> JStr ''unknown'')
      in if socket \<and> row = None then Inr None
         else sbind (switch_of state) (\<lambda>sw. Inr (Some
           \<lparr>ov_name = name, ov_medium = (if socket then ''electricity'' else ''water''), ov_reading = reading,
            ov_breaker_tripped = (if socket
              then Some (jget (or_else (row_at (an_breakers an) pk name) []) ''breaker_state'' = JStr ''tripped'') else None),
            ov_rated_lpm = (if socket then None else Some 20), ov_shared_with = berths_sharing cc name bid,
            ov_switch = sw, ov_controls = (if can_control then Some (CONTROLS_FOR sw) else None)\<rparr>)))"

record berth_row =
  bw_berth_id :: json
  bw_name :: json
  bw_pedestal_pk :: json
  bw_display_id :: json
  bw_status :: berth_status
  bw_outlets :: "outlet_view list"

definition may_control :: "bool \<Rightarrow> berth_status \<Rightarrow> bool" where
  "may_control enabled st \<longleftrightarrow> enabled \<and> bst_status_code st \<notin> {''no_contact'', ''standalone'', ''outlet_silent''}
     \<and> bst_connection st = ''ONLINE''"

definition berth_row_of ::
    "(json \<Rightarrow> string) \<Rightarrow> answers \<Rightarrow> cabinet_config \<Rightarrow> bool \<Rightarrow> dtime \<Rightarrow> int list option \<Rightarrow> json \<Rightarrow> sync_error + berth_row" where
  "berth_row_of str_of an cc enabled now reserved v = (case v of
     JObj b \<Rightarrow>
       sbind (berth_signals_of str_of an cc now reserved b) (\<lambda>s.
         (let bid = jget b ''id''; pk = jget b ''pedestal_id''; st = compute s in
          sbind (all_rows (outlet_view_of an cc (may_control enabled st) bid pk) (outlets_for cc bid)) (\<lambda>os.
          sbind (health_of str_of an pk) (\<lambda>c.
            Inr \<lparr>bw_berth_id = bid, bw_name = jget b ''name'', bw_pedestal_pk = pk,
                 bw_display_id = jget c ''opta_client_id'', bw_status = st, bw_outlets = List.map_filter id os\<rparr>))))
   | _ \<Rightarrow> Inl sync_error.Crash)"

section \<open>The whole list\<close>

record reads =
  rd_health :: Outcome
  rd_berths :: Outcome
  rd_status :: "(int \<times> Outcome) list"
  rd_load :: "(int \<times> Outcome) list"
  rd_breakers :: "(int \<times> Outcome) list"
  rd_alarms :: "Outcome option"
  rd_sessions :: "Outcome option"

definition all_reads :: "reads \<Rightarrow> Outcome list" where
  "all_reads rd = [rd_health rd, rd_berths rd] @ List.map_filter id [rd_alarms rd, rd_sessions rd]
     @ map snd (rd_status rd) @ map snd (rd_load rd) @ map snd (rd_breakers rd)"

definition min_opt :: "dtime list \<Rightarrow> dtime option" where
  "min_opt ts = (case ts of [] \<Rightarrow> None | t # us \<Rightarrow> Some (foldl min t us))"

definition answers_of :: "reads \<Rightarrow> sync_error + answers" where
  "answers_of rd =
     sbind (sbind (rows_data (rd_alarms rd)) (all_rows alarm_type_of)) (\<lambda>types.
     sbind (socket_rows (rd_load rd)) (\<lambda>loads.
     sbind (socket_rows (rd_breakers rd)) (\<lambda>trips.
     sbind (sbind (rows_data (rd_sessions rd)) (all_rows powered)) (\<lambda>power.
       (let stale = filter oc_is_stale (all_reads rd) in
        Inr \<lparr>an_cabinets = object_data (Some (rd_health rd)), an_status = rd_status rd, an_alarm_types = types,
             an_loads = loads, an_breakers = trips, an_powered = List.map_filter id power,
             an_stale = (stale \<noteq> []), an_synced_at = min_opt (List.map_filter oc_synced_at stale)\<rparr>)))))"

record view =
  vw_berths :: "berth_row list"
  vw_is_stale :: bool
  vw_outcome :: "public_outcome option"
  vw_device_type :: "string option"

definition build_view ::
    "(json \<Rightarrow> string) \<Rightarrow> reads \<Rightarrow> cabinet_config \<Rightarrow> bool \<Rightarrow> dtime \<Rightarrow> int list option \<Rightarrow> sync_error + view" where
  "build_view str_of rd cc enabled now reserved =
     sbind (answers_of rd) (\<lambda>an.
     sbind (all_rows (berth_row_of str_of an cc enabled now reserved) (list_data (Some (rd_berths rd)))) (\<lambda>rows.
       Inr \<lparr>vw_berths = rows, vw_is_stale = an_stale an, vw_outcome = public (rd_health rd), vw_device_type = cc_device_type cc\<rparr>))"

section \<open>When a control is drawn\<close>

lemma all_rows_mem: "all_rows f xs = Inr ys \<Longrightarrow> y \<in> set ys \<Longrightarrow> \<exists>x \<in> set xs. f x = Inr y"
  by (induction xs arbitrary: ys) (auto simp: sbind_Inr)

lemma build_view_row:
  assumes "build_view str_of rd cc enabled now reserved = Inr v" and "b \<in> set (vw_berths v)"
  obtains an x where "answers_of rd = Inr an" and "berth_row_of str_of an cc enabled now reserved x = Inr b"
  using assms all_rows_mem by (fastforce simp: build_view_def sbind_Inr)

lemma answers_facts:
  assumes "answers_of rd = Inr an"
  shows "an_cabinets an = object_data (Some (rd_health rd))" "socket_rows (rd_load rd) = Inr (an_loads an)"
    "an_stale an \<longleftrightarrow> (\<exists>out \<in> set (all_reads rd). oc_is_stale out)"
  using assms by (auto simp: answers_of_def sbind_Inr Let_def filter_empty_conv)

lemma berth_row_facts:
  assumes "berth_row_of str_of an cc enabled now reserved x = Inr b"
  obtains br s where "berth_signals_of str_of an cc now reserved br = Inr s" "bw_status b = compute s"
    "bw_berth_id b = jget br ''id''" "bw_pedestal_pk b = jget br ''pedestal_id''"
    "\<forall>o1 \<in> set (bw_outlets b). \<exists>name \<in> set (outlets_for cc (bw_berth_id b)).
       outlet_view_of an cc (may_control enabled (compute s)) (bw_berth_id b) (bw_pedestal_pk b) name = Inr (Some o1)"
proof -
  from assms obtain br s os c where x: "x = JObj br" "berth_signals_of str_of an cc now reserved br = Inr s"
    "all_rows (outlet_view_of an cc (may_control enabled (compute s)) (jget br ''id'') (jget br ''pedestal_id''))
       (outlets_for cc (jget br ''id'')) = Inr os"
    "b = \<lparr>bw_berth_id = jget br ''id'', bw_name = jget br ''name'', bw_pedestal_pk = jget br ''pedestal_id'',
       bw_display_id = jget c ''opta_client_id'', bw_status = compute s, bw_outlets = List.map_filter id os\<rparr>"
    by (auto simp: berth_row_of_def sbind_Inr Let_def split: json.splits)
  have "\<forall>o1 \<in> set (List.map_filter id os). Some o1 \<in> set os" by (auto simp: List.map_filter_def)
  with all_rows_mem[OF x(3)] have outs: "\<forall>o1 \<in> set (List.map_filter id os). \<exists>name \<in> set (outlets_for cc (jget br ''id'')).
      outlet_view_of an cc (may_control enabled (compute s)) (jget br ''id'') (jget br ''pedestal_id'') name = Inr (Some o1)"
    by blast
  show thesis by (rule that[of br s], simp_all only: x(2,4) berth_row.simps) (rule outs)
qed

lemma switch_unknown: "switch_of (JStr ''unknown'') = Inr ''unknown''"
  by code_simp

lemma outlet_view_facts:
  assumes "outlet_view_of an cc can bid pk name = Inr (Some o1)"
  shows "ov_name o1 = name" "ov_controls o1 = (if can then Some (CONTROLS_FOR (ov_switch o1)) else None)"
    "starts_with name ''Q'' \<Longrightarrow> \<exists>row. row_at (an_loads an) pk name = Some row \<and> ov_medium o1 = ''electricity''
       \<and> switch_of (er_state (electricity_reading row)) = Inr (ov_switch o1)"
    "\<not> starts_with name ''Q'' \<Longrightarrow> ov_medium o1 = ''water'' \<and> ov_switch o1 = ''unknown''"
proof -
  have shape: "ov_name o1 = name \<and> ov_controls o1 = (if can then Some (CONTROLS_FOR (ov_switch o1)) else None)
     \<and> ov_medium o1 = (if starts_with name ''Q'' then ''electricity'' else ''water'')"
    using assms by (auto simp: outlet_view_of_def sbind_Inr Let_def split: if_splits)
  then show "ov_name o1 = name" "ov_controls o1 = (if can then Some (CONTROLS_FOR (ov_switch o1)) else None)" by simp_all
  show "\<exists>row. row_at (an_loads an) pk name = Some row \<and> ov_medium o1 = ''electricity''
      \<and> switch_of (er_state (electricity_reading row)) = Inr (ov_switch o1)" if "starts_with name ''Q''"
  proof (cases "row_at (an_loads an) pk name")
    case None with assms that show ?thesis by (simp add: outlet_view_of_def Let_def)
  next
    case (Some row) with assms that shape show ?thesis
      by (auto simp: outlet_view_of_def sbind_Inr Let_def dest: arg_cong[where f = ov_switch])
  qed
  show "ov_medium o1 = ''water'' \<and> ov_switch o1 = ''unknown''" if "\<not> starts_with name ''Q''"
    using assms that shape
    by (auto simp: outlet_view_of_def Let_def switch_unknown dest: arg_cong[where f = ov_switch])
qed

lemma signals_facts:
  assumes "berth_signals_of str_of an cc now reserved br = Inr s"
  shows "sig_now s = now" "sig_data_is_stale s = an_stale an" "sig_heartbeat_interval s = DEFAULT_HEARTBEAT_INTERVAL"
    "sig_has_cabinet s" "\<exists>c. health_of str_of an (jget br ''pedestal_id'') = Inr c \<and> parse_iso (jget c ''last_heartbeat'') = Inr (sig_last_heartbeat s)
       \<and> sig_smart_mode s = (case jget c ''smart_mode'' of JBool m \<Rightarrow> Some m | _ \<Rightarrow> None)"
  using assms by (auto simp: berth_signals_of_def sbind_Inr Let_def BerthSignals_def split: if_splits)

lemma parse_iso_Some: "parse_iso v = Inr (Some hb) \<Longrightarrow> \<exists>t. v = JStr t \<and> parse_utc (Some t) = Inr (Some hb)"
  by (auto simp: parse_iso_def split: if_splits json.splits sum.splits)

text \<open>A status that allows controls is one read from fresh answers of a cabinet in contact.\<close>

lemma may_control_signals:
  assumes "may_control enabled (compute s)" and "sig_heartbeat_interval s = DEFAULT_HEARTBEAT_INTERVAL" "sig_has_cabinet s"
  shows "enabled \<and> \<not> sig_data_is_stale s \<and> sig_smart_mode s \<noteq> Some False
    \<and> (\<exists>hb. sig_last_heartbeat s = Some hb \<and> sig_now s - hb \<le> minutes 2)"
  using assms
  by (auto simp: may_control_def compute_fields occupancy_row_cases connection_signal_def Let_def
      DEFAULT_HEARTBEAT_INTERVAL_def OFFLINE_AFTER_def minutes_def seconds_def split: if_splits option.splits)

text \<open>
  C38. A control is drawn only when it can work. Every outlet shown is one the ERP maps to the
  berth, a socket among them one the cabinet itself reports, water only on a full cabinet. If a
  control is offered there, the endpoints are enabled, not one of the answers behind the screen
  is stale, the berth's cabinet is not standing alone, and the heartbeat its health answer gives is at
  most two minutes old. A socket reported as active offers only "stop", an idle or pending one
  only "activate".
\<close>

theorem controls_only_when_they_work:
  assumes "build_view str_of rd cc enabled now reserved = Inr v" and "b \<in> set (vw_berths v)" and "o1 \<in> set (bw_outlets b)"
  shows "ov_name o1 \<in> set (outlets_for cc (bw_berth_id b)) \<and> (ov_medium o1 = ''water'' \<longrightarrow> has_water cc)
    \<and> (ov_medium o1 = ''electricity'' \<longrightarrow> (\<exists>loads row. socket_rows (rd_load rd) = Inr loads
         \<and> row_at loads (bw_pedestal_pk b) (ov_name o1) = Some row
         \<and> (ov_controls o1 \<noteq> None \<and> jget row ''display_state'' = JStr ''active'' \<longrightarrow> ov_controls o1 = Some [''stop''])
         \<and> (ov_controls o1 \<noteq> None \<and> jget row ''display_state'' \<in> {JStr ''idle'', JStr ''pending''} \<longrightarrow> ov_controls o1 = Some [''activate''])))
    \<and> (ov_controls o1 \<noteq> None \<longrightarrow> enabled \<and> (\<forall>out \<in> set (all_reads rd). \<not> oc_is_stale out)
         \<and> (\<exists>c t hb. map_of (object_data (Some (rd_health rd))) (str_key str_of (bw_pedestal_pk b)) = Some (JObj c)
              \<and> jget c ''last_heartbeat'' = JStr t \<and> parse_utc (Some t) = Inr (Some hb) \<and> now - hb \<le> minutes 2
              \<and> jget c ''smart_mode'' \<noteq> JBool False))"
proof -
  from assms(1,2) obtain an x where an: "answers_of rd = Inr an" and x: "berth_row_of str_of an cc enabled now reserved x = Inr b"
    by (rule build_view_row)
  from x obtain br s where s: "berth_signals_of str_of an cc now reserved br = Inr s" "bw_status b = compute s"
    "bw_berth_id b = jget br ''id''" "bw_pedestal_pk b = jget br ''pedestal_id''"
    and outs: "\<forall>o1 \<in> set (bw_outlets b). \<exists>name \<in> set (outlets_for cc (bw_berth_id b)).
       outlet_view_of an cc (may_control enabled (compute s)) (bw_berth_id b) (bw_pedestal_pk b) name = Inr (Some o1)"
    by (rule berth_row_facts)
  from outs assms(3) obtain name where name: "name \<in> set (outlets_for cc (bw_berth_id b))"
    and view: "outlet_view_of an cc (may_control enabled (compute s)) (bw_berth_id b) (bw_pedestal_pk b) name = Inr (Some o1)" by blast
  note o1 = outlet_view_facts[OF view]
  have water: "has_water cc" if "\<not> starts_with name ''Q''"
    using name that by (auto simp: outlets_for_def Let_def split: if_splits)
  have socket: "\<exists>row. row_at (an_loads an) (bw_pedestal_pk b) name = Some row
      \<and> (ov_controls o1 \<noteq> None \<and> jget row ''display_state'' = JStr ''active'' \<longrightarrow> ov_controls o1 = Some [''stop''])
      \<and> (ov_controls o1 \<noteq> None \<and> jget row ''display_state'' \<in> {JStr ''idle'', JStr ''pending''} \<longrightarrow> ov_controls o1 = Some [''activate''])"
    if "ov_medium o1 = ''electricity''"
  proof -
    from o1(3,4) that obtain row where row: "row_at (an_loads an) (bw_pedestal_pk b) name = Some row"
      "switch_of (er_state (electricity_reading row)) = Inr (ov_switch o1)" by force
    then show ?thesis
      by (intro exI[of _ row]) (auto simp: o1(2) electricity_reading_def switch_of_def SWITCH_def CONTROLS_FOR_def or_else_def
          split: if_splits)
  qed
  have drawn: "enabled \<and> (\<forall>out \<in> set (all_reads rd). \<not> oc_is_stale out)
      \<and> (\<exists>c t hb. map_of (object_data (Some (rd_health rd))) (str_key str_of (bw_pedestal_pk b)) = Some (JObj c)
           \<and> jget c ''last_heartbeat'' = JStr t \<and> parse_utc (Some t) = Inr (Some hb) \<and> now - hb \<le> minutes 2
           \<and> jget c ''smart_mode'' \<noteq> JBool False)" if "ov_controls o1 \<noteq> None"
  proof -
    from that o1(2) have "may_control enabled (compute s)" by (simp split: if_splits)
    note may = may_control_signals[OF this signals_facts(3,4)[OF s(1)]]
    from signals_facts(5)[OF s(1)] obtain c where c: "health_of str_of an (bw_pedestal_pk b) = Inr c"
      "parse_iso (jget c ''last_heartbeat'') = Inr (sig_last_heartbeat s)"
      "sig_smart_mode s = (case jget c ''smart_mode'' of JBool m \<Rightarrow> Some m | _ \<Rightarrow> None)" unfolding s(4) by blast
    from may obtain hb where hb: "sig_last_heartbeat s = Some hb" "now - hb \<le> minutes 2" using signals_facts(1)[OF s(1)] by auto
    from parse_iso_Some[OF c(2)[unfolded hb(1)]] obtain t where t: "jget c ''last_heartbeat'' = JStr t" "parse_utc (Some t) = Inr (Some hb)" by blast
    from t(1) have "c \<noteq> []" by (auto simp: jget_def)
    with c(1) have "map_of (an_cabinets an) (str_key str_of (bw_pedestal_pk b)) = Some (JObj c)"
      by (auto simp: health_of_def split: if_splits option.splits json.splits)
    moreover from c(3) may have "jget c ''smart_mode'' \<noteq> JBool False" by auto
    ultimately show ?thesis
      using may t hb(2) answers_facts(1,3)[OF an] signals_facts(2)[OF s(1)] by auto
  qed
  show ?thesis unfolding o1(1) using name water o1(3,4) socket drawn answers_facts(2)[OF an] by fastforce
qed

section \<open>A concrete screen\<close>

text \<open>One berth of one cabinet, seen a minute after its heartbeat, its socket active.\<close>

definition sample_reads :: reads where
  "sample_reads = (let ok = (\<lambda>key v. (outcome ''ok'' key)\<lparr>oc_data := Json v\<rparr>) in
     \<lparr>rd_health = ok ''pedestals.health'' (JObj [(''1'', JObj [(''last_heartbeat'', JStr ''1970-01-01T00:01:00''), (''smart_mode'', JBool True)])]),
      rd_berths = ok ''berths.list'' (JList [JObj [(''id'', JInt 7), (''name'', JStr ''A-07''), (''pedestal_id'', JInt 1)]]),
      rd_status = [],
      rd_load = [(1, ok ''load.pedestal_get_ext'' (JObj [(''sockets'', JList [JObj [(''socket_id'', JInt 1), (''display_state'', JStr ''active'')]])]))],
      rd_breakers = [], rd_alarms = None, rd_sessions = None\<rparr>)"

definition sample_cc :: cabinet_config where
  "sample_cc = \<lparr>cc_device_type = Some ''retrofit'', cc_berth_outlets = [(7, [''Q1''])]\<rparr>"

definition drawn_controls :: "sync_error + view \<Rightarrow> string list option list list option" where
  "drawn_controls r = (case r of Inl _ \<Rightarrow> None | Inr v \<Rightarrow> Some (map (\<lambda>b. map ov_controls (bw_outlets b)) (vw_berths v)))"

theorem controls_only_when_they_work_witness:
  "\<exists>v b o1. build_view (\<lambda>_. []) sample_reads sample_cc True (minutes 2) None = Inr v \<and> b \<in> set (vw_berths v)
     \<and> o1 \<in> set (bw_outlets b) \<and> ov_controls o1 = Some [''stop''] \<and> (\<forall>out \<in> set (all_reads sample_reads). \<not> oc_is_stale out)"
proof -
  let ?v = "build_view (\<lambda>_. []) sample_reads sample_cc True (minutes 2) None"
  have "drawn_controls ?v = Some [[Some [''stop'']]]" by code_simp
  then obtain v b o1 where v: "?v = Inr v" "b \<in> set (vw_berths v)" "o1 \<in> set (bw_outlets b)" "ov_controls o1 = Some [''stop'']"
    by (auto simp: drawn_controls_def map_eq_Cons_conv split: sum.splits)
  from controls_only_when_they_work[OF v(1-3)] v show ?thesis by (metis option.distinct(1))
qed

end
