(* ===== verification/Metering.thy ===== *)
theory Metering
  imports Session_Sync
begin

text \<open>
  Register readings (\<open>services/collector.py\<close>: \<open>_dec\<close>, \<open>record_reading\<close>, \<open>_store_load\<close>): a
  cumulative meter register per outlet becomes intervals of consumption. The lemmas say that
  the stored energy is the register's own movement, that the intervals of an outlet never
  overlap, run forward and are never negative, that consumption of a cabinet running on its
  own never carries a session, and that an idle outlet keeps one row.

  A register sent as the text "NaN" is not modelled (it would be stored and then break the
  comparison with the next reading).
\<close>

section \<open>Reading a register\<close>

text \<open>\<open>Decimal(s)\<close> of a finite decimal text: blanks around, sign, digits, point, exponent, underscores.\<close>

definition split_first :: "char list \<Rightarrow> string \<Rightarrow> string \<times> string option" where
  "split_first cs s =
     (case dropWhile (\<lambda>c. c \<notin> set cs) s of
        [] \<Rightarrow> (s, None)
      | _ # r \<Rightarrow> (takeWhile (\<lambda>c. c \<notin> set cs) s, Some r))"

definition read_signed :: "string \<Rightarrow> int option" where
  "read_signed s =
     (let neg = (s \<noteq> [] \<and> hd s = CHR ''-''); body = (if s \<noteq> [] \<and> is_sign (hd s) then tl s else s)
      in if all_digits body then Some ((if neg then - 1 else 1) * int (read_nat body)) else None)"

definition read_decimal :: "string \<Rightarrow> rat option" where
  "read_decimal s0 =
     (let s = filter (\<lambda>c. c \<noteq> CHR ''_'') (strip s0);
          neg = (s \<noteq> [] \<and> hd s = CHR ''-'');
          body = (if s \<noteq> [] \<and> is_sign (hd s) then tl s else s);
          (mant, ex) = split_first ''eE'' body;
          (whole, frac) = split_first ''.'' mant;
          fr = (case frac of None \<Rightarrow> [] | Some f \<Rightarrow> f);
          digits = whole @ fr;
          e = (case ex of None \<Rightarrow> Some 0 | Some x \<Rightarrow> read_signed x)
      in case e of
           None \<Rightarrow> None
         | Some k \<Rightarrow>
             if digits \<noteq> [] \<and> list_all is_digit digits
             then Some ((if neg then - 1 else 1) * of_nat (read_nat digits) * pow10 (k - int (length fr)))
             else None)"

text \<open>\<open>_dec\<close>: null, booleans and anything unreadable are "no reading"; so is a value whose
  four places need more than 28 digits.\<close>

definition dec4 :: "rat \<Rightarrow> rat option" where
  "dec4 x = (if \<bar>quantize 4 x\<bar> < 10 ^ 24 then Some (quantize 4 x) else None)"

definition dec_json :: "json \<Rightarrow> rat option" where
  "dec_json v = (case v of
     JInt i \<Rightarrow> dec4 (of_int i)
   | JFloat x \<Rightarrow> dec4 (float_repr x)
   | JStr s \<Rightarrow> Option.bind (read_decimal s) dec4
   | _ \<Rightarrow> None)"

section \<open>One reading\<close>

definition meter_of :: "db \<Rightarrow> nat \<Rightarrow> meter_state option" where
  "meter_of d oid = find (\<lambda>m. ms_outlet_id m = oid) (db_meter_states d)"

definition set_meter :: "nat \<Rightarrow> (meter_state \<Rightarrow> meter_state) \<Rightarrow> db \<Rightarrow> db" where
  "set_meter oid f d =
     d\<lparr>db_meter_states := update_where (\<lambda>m. ms_outlet_id m = oid) f (db_meter_states d)\<rparr>"

text \<open>The ERP session a difference belongs to: the newest active one of the outlet, and only
  while the cabinet is known to be in Smart Mode.\<close>

definition session_on :: "db \<Rightarrow> cabinet \<Rightarrow> outlet \<Rightarrow> nat option" where
  "session_on d cab o1 =
     (if cab_smart_mode cab = Some True
      then map_option ses_id
             (find (\<lambda>s. ses_outlet_id s = out_id o1 \<and> ses_status s = ''active'') (rev (db_sessions d)))
      else None)"

definition last_interval :: "db \<Rightarrow> meter_state \<Rightarrow> interval option" where
  "last_interval d st =
     Option.bind (ms_last_interval_id st)
       (\<lambda>i. if i = 0 then None else find (\<lambda>v. iv_id v = i) (db_intervals d))"

definition extends_idle :: "interval option \<Rightarrow> rat \<Rightarrow> nat option \<Rightarrow> bool \<Rightarrow> dtime \<Rightarrow> bool" where
  "extends_idle prev delta sid standalone read_at \<longleftrightarrow> delta = 0 \<and>
     (case prev of
        None \<Rightarrow> False
      | Some v \<Rightarrow> iv_energy_kwh v = Some 0 \<and> iv_session_id v = sid
                  \<and> iv_standalone v = standalone \<and> iv_to_at v = read_at)"

definition record_reading ::
    "db \<Rightarrow> cabinet \<Rightarrow> outlet \<Rightarrow> rat \<Rightarrow> dtime \<Rightarrow> string \<times> db" where
  "record_reading d cab o1 register_kwh at' =
     (case meter_of d (out_id o1) of
        None \<Rightarrow>
          (''seeded'',
           d\<lparr>db_meter_states := db_meter_states d @
               [\<lparr>ms_outlet_id = out_id o1, ms_energy_kwh = Some register_kwh, ms_read_at = at',
                 ms_last_interval_id = None\<rparr>]\<rparr>)
      | Some st \<Rightarrow>
          if at' \<le> ms_read_at st then (''not_newer'', d)
          else (case ms_energy_kwh st of
             None \<Rightarrow>
               (''reset'', set_meter (out_id o1)
                  (\<lambda>m. m\<lparr>ms_energy_kwh := Some register_kwh, ms_read_at := at', ms_last_interval_id := None\<rparr>) d)
           | Some prev_reg \<Rightarrow>
               if register_kwh < prev_reg then
                 (''reset'', set_meter (out_id o1)
                    (\<lambda>m. m\<lparr>ms_energy_kwh := Some register_kwh, ms_read_at := at', ms_last_interval_id := None\<rparr>) d)
               else
                 (let delta = register_kwh - prev_reg;
                      standalone = (cab_smart_mode cab = Some False);
                      sid = session_on d cab o1;
                      prev = last_interval d st
                  in if extends_idle prev delta sid standalone (ms_read_at st)
                     then (''extended'',
                           set_meter (out_id o1) (\<lambda>m. m\<lparr>ms_energy_kwh := Some register_kwh, ms_read_at := at'\<rparr>)
                             (d\<lparr>db_intervals := update_where (\<lambda>v. Some (iv_id v) = ms_last_interval_id st)
                                 (\<lambda>v. v\<lparr>iv_to_at := at', iv_meter_to := Some register_kwh\<rparr>) (db_intervals d)\<rparr>))
                     else (let i = next_id iv_id (db_intervals d) in
                           (''interval'',
                            set_meter (out_id o1)
                              (\<lambda>m. m\<lparr>ms_energy_kwh := Some register_kwh, ms_read_at := at',
                                     ms_last_interval_id := Some i\<rparr>)
                              (d\<lparr>db_intervals := db_intervals d @
                                  [\<lparr>iv_id = i, iv_outlet_id = out_id o1, iv_session_id = sid,
                                    iv_standalone = standalone, iv_from_at = ms_read_at st, iv_to_at = at',
                                    iv_energy_kwh = Some delta, iv_water_liters = None,
                                    iv_meter_from = Some prev_reg, iv_meter_to = Some register_kwh,
                                    iv_source = ''register''\<rparr>]\<rparr>))))))"

section \<open>A cabinet's load answer\<close>

text \<open>\<open>(v or 0) > 0\<close>: comparing a text or a container with a number raises.\<close>

definition positive :: "json \<Rightarrow> sync_error + bool" where
  "positive v =
     (if \<not> jtrue v then Inr False
      else case v of
        JBool _ \<Rightarrow> Inr True | JInt i \<Rightarrow> Inr (i > 0) | JFloat x \<Rightarrow> Inr (x > 0)
      | _ \<Rightarrow> Inl Crash)"

text \<open>\<open>power > 0 or current > 0\<close>: the second test is not evaluated when the first is true.\<close>

definition socket_busy :: "(string \<times> json) list \<Rightarrow> sync_error + bool" where
  "socket_busy sk =
     sbind (positive (jget sk ''power_kw'')) (\<lambda>b.
       if b then Inr True else positive (jget sk ''current_amps''))"

definition outlet_named :: "db \<Rightarrow> cabinet \<Rightarrow> string \<Rightarrow> outlet option" where
  "outlet_named d cab n =
     find (\<lambda>o1. out_cabinet_id o1 = cab_id cab \<and> out_outlet_name o1 = n) (rev (db_outlets d))"

definition store_socket ::
    "cabinet \<Rightarrow> dtime \<Rightarrow> json \<Rightarrow> string list \<times> bool \<times> db \<Rightarrow> sync_error + string list \<times> bool \<times> db" where
  "store_socket cab now v acc =
     (case acc of (answers, busy, d) \<Rightarrow>
       (case v of
          JObj sk \<Rightarrow>
            (case jget sk ''socket_id'' of
               JInt n \<Rightarrow>
                 (case (outlet_named d cab (''Q'' @ int_str n), dec_json (jget sk ''energy_kwh'')) of
                    (Some o1, Some reg) \<Rightarrow>
                      sbind (socket_busy sk) (\<lambda>b.
                        (case record_reading d cab o1 reg now of
                           (r, d') \<Rightarrow> Inr (answers @ [r], busy \<or> b, d')))
                  | _ \<Rightarrow> Inr acc)
             | _ \<Rightarrow> Inr acc)
        | _ \<Rightarrow> Inr acc))"

fun store_sockets ::
    "cabinet \<Rightarrow> dtime \<Rightarrow> json list \<Rightarrow> string list \<times> bool \<times> db \<Rightarrow> sync_error + string list \<times> bool \<times> db" where
  "store_sockets cab now [] acc = Inr acc"
| "store_sockets cab now (v # vs) acc = sbind (store_socket cab now v acc) (store_sockets cab now vs)"

text \<open>\<open>data.get("sockets") or []\<close>, iterated: a text or an object yields no socket objects, a
  number does not iterate.\<close>

definition socket_list :: "json \<Rightarrow> sync_error + json list" where
  "socket_list v = (if \<not> jtrue v then Inr []
     else case v of JList l \<Rightarrow> Inr l | JObj _ \<Rightarrow> Inr [] | JStr _ \<Rightarrow> Inr [] | _ \<Rightarrow> Inl Crash)"

definition store_load :: "db \<Rightarrow> cabinet \<Rightarrow> json \<Rightarrow> dtime \<Rightarrow> sync_error + string list \<times> bool \<times> db" where
  "store_load d cab sockets now =
     sbind (socket_list sockets) (\<lambda>l. store_sockets cab now l ([], False, d))"

section \<open>The meter of an outlet\<close>

lemma set_meter_sel [simp]:
  "db_intervals (set_meter oid f d) = db_intervals d" "db_sessions (set_meter oid f d) = db_sessions d"
  "db_outlets (set_meter oid f d) = db_outlets d" "db_monthly (set_meter oid f d) = db_monthly d"
  "db_meter_states (set_meter oid f d) = update_where (\<lambda>m. ms_outlet_id m = oid) f (db_meter_states d)"
  by (simp_all add: set_meter_def)

lemma meter_of_set:
  assumes "\<And>m. ms_outlet_id (f m) = ms_outlet_id m"
  shows "meter_of (set_meter oid f d) oid' =
    (if oid' = oid then map_option f (meter_of d oid') else meter_of d oid')"
proof -
  have "find (\<lambda>m. ms_outlet_id m = oid') (update_where (\<lambda>m. ms_outlet_id m = oid) f ms) =
     (if oid' = oid then map_option f (find (\<lambda>m. ms_outlet_id m = oid') ms)
      else find (\<lambda>m. ms_outlet_id m = oid') ms)" for ms
    using assms by (induction ms) auto
  then show ?thesis by (simp add: meter_of_def)
qed

lemma meter_of_intervals [simp]: "meter_of (d\<lparr>db_intervals := x\<rparr>) oid = meter_of d oid"
  by (simp add: meter_of_def)

text \<open>The branches of a reading, as a relation between the meter before and what is written.\<close>

lemma record_reading_cases:
  obtains (seeded) "meter_of d (out_id o1) = None"
      "record_reading d cab o1 reg at' = (''seeded'', d\<lparr>db_meter_states := db_meter_states d @
         [\<lparr>ms_outlet_id = out_id o1, ms_energy_kwh = Some reg, ms_read_at = at', ms_last_interval_id = None\<rparr>]\<rparr>)"
  | (not_newer) st where "meter_of d (out_id o1) = Some st" "at' \<le> ms_read_at st"
      "record_reading d cab o1 reg at' = (''not_newer'', d)"
  | (reset) st where "meter_of d (out_id o1) = Some st" "ms_read_at st < at'"
      "\<And>p. ms_energy_kwh st = Some p \<Longrightarrow> reg < p"
      "record_reading d cab o1 reg at' = (''reset'', set_meter (out_id o1)
         (\<lambda>m. m\<lparr>ms_energy_kwh := Some reg, ms_read_at := at', ms_last_interval_id := None\<rparr>) d)"
  | (extended) st p v where "meter_of d (out_id o1) = Some st" "ms_read_at st < at'"
      "ms_energy_kwh st = Some p" "reg = p" "last_interval d st = Some v"
      "iv_energy_kwh v = Some 0" "iv_session_id v = session_on d cab o1"
      "iv_standalone v = (cab_smart_mode cab = Some False)" "iv_to_at v = ms_read_at st"
      "record_reading d cab o1 reg at' = (''extended'',
         set_meter (out_id o1) (\<lambda>m. m\<lparr>ms_energy_kwh := Some reg, ms_read_at := at'\<rparr>)
           (d\<lparr>db_intervals := update_where (\<lambda>v. Some (iv_id v) = ms_last_interval_id st)
               (\<lambda>v. v\<lparr>iv_to_at := at', iv_meter_to := Some reg\<rparr>) (db_intervals d)\<rparr>))"
  | (interval) st p i where "meter_of d (out_id o1) = Some st" "ms_read_at st < at'"
      "ms_energy_kwh st = Some p" "p \<le> reg" "i = next_id iv_id (db_intervals d)"
      "record_reading d cab o1 reg at' = (''interval'',
         set_meter (out_id o1)
           (\<lambda>m. m\<lparr>ms_energy_kwh := Some reg, ms_read_at := at', ms_last_interval_id := Some i\<rparr>)
           (d\<lparr>db_intervals := db_intervals d @
               [\<lparr>iv_id = i, iv_outlet_id = out_id o1, iv_session_id = session_on d cab o1,
                 iv_standalone = (cab_smart_mode cab = Some False), iv_from_at = ms_read_at st, iv_to_at = at',
                 iv_energy_kwh = Some (reg - p), iv_water_liters = None,
                 iv_meter_from = Some p, iv_meter_to = Some reg, iv_source = ''register''\<rparr>]\<rparr>))"
proof (cases "meter_of d (out_id o1)")
  case None
  then show ?thesis by (intro seeded) (simp_all add: record_reading_def)
next
  case (Some st)
  show ?thesis
  proof (cases "at' \<le> ms_read_at st")
    case True
    with Some show ?thesis by (intro not_newer[OF Some]) (simp_all add: record_reading_def)
  next
    case newer: False
    show ?thesis
    proof (cases "ms_energy_kwh st")
      case None
      with Some newer show ?thesis by (intro reset[OF Some]) (simp_all add: record_reading_def)
    next
      case reg: (Some p)
      show ?thesis
      proof (cases "reg < p")
        case True
        with Some newer reg show ?thesis by (intro reset[OF Some]) (simp_all add: record_reading_def)
      next
        case ge: False
        let ?ext = "extends_idle (last_interval d st) (reg - p) (session_on d cab o1)
          (cab_smart_mode cab = Some False) (ms_read_at st)"
        show ?thesis
        proof (cases ?ext)
          case True
          then obtain v where "last_interval d st = Some v" "reg = p"
            "iv_energy_kwh v = Some 0" "iv_session_id v = session_on d cab o1"
            "iv_standalone v = (cab_smart_mode cab = Some False)" "iv_to_at v = ms_read_at st"
            by (auto simp: extends_idle_def split: option.splits)
          with Some newer reg ge True show ?thesis
            by (intro extended[OF Some _ reg]) (simp_all add: record_reading_def Let_def)
        next
          case False
          with Some newer reg ge show ?thesis
            by (intro interval[OF Some _ reg]) (simp_all add: record_reading_def Let_def)
        qed
      qed
    qed
  qed
qed

section \<open>Energy is what the register moved\<close>

definition energy_of :: "interval \<Rightarrow> rat" where
  "energy_of v = or_else (iv_energy_kwh v) 0"

definition outlet_energy :: "db \<Rightarrow> nat \<Rightarrow> rat" where
  "outlet_energy d oid = sum_list (map energy_of (filter (\<lambda>v. iv_outlet_id v = oid) (db_intervals d)))"

definition register :: "db \<Rightarrow> nat \<Rightarrow> rat option" where
  "register d oid = Option.bind (meter_of d oid) ms_energy_kwh"

text \<open>A series of readings of one outlet; the cabinet's mode may change between them.\<close>

fun run_readings :: "outlet \<Rightarrow> (cabinet \<times> rat \<times> dtime) list \<Rightarrow> db \<Rightarrow> db" where
  "run_readings o1 [] d = d"
| "run_readings o1 ((cab, reg, t) # rs) d = run_readings o1 rs (snd (record_reading d cab o1 reg t))"

lemma energy_update_where:
  assumes "\<And>v. iv_outlet_id (f v) = iv_outlet_id v" "\<And>v. iv_energy_kwh (f v) = iv_energy_kwh v"
  shows "map energy_of (filter (\<lambda>v. iv_outlet_id v = oid) (update_where P f vs)) =
         map energy_of (filter (\<lambda>v. iv_outlet_id v = oid) vs)"
  using assms by (induction vs) (auto simp: energy_of_def)

lemma reading_energy:
  assumes "register d (out_id o1) = Some r0" and "r0 \<le> reg"
  shows "\<exists>r1. register (snd (record_reading d cab o1 reg t)) (out_id o1) = Some r1 \<and> r0 \<le> r1 \<and> r1 \<le> reg
    \<and> outlet_energy (snd (record_reading d cab o1 reg t)) (out_id o1) = outlet_energy d (out_id o1) + (r1 - r0)"
proof -
  obtain st where st: "meter_of d (out_id o1) = Some st" "ms_energy_kwh st = Some r0"
    using assms(1) by (auto simp: register_def bind_eq_Some_conv)
  show ?thesis
  proof (cases rule: record_reading_cases[of d o1 cab reg t])
    case (extended st' p v)
    with st have "p = r0" by simp
    with extended st show ?thesis
      by (simp add: register_def meter_of_set outlet_energy_def energy_update_where)
  next
    case (interval st' p i)
    with st have "p = r0" by simp
    with interval st show ?thesis
      by (simp add: register_def meter_of_set outlet_energy_def energy_of_def)
  qed (use st assms in \<open>auto simp: register_def\<close>)
qed

text \<open>
  C13. The stored consumption is the meter's own movement, no more and no less: over any series
  of readings whose register never runs backwards, whatever mode changes and repeated or
  late readings lie in between, the energy of the outlet's intervals grows by exactly the
  difference between the register it ends at and the register it started from.
\<close>

theorem energy_is_register_movement:
  assumes "register d (out_id o1) = Some r0" and "sorted (r0 # map (\<lambda>(_, reg, _). reg) rs)"
  shows "\<exists>r1. register (run_readings o1 rs d) (out_id o1) = Some r1
     \<and> outlet_energy (run_readings o1 rs d) (out_id o1) - outlet_energy d (out_id o1) = r1 - r0"
  using assms
proof (induction rs arbitrary: d r0)
  case (Cons a rs)
  obtain cab reg t where a: "a = (cab, reg, t)" by (metis prod_cases3)
  let ?d = "snd (record_reading d cab o1 reg t)"
  from Cons.prems a have "r0 \<le> reg" by simp
  from reading_energy[OF Cons.prems(1) this] obtain r1 where
    r1: "register ?d (out_id o1) = Some r1" "r1 \<le> reg"
      "outlet_energy ?d (out_id o1) = outlet_energy d (out_id o1) + (r1 - r0)" by blast
  have "sorted (r1 # map (\<lambda>(_, reg, _). reg) rs)" using Cons.prems(2) a r1(2) by fastforce
  from Cons.IH[OF r1(1) this] r1(3) show ?case by (auto simp: a)
qed simp

section \<open>Intervals that fit together\<close>

definition disjoint_iv :: "interval \<Rightarrow> interval \<Rightarrow> bool" where
  "disjoint_iv a b \<longleftrightarrow> iv_outlet_id a \<noteq> iv_outlet_id b \<or> iv_to_at a \<le> iv_from_at b \<or> iv_to_at b \<le> iv_from_at a"

definition metering_ok :: "db \<Rightarrow> bool" where
  "metering_ok d \<longleftrightarrow>
     distinct (map ms_outlet_id (db_meter_states d)) \<and> distinct (map iv_id (db_intervals d))
   \<and> table_valid interval_checks disjoint_iv (db_intervals d)
   \<and> (\<forall>v \<in> set (db_intervals d). \<exists>m. meter_of d (iv_outlet_id v) = Some m \<and> iv_to_at v \<le> ms_read_at m)
   \<and> (\<forall>m \<in> set (db_meter_states d). \<forall>i. ms_last_interval_id m = Some i \<longrightarrow>
        (\<exists>v \<in> set (db_intervals d). iv_id v = i \<and> iv_outlet_id v = ms_outlet_id m))"

interpretation intervals_t: constrained_table interval_checks disjoint_iv
  by unfold_locales (auto simp: disjoint_iv_def)

lemma meter_of_member: "meter_of d oid = Some m \<Longrightarrow> m \<in> set (db_meter_states d) \<and> ms_outlet_id m = oid"
  unfolding meter_of_def by (rule find_Some_D)

lemma meter_of_unique:
  "distinct (map ms_outlet_id (db_meter_states d)) \<Longrightarrow> m \<in> set (db_meter_states d) \<Longrightarrow>
   meter_of d (ms_outlet_id m) = Some m"
proof -
  assume d: "distinct (map ms_outlet_id (db_meter_states d))" and m: "m \<in> set (db_meter_states d)"
  then obtain m' where m': "meter_of d (ms_outlet_id m) = Some m'"
    using find_None_D[of "\<lambda>x. ms_outlet_id x = ms_outlet_id m" "db_meter_states d" m]
    by (cases "meter_of d (ms_outlet_id m)") (auto simp: meter_of_def)
  from meter_of_member[OF this] d m have "m' = m" by (auto simp: distinct_map dest: inj_onD)
  with m' show ?thesis by simp
qed

text \<open>Four small steps; each branch of a reading is a sequence of them.\<close>

lemma ok_set_meter:
  assumes ok: "metering_ok d" and m: "meter_of d oid = Some m" and t: "ms_read_at m \<le> t"
    and li: "li = ms_last_interval_id m \<or> (\<forall>i. li = Some i \<longrightarrow>
       (\<exists>v \<in> set (db_intervals d). iv_id v = i \<and> iv_outlet_id v = oid))"
  shows "metering_ok (set_meter oid (\<lambda>m. m\<lparr>ms_energy_kwh := e, ms_read_at := t, ms_last_interval_id := li\<rparr>) d)"
proof -
  let ?f = "\<lambda>m. m\<lparr>ms_energy_kwh := e, ms_read_at := t, ms_last_interval_id := li\<rparr>"
  note un = meter_of_unique[OF ok[unfolded metering_ok_def, THEN conjunct1]]
  have ids: "map ms_outlet_id (update_where (\<lambda>m. ms_outlet_id m = oid) ?f ms) = map ms_outlet_id ms" for ms
    by (rule map_update_where_same) simp
  have mo: "meter_of (set_meter oid ?f d) oid' =
      (if oid' = oid then map_option ?f (meter_of d oid') else meter_of d oid')" for oid'
    by (rule meter_of_set) simp
  have reads: "\<exists>m'. meter_of (set_meter oid ?f d) (iv_outlet_id v) = Some m' \<and> iv_to_at v \<le> ms_read_at m'"
    if "v \<in> set (db_intervals d)" for v
  proof -
    from ok that obtain m' where "meter_of d (iv_outlet_id v) = Some m'" "iv_to_at v \<le> ms_read_at m'"
      unfolding metering_ok_def by blast
    then show ?thesis unfolding mo using m t by auto
  qed
  have lasts: "\<exists>v \<in> set (db_intervals d). iv_id v = i \<and> iv_outlet_id v = ms_outlet_id r'"
    if "r' \<in> set (db_meter_states (set_meter oid ?f d))" "ms_last_interval_id r' = Some i" for r' i
  proof -
    from that(1) obtain r where r: "r \<in> set (db_meter_states d)" "r' = (if ms_outlet_id r = oid then ?f r else r)"
      by (auto simp: set_update_where)
    have old: "ms_last_interval_id r = Some i \<Longrightarrow> ?thesis" using ok r that(2) unfolding metering_ok_def by auto
    show ?thesis
    proof (cases "ms_outlet_id r = oid")
      case True
      then have "r = m" using un[OF r(1)] m by simp
      with True r that(2) li old show ?thesis by auto
    qed (use r that(2) old in auto)
  qed
  from ok reads lasts show ?thesis by (simp add: metering_ok_def ids)
qed

lemma ok_append:
  assumes ok: "metering_ok d" and m: "meter_of d (iv_outlet_id v) = Some m" "iv_to_at v \<le> ms_read_at m"
    and v: "iv_id v = next_id iv_id (db_intervals d)" "interval_checks v"
    and after: "\<forall>u \<in> set (db_intervals d). iv_outlet_id u = iv_outlet_id v \<longrightarrow> iv_to_at u \<le> iv_from_at v"
  shows "metering_ok (d\<lparr>db_intervals := db_intervals d @ [v]\<rparr>)"
proof -
  have "iv_id v \<notin> iv_id ` set (db_intervals d)" by (simp add: v)
  moreover have "\<forall>u \<in> set (db_intervals d). disjoint_iv u v" using after by (auto simp: disjoint_iv_def)
  ultimately show ?thesis using ok m v(2) unfolding metering_ok_def by (auto simp: intervals_t.valid_append)
qed

lemma ok_extend:
  assumes ok: "metering_ok d" and v: "v \<in> set (db_intervals d)"
    and m: "meter_of d (iv_outlet_id v) = Some m" "iv_to_at v \<le> t" "t \<le> ms_read_at m"
    and before: "\<forall>u \<in> set (db_intervals d). iv_outlet_id u = iv_outlet_id v \<longrightarrow> iv_to_at u \<le> iv_to_at v"
  shows "metering_ok (d\<lparr>db_intervals := update_where (\<lambda>u. iv_id u = iv_id v)
           (\<lambda>u. u\<lparr>iv_to_at := t, iv_meter_to := r\<rparr>) (db_intervals d)\<rparr>)"
proof -
  let ?f = "\<lambda>u. u\<lparr>iv_to_at := t, iv_meter_to := r\<rparr>"
  let ?g = "\<lambda>u. if iv_id u = iv_id v then ?f u else u"
  have dist: "distinct (map iv_id (db_intervals d))"
    and tv: "table_valid interval_checks disjoint_iv (db_intervals d)"
    using ok unfolding metering_ok_def by auto
  have same: "u = v" if "u \<in> set (db_intervals d)" "iv_id u = iv_id v" for u
    using that v dist by (auto simp: distinct_map dest: inj_onD)
  have fwd: "interval_checks u" if "u \<in> set (db_intervals d)" for u
    by (rule intervals_t.valid_member[OF tv that])
  have ck: "interval_checks (?f u)" if "u \<in> set (db_intervals d)" "iv_id u = iv_id v" for u
    using fwd[OF v] same[OF that] m by (simp add: interval_checks_def)
  have apart: "disjoint_iv (?g a) (?g b)"
    if ab: "a \<in> set (db_intervals d)" "b \<in> set (db_intervals d)" "disjoint_iv a b" for a b
  proof -
    have "iv_from_at a < iv_to_at a" "iv_from_at b < iv_to_at b"
      using fwd ab by (auto simp: interval_checks_def)
    with ab same[OF ab(1)] same[OF ab(2)] before m show ?thesis
      by (fastforce simp: disjoint_iv_def)
  qed
  have tv': "table_valid interval_checks disjoint_iv (update_where (\<lambda>u. iv_id u = iv_id v) ?f (db_intervals d))"
    using ck apart by (intro intervals_t.valid_update_where[OF tv]) auto
  have ids: "map iv_id (update_where (\<lambda>u. iv_id u = iv_id v) ?f us) = map iv_id us" for us
    by (rule map_update_where_same) simp
  have reads: "\<exists>m. meter_of d (iv_outlet_id u) = Some m \<and> iv_to_at u \<le> ms_read_at m"
    if "u \<in> set (update_where (\<lambda>u. iv_id u = iv_id v) ?f (db_intervals d))" for u
  proof -
    from that obtain w where w: "w \<in> set (db_intervals d)" "u = ?g w" by (auto simp: set_update_where)
    show ?thesis
    proof (cases "iv_id w = iv_id v")
      case True
      with same[OF w(1)] w m show ?thesis by simp
    next
      case False
      with w ok show ?thesis unfolding metering_ok_def by auto
    qed
  qed
  have lasts: "\<exists>u \<in> set (update_where (\<lambda>u. iv_id u = iv_id v) ?f (db_intervals d)). iv_id u = i \<and> iv_outlet_id u = ms_outlet_id q"
    if q: "q \<in> set (db_meter_states d)" "ms_last_interval_id q = Some i" for q i
  proof -
    from ok q obtain w where "w \<in> set (db_intervals d)" "iv_id w = i" "iv_outlet_id w = ms_outlet_id q"
      unfolding metering_ok_def by blast
    then show ?thesis by (intro bexI[of _ "?g w"]) (auto simp: set_update_where)
  qed
  from ok tv' reads lasts dist show ?thesis by (simp add: metering_ok_def ids)
qed

lemma ok_seed:
  assumes ok: "metering_ok d" and m: "meter_of d oid = None"
  shows "metering_ok (d\<lparr>db_meter_states := db_meter_states d @
    [\<lparr>ms_outlet_id = oid, ms_energy_kwh = e, ms_read_at = t, ms_last_interval_id = None\<rparr>]\<rparr>)"
proof -
  have new: "oid \<notin> ms_outlet_id ` set (db_meter_states d)"
    using m find_None_D unfolding meter_of_def by fastforce
  have keep: "meter_of (d\<lparr>db_meter_states := db_meter_states d @ ms\<rparr>) x = Some r"
    if "meter_of d x = Some r" for x r ms
  proof -
    have "find P xs = Some r \<Longrightarrow> find P (xs @ ys) = Some r" for P xs ys
      by (induction xs) (auto split: if_splits)
    with that show ?thesis by (simp add: meter_of_def)
  qed
  let ?d = "d\<lparr>db_meter_states := db_meter_states d @
    [\<lparr>ms_outlet_id = oid, ms_energy_kwh = e, ms_read_at = t, ms_last_interval_id = None\<rparr>]\<rparr>"
  have "\<forall>v \<in> set (db_intervals d). \<exists>m. meter_of ?d (iv_outlet_id v) = Some m \<and> iv_to_at v \<le> ms_read_at m"
    using ok keep unfolding metering_ok_def by blast
  with ok new show ?thesis by (simp add: metering_ok_def)
qed

lemma update_where_fuse:
  "(\<And>r. P (f r) = P r) \<Longrightarrow> update_where P g (update_where P f rs) = update_where P (\<lambda>r. g (f r)) rs"
  by (induction rs) auto

text \<open>
  C14. Every reading keeps the meter history consistent: the intervals of an outlet never
  overlap, each runs forward, has a non-negative energy and never carries a session while
  the cabinet runs on its own, none ends after the outlet's last reading, and a meter always
  points at an interval of its own outlet.
\<close>

theorem readings_keep_meter_history:
  assumes "metering_ok d"
  shows "metering_ok (snd (record_reading d cab o1 reg t))"
proof (cases rule: record_reading_cases[of d o1 cab reg t])
  case seeded
  with ok_seed[OF assms seeded(1)] show ?thesis by simp
next
  case (not_newer st)
  with assms show ?thesis by simp
next
  case (reset st)
  with ok_set_meter[OF assms reset(1), of t None] show ?thesis by simp
next
  case (extended st p v)
  let ?o = "out_id o1"
  let ?d = "set_meter ?o (\<lambda>m. m\<lparr>ms_energy_kwh := Some reg, ms_read_at := t,
      ms_last_interval_id := ms_last_interval_id st\<rparr>) d"
  obtain i where i: "ms_last_interval_id st = Some i" "v \<in> set (db_intervals d)" "iv_id v = i"
    using extended(5) find_Some_D by (fastforce simp: last_interval_def bind_eq_Some_conv split: if_splits)
  from meter_of_member[OF extended(1)] have st: "st \<in> set (db_meter_states d)" "ms_outlet_id st = ?o" by auto
  have own: "iv_outlet_id v = ?o"
  proof -
    from assms st i(1) obtain w where "w \<in> set (db_intervals d)" "iv_id w = i" "iv_outlet_id w = ?o"
      unfolding metering_ok_def by metis
    with assms i show ?thesis unfolding metering_ok_def by (auto simp: distinct_map dest: inj_onD)
  qed
  have "metering_ok ?d" using extended(2) by (intro ok_set_meter[OF assms extended(1)]) auto
  moreover have "\<forall>u \<in> set (db_intervals ?d). iv_outlet_id u = iv_outlet_id v \<longrightarrow> iv_to_at u \<le> iv_to_at v"
    using assms extended(1,9) own unfolding metering_ok_def by fastforce
  ultimately have ok: "metering_ok (?d\<lparr>db_intervals := update_where (\<lambda>u. iv_id u = iv_id v)
      (\<lambda>u. u\<lparr>iv_to_at := t, iv_meter_to := Some reg\<rparr>) (db_intervals ?d)\<rparr>)"
    using i own extended(1,2,9) by (intro ok_extend) (auto simp: meter_of_set)
  have ms: "update_where (\<lambda>m. ms_outlet_id m = ?o)
      (\<lambda>m. m\<lparr>ms_energy_kwh := Some reg, ms_read_at := t, ms_last_interval_id := ms_last_interval_id st\<rparr>) (db_meter_states d) =
    update_where (\<lambda>m. ms_outlet_id m = ?o) (\<lambda>m. m\<lparr>ms_energy_kwh := Some reg, ms_read_at := t\<rparr>) (db_meter_states d)"
  proof -
    have "m = st" if "m \<in> set (db_meter_states d)" "ms_outlet_id m = ?o" for m
      using meter_of_unique[of d m] assms that extended(1) unfolding metering_ok_def by simp
    then show ?thesis by (auto simp: update_where_def)
  qed
  have eq: "?d\<lparr>db_intervals := x\<rparr> =
      set_meter ?o (\<lambda>m. m\<lparr>ms_energy_kwh := Some reg, ms_read_at := t\<rparr>) (d\<lparr>db_intervals := x\<rparr>)" for x
    by (simp add: set_meter_def ms)
  have "update_where (\<lambda>u :: interval. Some (iv_id u) = ms_last_interval_id st) = update_where (\<lambda>u. iv_id u = iv_id v)"
    using i by simp
  with ok show ?thesis unfolding eq extended(10) by simp
next
  case (interval st p i)
  let ?o = "out_id o1"
  let ?v = "\<lparr>iv_id = i, iv_outlet_id = ?o, iv_session_id = session_on d cab o1,
     iv_standalone = (cab_smart_mode cab = Some False), iv_from_at = ms_read_at st, iv_to_at = t,
     iv_energy_kwh = Some (reg - p), iv_water_liters = None,
     iv_meter_from = Some p, iv_meter_to = Some reg, iv_source = ''register''\<rparr>"
  let ?r = "\<lambda>m. m\<lparr>ms_energy_kwh := Some reg, ms_read_at := t, ms_last_interval_id := ms_last_interval_id st\<rparr>"
  let ?l = "\<lambda>m. m\<lparr>ms_energy_kwh := Some reg, ms_read_at := t, ms_last_interval_id := Some i\<rparr>"
  have 1: "metering_ok (set_meter ?o ?r d)"
    using interval(2) by (intro ok_set_meter[OF assms interval(1)]) auto
  have ck: "interval_checks ?v" using interval(2,4) by (auto simp: interval_checks_def session_on_def CONSUMPTION_SOURCES_def)
  have 2: "metering_ok ((set_meter ?o ?r d)\<lparr>db_intervals := db_intervals (set_meter ?o ?r d) @ [?v]\<rparr>)"
    using interval(1,5) ck assms
    by (intro ok_append[OF 1]) (auto simp: meter_of_set metering_ok_def)
  have 3: "metering_ok (set_meter ?o ?l ((set_meter ?o ?r d)\<lparr>db_intervals := db_intervals d @ [?v]\<rparr>))"
    using 2 by (intro ok_set_meter[where m = "?r st"]) (auto simp: meter_of_set interval(1))
  have "set_meter ?o ?l ((set_meter ?o ?r d)\<lparr>db_intervals := x\<rparr>) = set_meter ?o ?l (d\<lparr>db_intervals := x\<rparr>)" for x
    by (simp add: set_meter_def update_where_fuse)
  with 3 show ?thesis unfolding interval(6) by simp
qed

section \<open>An idle outlet\<close>

definition idle_state :: "db \<Rightarrow> cabinet \<Rightarrow> outlet \<Rightarrow> rat \<Rightarrow> bool" where
  "idle_state d cab o1 reg \<longleftrightarrow> (\<exists>st v. meter_of d (out_id o1) = Some st \<and> ms_energy_kwh st = Some reg
     \<and> last_interval d st = Some v \<and> iv_energy_kwh v = Some 0 \<and> iv_session_id v = session_on d cab o1
     \<and> iv_standalone v = (cab_smart_mode cab = Some False) \<and> iv_to_at v = ms_read_at st)"

lemma session_on_simps [simp]:
  "session_on (set_meter oid f d) cab o1 = session_on d cab o1"
  "session_on (d\<lparr>db_intervals := x\<rparr>) cab o1 = session_on d cab o1"
  by (simp_all add: session_on_def)

lemma find_append_new: "\<forall>x \<in> set xs. \<not> P x \<Longrightarrow> P y \<Longrightarrow> find P (xs @ [y]) = Some y"
  using find_hit[of xs P y "[]"] by simp

lemma reading_when_idle:
  assumes "idle_state d cab o1 reg"
  shows "idle_state (snd (record_reading d cab o1 reg t)) cab o1 reg
    \<and> length (db_intervals (snd (record_reading d cab o1 reg t))) = length (db_intervals d)"
proof -
  from assms obtain st v where st: "meter_of d (out_id o1) = Some st" "ms_energy_kwh st = Some reg"
    and v: "last_interval d st = Some v" "iv_energy_kwh v = Some 0" "iv_session_id v = session_on d cab o1"
      "iv_standalone v = (cab_smart_mode cab = Some False)" "iv_to_at v = ms_read_at st"
    unfolding idle_state_def by blast
  have ext: "extends_idle (last_interval d st) 0 (session_on d cab o1) (cab_smart_mode cab = Some False) (ms_read_at st)"
    using v by (simp add: extends_idle_def)
  show ?thesis
  proof (cases "t \<le> ms_read_at st")
    case True
    with assms st show ?thesis by (simp add: record_reading_def)
  next
    case False
    obtain i where i: "ms_last_interval_id st = Some i" "i \<noteq> 0" "find (\<lambda>v. iv_id v = i) (db_intervals d) = Some v"
      using v(1) by (auto simp: last_interval_def bind_eq_Some_conv split: if_splits)
    let ?f = "\<lambda>v. v\<lparr>iv_to_at := t, iv_meter_to := Some reg\<rparr>"
    let ?d = "set_meter (out_id o1) (\<lambda>m. m\<lparr>ms_energy_kwh := Some reg, ms_read_at := t\<rparr>)
           (d\<lparr>db_intervals := update_where (\<lambda>v. Some (iv_id v) = ms_last_interval_id st) ?f (db_intervals d)\<rparr>)"
    have r: "record_reading d cab o1 reg t = (''extended'', ?d)"
      using st False ext by (simp add: record_reading_def Let_def)
    have "find (\<lambda>v. iv_id v = i) (update_where (\<lambda>v. Some (iv_id v) = ms_last_interval_id st) ?f (db_intervals d)) =
        map_option (\<lambda>v. if Some (iv_id v) = ms_last_interval_id st then ?f v else v)
          (find (\<lambda>v. iv_id v = i) (db_intervals d))"
      unfolding update_where_def by (rule find_map_update) simp
    moreover have "iv_id v = i" using find_Some_D[OF i(3)] by simp
    ultimately have li: "find (\<lambda>v. iv_id v = i) (db_intervals ?d) = Some (?f v)" using i by simp
    let ?st = "st\<lparr>ms_energy_kwh := Some reg, ms_read_at := t\<rparr>"
    have "meter_of ?d (out_id o1) = Some ?st" using st by (simp add: meter_of_set)
    moreover have "last_interval ?d ?st = Some (?f v)" using li i by (simp add: last_interval_def)
    ultimately have "idle_state ?d cab o1 reg"
      unfolding idle_state_def by (intro exI[of _ ?st] exI[of _ "?f v"]) (simp add: v)
    then show ?thesis by (simp add: r)
  qed
qed

lemma reading_makes_idle:
  assumes "register d (out_id o1) = Some reg"
  shows "(idle_state (snd (record_reading d cab o1 reg t)) cab o1 reg
       \<and> length (db_intervals (snd (record_reading d cab o1 reg t))) \<le> Suc (length (db_intervals d)))
    \<or> snd (record_reading d cab o1 reg t) = d"
proof -
  from assms obtain st where st: "meter_of d (out_id o1) = Some st" "ms_energy_kwh st = Some reg"
    by (auto simp: register_def bind_eq_Some_conv)
  consider "t \<le> ms_read_at st" | "idle_state d cab o1 reg"
    | "ms_read_at st < t" "\<not> extends_idle (last_interval d st) 0 (session_on d cab o1)
         (cab_smart_mode cab = Some False) (ms_read_at st)"
    using st by (force simp: idle_state_def extends_idle_def split: option.splits)
  then show ?thesis
  proof cases
    case 1
    with st show ?thesis by (simp add: record_reading_def)
  next
    case 2
    from reading_when_idle[OF this, of t] show ?thesis by simp
  next
    case 3
    let ?i = "next_id iv_id (db_intervals d)"
    let ?v = "\<lparr>iv_id = ?i, iv_outlet_id = out_id o1, iv_session_id = session_on d cab o1,
       iv_standalone = (cab_smart_mode cab = Some False), iv_from_at = ms_read_at st, iv_to_at = t,
       iv_energy_kwh = Some 0, iv_water_liters = None,
       iv_meter_from = Some reg, iv_meter_to = Some reg, iv_source = ''register''\<rparr>"
    let ?d = "set_meter (out_id o1) (\<lambda>m. m\<lparr>ms_energy_kwh := Some reg, ms_read_at := t, ms_last_interval_id := Some ?i\<rparr>)
         (d\<lparr>db_intervals := db_intervals d @ [?v]\<rparr>)"
    let ?st = "st\<lparr>ms_energy_kwh := Some reg, ms_read_at := t, ms_last_interval_id := Some ?i\<rparr>"
    have r: "record_reading d cab o1 reg t = (''interval'', ?d)"
      using st 3 by (simp add: record_reading_def Let_def)
    have "\<forall>x \<in> set (db_intervals d). iv_id x \<noteq> ?i"
      using next_id_notin[of iv_id "db_intervals d"] by (metis imageI)
    then have "find (\<lambda>v. iv_id v = ?i) (db_intervals d @ [?v]) = Some ?v"
      by (intro find_append_new) simp_all
    then have "last_interval ?d ?st = Some ?v"
      by (simp add: last_interval_def next_id_pos[THEN less_imp_neq, symmetric])
    moreover have "meter_of ?d (out_id o1) = Some ?st" using st by (simp add: meter_of_set)
    ultimately have "idle_state ?d cab o1 reg"
      unfolding idle_state_def by (intro exI[of _ ?st] exI[of _ ?v]) simp
    then show ?thesis by (simp add: r)
  qed
qed

text \<open>
  C15. An idle outlet is one row, not one a minute: however many readings in a row show the
  register the outlet already stands at, under an unchanged cabinet, they add at most one
  interval row, whose end moves.
\<close>

theorem idle_outlet_is_one_row:
  assumes "register d (out_id o1) = Some reg"
  shows "length (db_intervals (run_readings o1 (map (\<lambda>t. (cab, reg, t)) ts) d)) \<le> Suc (length (db_intervals d))"
proof -
  have idle: "length (db_intervals (run_readings o1 (map (\<lambda>t. (cab, reg, t)) ts) d)) = length (db_intervals d)"
    if "idle_state d cab o1 reg" for ts d
    using that
  proof (induction ts arbitrary: d)
    case (Cons t ts)
    with reading_when_idle[OF Cons.prems, of t] show ?case by simp
  qed simp
  show ?thesis using assms
  proof (induction ts arbitrary: d)
    case (Cons t ts)
    from reading_makes_idle[OF Cons.prems, of cab t] Cons show ?case by (auto simp: idle)
  qed simp
qed

section \<open>A concrete meter\<close>

definition sample_outlet :: outlet where
  "sample_outlet = \<lparr>out_id = 2, out_cabinet_id = 1, out_outlet_name = ''Q2'', out_medium = ''electricity'',
     out_phases = None, out_rated_amps = None, out_rated_lpm = None\<rparr>"

definition metered_db :: db where
  "metered_db = snd (record_reading empty_db sample_cabinet sample_outlet 10 0)"

lemma metered_db_register: "register metered_db (out_id sample_outlet) = Some 10"
  by (simp add: metered_db_def record_reading_def empty_db_def meter_of_def register_def)

theorem energy_is_register_movement_witness:
  "let rs = [(sample_cabinet, 12, 60), (sample_cabinet, 12, 120), (sample_cabinet, 15, 180)] in
   \<exists>r1. register (run_readings sample_outlet rs metered_db) (out_id sample_outlet) = Some r1
     \<and> outlet_energy (run_readings sample_outlet rs metered_db) (out_id sample_outlet)
        - outlet_energy metered_db (out_id sample_outlet) = r1 - 10"
  unfolding Let_def by (rule energy_is_register_movement[OF metered_db_register]) simp

theorem readings_keep_meter_history_witness:
  "metering_ok metered_db \<and> metering_ok (snd (record_reading metered_db sample_cabinet sample_outlet 12 60))"
proof -
  have "metering_ok empty_db" by (simp add: metering_ok_def empty_db_def table_valid_def)
  then have "metering_ok metered_db" unfolding metered_db_def
    by (rule readings_keep_meter_history)
  with readings_keep_meter_history[OF this] show ?thesis by blast
qed

theorem idle_outlet_is_one_row_witness:
  "length (db_intervals (run_readings sample_outlet
      (map (\<lambda>t. (sample_cabinet, 10, t)) [60, 120, 180, 240]) metered_db)) \<le> Suc (length (db_intervals metered_db))"
  by (rule idle_outlet_is_one_row[OF metered_db_register])

end
