(* ===== verification/Retention.thy ===== *)
theory Retention
  imports Metering
begin

text \<open>
  \<open>services/retention.py\<close>: what each table keeps. Rows older than a table's window are
  deleted chunk by chunk; metered intervals are first added into the monthly figures, in the
  transaction that deletes them; simulated history is deleted without a monthly figure. The
  lemmas say that every loop ends, that exactly the old rows go, and that a roll-up neither
  loses nor double-counts consumption, wherever it is interrupted.
\<close>

section \<open>Loops over chunks\<close>

text \<open>
  A loop that takes one chunk at a time until a chunk is empty: \<open>body\<close> answers how many rows
  it processed and the state after its commit. What holds between two chunks holds whenever
  the process stops there.
\<close>

locale chunk_loop =
  fixes body :: "'s \<Rightarrow> nat \<times> 's" and loop :: "'s \<Rightarrow> nat \<times> 's" and size_of :: "'s \<Rightarrow> nat"
  assumes unfold: "loop s = (case body s of (n, s') \<Rightarrow>
            if n = 0 then (0, s) else (case loop s' of (m, s2) \<Rightarrow> (n + m, s2)))"
    and progress: "body s = (n, s') \<Longrightarrow> n \<noteq> 0 \<Longrightarrow> size_of s' < size_of s"
begin

lemma loop_induct:
  assumes stop: "\<And>s s'. body s = (0, s') \<Longrightarrow> P s (0, s)"
    and step: "\<And>s n s' m s2. body s = (n, s') \<Longrightarrow> n \<noteq> 0 \<Longrightarrow> loop s' = (m, s2) \<Longrightarrow> P s' (m, s2) \<Longrightarrow> P s (n + m, s2)"
  shows "P s (loop s)"
proof (induction "size_of s" arbitrary: s rule: less_induct)
  case less
  obtain n s' where b: "body s = (n, s')" by (cases "body s")
  obtain m s2 where l: "loop s' = (m, s2)" by (cases "loop s'")
  show ?case
  proof (cases "n = 0")
    case True
    with b stop show ?thesis by (subst unfold) auto
  next
    case False
    from less[OF progress[OF b False]] l have "P s' (m, s2)" by simp
    from step[OF b False l this] b l False show ?thesis by (subst unfold) simp
  qed
qed

lemma drained: "\<exists>s'. body (snd (loop s)) = (0, s')"
  by (rule loop_induct[where P = "\<lambda>s r. \<exists>s'. body (snd r) = (0, s')"]) auto

lemma keeps:
  assumes "\<And>s n s'. I s \<Longrightarrow> body s = (n, s') \<Longrightarrow> n \<noteq> 0 \<Longrightarrow> I s'" and "I s"
  shows "I (snd (loop s))"
proof -
  have "I s \<longrightarrow> I (snd (loop s))"
    using assms(1) by (intro loop_induct[where P = "\<lambda>s r. I s \<longrightarrow> I (snd r)"]) auto
  with assms(2) show ?thesis by simp
qed

lemma counts:
  assumes "\<And>s n s'. I s \<Longrightarrow> body s = (n, s') \<Longrightarrow> n \<noteq> 0 \<Longrightarrow> I s' \<and> f s = n + f s'" and "I s"
  shows "f s = fst (loop s) + f (snd (loop s))"
proof -
  have "I s \<longrightarrow> f s = fst (loop s) + f (snd (loop s))"
  proof (rule loop_induct[where P = "\<lambda>s r. I s \<longrightarrow> f s = fst r + f (snd r)"])
    fix s n s' m s2
    assume b: "body s = (n, s')" "n \<noteq> 0" and ih: "I s' \<longrightarrow> f s' = fst (m, s2) + f (snd (m, s2))"
    show "I s \<longrightarrow> f s = fst (n + m, s2) + f (snd (n + m, s2))"
    proof
      assume "I s"
      from assms(1)[OF this b] ih show "f s = fst (n + m, s2) + f (snd (n + m, s2))" by simp
    qed
  qed simp
  with assms(2) show ?thesis by simp
qed

end

definition CHUNK :: nat where "CHUNK = 5000"

section \<open>Deleting old rows\<close>

definition delete_chunk :: "('r \<Rightarrow> nat) \<Rightarrow> ('r \<Rightarrow> bool) \<Rightarrow> 'r list \<Rightarrow> nat \<times> 'r list" where
  "delete_chunk key old rs =
     (let ids = map key (take CHUNK (filter old rs))
      in (length ids, filter (\<lambda>r. key r \<notin> set ids) rs))"

lemma filter_shorter: "x \<in> set xs \<Longrightarrow> \<not> P x \<Longrightarrow> length (filter P xs) < length xs"
  by (simp add: length_filter_less)

lemma chunk_head: "take CHUNK (filter old rs) \<noteq> [] \<Longrightarrow> \<exists>r \<in> set rs. old r \<and> r \<in> set (take CHUNK (filter old rs))"
proof -
  assume "take CHUNK (filter old rs) \<noteq> []"
  then have h: "hd (take CHUNK (filter old rs)) \<in> set (take CHUNK (filter old rs))" by (rule hd_in_set)
  moreover from this have "hd (take CHUNK (filter old rs)) \<in> set (filter old rs)" by (rule in_set_takeD)
  ultimately show ?thesis by auto
qed

lemma delete_chunk_shorter:
  assumes "delete_chunk key old rs = (n, rs')" and "n \<noteq> 0"
  shows "length rs' < length rs"
proof -
  from assms have "take CHUNK (filter old rs) \<noteq> []" by (auto simp: delete_chunk_def Let_def)
  from chunk_head[OF this] obtain r where "r \<in> set rs" "r \<in> set (take CHUNK (filter old rs))" by blast
  with assms show ?thesis
    by (auto simp: delete_chunk_def Let_def intro!: filter_shorter[of r])
qed

function delete_older :: "('r \<Rightarrow> nat) \<Rightarrow> ('r \<Rightarrow> bool) \<Rightarrow> 'r list \<Rightarrow> nat \<times> 'r list" where
  "delete_older key old rs =
     (case delete_chunk key old rs of (n, rs') \<Rightarrow>
        if n = 0 then (0, rs) else (case delete_older key old rs' of (m, rs2) \<Rightarrow> (n + m, rs2)))"
  by pat_completeness auto
termination
  by (relation "measure (\<lambda>(_, _, rs). length rs)") (auto dest: delete_chunk_shorter[OF sym])

declare delete_older.simps [simp del]

interpretation del: chunk_loop "delete_chunk key old" "delete_older key old" length
  for key :: "'r \<Rightarrow> nat" and old :: "'r \<Rightarrow> bool"
  by unfold_locales (simp_all add: delete_older.simps delete_chunk_shorter)

lemma delete_chunk_0: "delete_chunk key old rs = (0, rs') \<Longrightarrow> filter old rs = []"
  by (cases "filter old rs") (auto simp: delete_chunk_def Let_def CHUNK_def)

text \<open>One chunk takes the first \<open>CHUNK\<close> old rows and nothing else.\<close>

lemma delete_chunk_exact:
  assumes "distinct (map key rs)" and "delete_chunk key old rs = (n, rs')"
  shows "distinct (map key rs') \<and> filter (\<lambda>r. \<not> old r) rs' = filter (\<lambda>r. \<not> old r) rs
    \<and> length (filter old rs) = n + length (filter old rs')"
proof -
  let ?c = "take CHUNK (filter old rs)"
  have n: "n = length ?c" and rs': "rs' = filter (\<lambda>r. key r \<notin> key ` set ?c) rs"
    using assms(2) by (auto simp: delete_chunk_def Let_def)
  have sub: "set ?c \<subseteq> set (filter old rs)" by (rule set_take_subset)
  have inj: "key r \<in> key ` set ?c \<longleftrightarrow> r \<in> set ?c" if "r \<in> set rs" for r
    using assms(1) that sub by (auto simp: distinct_map dest: inj_onD)
  have rs2: "rs' = filter (\<lambda>r. r \<notin> set ?c) rs" unfolding rs' by (rule filter_cong) (simp_all add: inj)
  have "distinct (map key rs')" unfolding rs' by (rule distinct_map_filter[OF assms(1)])
  moreover have "filter (\<lambda>r. \<not> old r) rs' = filter (\<lambda>r. \<not> old r) rs"
    unfolding rs2 using sub by (auto intro: filter_cong)
  moreover have "length (filter old rs) = n + length (filter old rs')"
  proof -
    have dr: "distinct rs" using assms(1) by (simp add: distinct_map)
    have "filter old rs' = filter (\<lambda>r. r \<notin> set ?c) (filter old rs)" unfolding rs2 by (simp add: conj_commute)
    also have "\<dots> = drop CHUNK (filter old rs)"
    proof -
      have "distinct xs \<Longrightarrow> filter (\<lambda>r. r \<notin> set (take k xs)) xs = drop k xs" for k and xs :: "'b list"
      proof (induction xs arbitrary: k)
        case (Cons x xs)
        show ?case
        proof (cases k)
          case (Suc j)
          have "filter (\<lambda>r. r \<noteq> x \<and> r \<notin> set (take j xs)) xs = filter (\<lambda>r. r \<notin> set (take j xs)) xs"
            using Cons.prems by (intro filter_cong) auto
          with Suc Cons show ?thesis by simp
        qed simp
      qed simp
      from this[of "filter old rs" CHUNK] show ?thesis using dr by simp
    qed
    finally show ?thesis by (simp add: n)
  qed
  ultimately show ?thesis by blast
qed

text \<open>The loop deletes exactly the old rows, and counts them.\<close>

lemma delete_older_exact:
  assumes "distinct (map key rs)"
  shows "delete_older key old rs = (length (filter old rs), filter (\<lambda>r. \<not> old r) rs)"
proof -
  have chunk: "distinct (map key s') \<and> filter (\<lambda>r. \<not> old r) s' = filter (\<lambda>r. \<not> old r) s
      \<and> length (filter old s) = n + length (filter old s')"
    if "distinct (map key s)" "delete_chunk key old s = (n, s')" for s n s'
    using delete_chunk_exact[OF that] .
  let ?I = "\<lambda>s. distinct (map key s) \<and> filter (\<lambda>r. \<not> old r) s = filter (\<lambda>r. \<not> old r) rs"
  have "?I (snd (delete_older key old rs))"
  proof (rule del.keeps[where I = ?I])
    fix s n s'
    assume "?I s" and b: "delete_chunk key old s = (n, s')"
    then show "?I s'" using chunk[OF _ b] by simp
  qed (use assms in simp)
  then have I: "filter (\<lambda>r. \<not> old r) (snd (delete_older key old rs)) = filter (\<lambda>r. \<not> old r) rs" by simp
  from del.drained[of key old rs] have none: "filter old (snd (delete_older key old rs)) = []"
    using delete_chunk_0 by blast
  have "length (filter old rs) = fst (delete_older key old rs) + length (filter old (snd (delete_older key old rs)))"
  proof (rule del.counts[where I = "\<lambda>s. distinct (map key s)"])
    fix s n s'
    assume "distinct (map key s)" and b: "delete_chunk key old s = (n, s')"
    from chunk[OF this] show "distinct (map key s') \<and> length (filter old s) = n + length (filter old s')" by simp
  qed (use assms in simp)
  moreover have "snd (delete_older key old rs) = filter (\<lambda>r. \<not> old r) (snd (delete_older key old rs))"
    using none by (metis (no_types, lifting) filter_True filter_empty_conv)
  ultimately show ?thesis using I none by (intro prod_eqI) auto
qed

section \<open>Simulated history\<close>

definition sim_outlets :: "db \<Rightarrow> nat list" where
  "sim_outlets d = map out_id (filter (\<lambda>o1. list_ex (\<lambda>c. cab_id c = out_cabinet_id o1 \<and> cab_is_simulated c)
     (db_cabinets d)) (db_outlets d))"

definition sim_old :: "dtime \<Rightarrow> db \<Rightarrow> interval \<Rightarrow> bool" where
  "sim_old cutoff d v \<longleftrightarrow> iv_to_at v < cutoff \<and> iv_outlet_id v \<in> set (sim_outlets d)"

definition simulated_chunk :: "dtime \<Rightarrow> db \<Rightarrow> nat \<times> db" where
  "simulated_chunk cutoff d =
     (let ids = map iv_id (take CHUNK (filter (sim_old cutoff d) (db_intervals d)))
      in (length ids,
          d\<lparr>db_meter_states := update_where (\<lambda>m. ms_last_interval_id m \<in> Some ` set ids)
               (\<lambda>m. m\<lparr>ms_last_interval_id := None\<rparr>) (db_meter_states d),
            db_intervals := filter (\<lambda>v. iv_id v \<notin> set ids) (db_intervals d)\<rparr>))"

lemma simulated_chunk_rows:
  "simulated_chunk cutoff d = (n, d') \<Longrightarrow>
   (n, db_intervals d') = delete_chunk iv_id (sim_old cutoff d) (db_intervals d) \<and> sim_old cutoff d' = sim_old cutoff d"
  by (auto simp: simulated_chunk_def delete_chunk_def Let_def sim_old_def sim_outlets_def fun_eq_iff)

function delete_simulated_intervals :: "dtime \<Rightarrow> db \<Rightarrow> nat \<times> db" where
  "delete_simulated_intervals cutoff d =
     (case simulated_chunk cutoff d of (n, d') \<Rightarrow>
        if n = 0 then (0, d) else (case delete_simulated_intervals cutoff d' of (m, d2) \<Rightarrow> (n + m, d2)))"
  by pat_completeness auto
termination
  by (relation "measure (\<lambda>(_, d). length (db_intervals d))")
     (auto dest!: simulated_chunk_rows[OF sym] dest: delete_chunk_shorter[OF sym])

declare delete_simulated_intervals.simps [simp del]

interpretation sim: chunk_loop "simulated_chunk cutoff" "delete_simulated_intervals cutoff" "\<lambda>d. length (db_intervals d)"
  for cutoff :: dtime
proof (unfold_locales, goal_cases)
  case (1 d)
  show ?case by (rule delete_simulated_intervals.simps)
next
  case (2 d n d')
  from simulated_chunk_rows[OF 2(1)] 2(2) show ?case by (auto dest: delete_chunk_shorter[OF sym])
qed

section \<open>Rolling intervals up into months\<close>

type_synonym month_key = "nat \<times> (int \<times> int) \<times> bool"
type_synonym month_sum = "rat option \<times> rat option \<times> nat"

definition interval_key :: "interval \<Rightarrow> month_key" where
  "interval_key v = (iv_outlet_id v, month_of (iv_from_at v), iv_standalone v)"

definition monthly_key :: "monthly \<Rightarrow> month_key" where
  "monthly_key m = (mon_outlet_id m, mon_month m, mon_standalone m)"

definition opt_add :: "rat option \<Rightarrow> rat option \<Rightarrow> rat option" where
  "opt_add e x = (case x of None \<Rightarrow> e | Some v \<Rightarrow> Some (or_else e 0 + v))"

definition agg_step :: "month_sum \<Rightarrow> interval \<Rightarrow> month_sum" where
  "agg_step = (\<lambda>(e, w, n) r. (opt_add e (iv_energy_kwh r), opt_add w (iv_water_liters r), n + 1))"

text \<open>\<open>agg[k] = v\<close>: in place, or at the end of the dictionary.\<close>

fun agg_put :: "month_key \<Rightarrow> month_sum \<Rightarrow> (month_key \<times> month_sum) list \<Rightarrow> (month_key \<times> month_sum) list" where
  "agg_put k v [] = [(k, v)]"
| "agg_put k v ((k', v') # a) = (if k' = k then (k, v) # a else (k', v') # agg_put k v a)"

definition agg_row :: "(month_key \<times> month_sum) list \<Rightarrow> interval \<Rightarrow> (month_key \<times> month_sum) list" where
  "agg_row a r = agg_put (interval_key r)
     (agg_step (or_else (map_of a (interval_key r)) (None, None, 0)) r) a"

definition month_add :: "month_sum \<Rightarrow> monthly \<Rightarrow> monthly" where
  "month_add = (\<lambda>(e, w, n) m. m\<lparr>mon_energy_kwh := opt_add (mon_energy_kwh m) e,
     mon_water_liters := opt_add (mon_water_liters m) w,
     mon_interval_count := mon_interval_count m + n\<rparr>)"

definition new_month :: "month_key \<Rightarrow> monthly" where
  "new_month = (\<lambda>(oid, month, st). \<lparr>mon_outlet_id = oid, mon_month = month, mon_standalone = st,
     mon_energy_kwh = None, mon_water_liters = None, mon_interval_count = 0\<rparr>)"

fun post_month :: "month_key \<times> month_sum \<Rightarrow> monthly list \<Rightarrow> monthly list" where
  "post_month (k, v) [] = [month_add v (new_month k)]"
| "post_month (k, v) (m # ms) = (if monthly_key m = k then month_add v m # ms else m # post_month (k, v) ms)"

definition roll_up_chunk :: "dtime \<Rightarrow> db \<Rightarrow> nat \<times> db" where
  "roll_up_chunk cutoff d =
     (let rows = take CHUNK (filter (\<lambda>v. iv_to_at v < cutoff) (db_intervals d));
          agg = foldl agg_row [] rows
      in (length rows,
          d\<lparr>db_monthly := foldl (\<lambda>ms x. post_month x ms) (db_monthly d) agg,
            db_intervals := filter (\<lambda>v. iv_id v \<notin> iv_id ` set rows) (db_intervals d)\<rparr>))"

lemma roll_up_chunk_rows:
  "roll_up_chunk cutoff d = (n, d') \<Longrightarrow>
   (n, db_intervals d') = delete_chunk iv_id (\<lambda>v. iv_to_at v < cutoff) (db_intervals d)"
  by (auto simp: roll_up_chunk_def delete_chunk_def Let_def)

function roll_up_intervals :: "dtime \<Rightarrow> db \<Rightarrow> nat \<times> db" where
  "roll_up_intervals cutoff d =
     (case roll_up_chunk cutoff d of (n, d') \<Rightarrow>
        if n = 0 then (0, d) else (case roll_up_intervals cutoff d' of (m, d2) \<Rightarrow> (n + m, d2)))"
  by pat_completeness auto
termination
  by (relation "measure (\<lambda>(_, d). length (db_intervals d))")
     (auto dest!: roll_up_chunk_rows[OF sym] dest: delete_chunk_shorter[OF sym])

declare roll_up_intervals.simps [simp del]

interpretation roll: chunk_loop "roll_up_chunk cutoff" "roll_up_intervals cutoff" "\<lambda>d. length (db_intervals d)"
  for cutoff :: dtime
proof (unfold_locales, goal_cases)
  case (1 d)
  show ?case by (rule roll_up_intervals.simps)
next
  case (2 d n d')
  from roll_up_chunk_rows[OF 2(1)] 2(2) show ?case by (auto dest: delete_chunk_shorter[OF sym])
qed

section \<open>Nothing is lost in a roll-up\<close>

text \<open>
  A quantity the roll-up carries over (energy, water, number of intervals): what it is in an
  interval, in an aggregate and in a month row, and that adding is adding.
\<close>

locale booked_quantity =
  fixes iv_q :: "interval \<Rightarrow> rat" and agg_q :: "month_sum \<Rightarrow> rat" and mon_q :: "monthly \<Rightarrow> rat"
  assumes step: "agg_q (agg_step v r) = agg_q v + iv_q r"
    and zero: "agg_q (None, None, 0) = 0"
    and add: "mon_q (month_add v m) = mon_q m + agg_q v"
    and new: "mon_q (new_month k) = 0"
begin

lemma month_add_key: "monthly_key (month_add v m) = monthly_key m"
  by (cases v) (simp add: month_add_def monthly_key_def)

lemma new_month_key: "monthly_key (new_month k) = k"
  by (cases k) (simp add: new_month_def monthly_key_def)

lemma put_sum:
  "sum_list (map (\<lambda>x. agg_q (snd x)) (filter (\<lambda>x. fst x = k) (agg_put k' v a))) =
   sum_list (map (\<lambda>x. agg_q (snd x)) (filter (\<lambda>x. fst x = k) a))
   + (if k = k' then agg_q v - agg_q (or_else (map_of a k') (None, None, 0)) else 0)"
  by (induction k' v a rule: agg_put.induct) (auto simp: zero)

lemma agg_sum:
  "sum_list (map (\<lambda>x. agg_q (snd x)) (filter (\<lambda>x. fst x = k) (foldl agg_row a rows))) =
   sum_list (map (\<lambda>x. agg_q (snd x)) (filter (\<lambda>x. fst x = k) a))
   + sum_list (map iv_q (filter (\<lambda>v. interval_key v = k) rows))"
  by (induction rows arbitrary: a) (auto simp: agg_row_def put_sum step)

lemma post_sum:
  "sum_list (map mon_q (filter (\<lambda>m. monthly_key m = k) (post_month x ms))) =
   sum_list (map mon_q (filter (\<lambda>m. monthly_key m = k) ms)) + (if fst x = k then agg_q (snd x) else 0)"
  by (induction x ms rule: post_month.induct) (auto simp: month_add_key new_month_key add new)

lemma post_all_sum:
  "sum_list (map mon_q (filter (\<lambda>m. monthly_key m = k) (foldl (\<lambda>ms x. post_month x ms) ms agg))) =
   sum_list (map mon_q (filter (\<lambda>m. monthly_key m = k) ms))
   + sum_list (map (\<lambda>x. agg_q (snd x)) (filter (\<lambda>x. fst x = k) agg))"
  by (induction agg arbitrary: ms) (auto simp: post_sum)

lemma chunk_conserves:
  assumes "distinct (map iv_id (db_intervals d))" and "roll_up_chunk cutoff d = (n, d')"
  shows "sum_list (map mon_q (filter (\<lambda>m. monthly_key m = k) (db_monthly d')))
       + sum_list (map iv_q (filter (\<lambda>v. interval_key v = k) (db_intervals d')))
     = sum_list (map mon_q (filter (\<lambda>m. monthly_key m = k) (db_monthly d)))
       + sum_list (map iv_q (filter (\<lambda>v. interval_key v = k) (db_intervals d)))"
proof -
  let ?rows = "take CHUNK (filter (\<lambda>v. iv_to_at v < cutoff) (db_intervals d))"
  let ?S = "\<lambda>vs. sum_list (map iv_q (filter (\<lambda>v. interval_key v = k) vs))"
  have d': "db_monthly d' = foldl (\<lambda>ms x. post_month x ms) (db_monthly d) (foldl agg_row [] ?rows)"
    "db_intervals d' = filter (\<lambda>v. iv_id v \<notin> iv_id ` set ?rows) (db_intervals d)"
    using assms(2) by (auto simp: roll_up_chunk_def Let_def)
  have sub: "set ?rows \<subseteq> set (db_intervals d)" using set_take_subset by fastforce
  have dist: "distinct (db_intervals d)" using assms(1) by (simp add: distinct_map)
  have mem: "iv_id v \<in> iv_id ` set ?rows \<longleftrightarrow> v \<in> set ?rows" if "v \<in> set (db_intervals d)" for v
    using assms(1) that sub by (auto simp: distinct_map dest: inj_onD)
  have iv: "db_intervals d' = filter (\<lambda>v. v \<notin> set ?rows) (db_intervals d)"
    unfolding d' by (rule filter_cong) (simp_all add: mem)
  have S: "?S vs = sum iv_q {v \<in> set vs. interval_key v = k}" if "distinct vs" for vs
    using sum_list_distinct_conv_sum_set[of "filter (\<lambda>v. interval_key v = k) vs" iv_q] that by simp
  have dist': "distinct (db_intervals d')" "distinct ?rows" using dist iv by simp_all
  have "{v \<in> set (db_intervals d). interval_key v = k} =
      {v \<in> set (db_intervals d'). interval_key v = k} \<union> {v \<in> set ?rows. interval_key v = k}"
    using sub iv by auto
  moreover have "{v \<in> set (db_intervals d'). interval_key v = k} \<inter> {v \<in> set ?rows. interval_key v = k} = {}"
    using iv by auto
  ultimately have "?S (db_intervals d) = ?S (db_intervals d') + ?S ?rows"
    unfolding S[OF dist] S[OF dist'(1)] S[OF dist'(2)] by (simp add: sum.union_disjoint)
  then show ?thesis unfolding d'(1) post_all_sum agg_sum by simp
qed

lemma loop_conserves:
  assumes "distinct (map iv_id (db_intervals d))"
  shows "sum_list (map mon_q (filter (\<lambda>m. monthly_key m = k) (db_monthly (snd (roll_up_intervals cutoff d)))))
       + sum_list (map iv_q (filter (\<lambda>v. interval_key v = k) (db_intervals (snd (roll_up_intervals cutoff d)))))
     = sum_list (map mon_q (filter (\<lambda>m. monthly_key m = k) (db_monthly d)))
       + sum_list (map iv_q (filter (\<lambda>v. interval_key v = k) (db_intervals d)))"
proof -
  let ?T = "\<lambda>d. sum_list (map mon_q (filter (\<lambda>m. monthly_key m = k) (db_monthly d)))
       + sum_list (map iv_q (filter (\<lambda>v. interval_key v = k) (db_intervals d)))"
  let ?I = "\<lambda>e. distinct (map iv_id (db_intervals e)) \<and> ?T e = ?T d"
  have "?I (snd (roll_up_intervals cutoff d))"
  proof (rule roll.keeps[where I = ?I])
    fix e n e'
    assume I: "?I e" and b: "roll_up_chunk cutoff e = (n, e')"
    from chunk_conserves[OF _ b] I have "?T e' = ?T d" by simp
    moreover have "distinct (map iv_id (db_intervals e'))"
      using I delete_chunk_exact[OF _ roll_up_chunk_rows[OF b, symmetric]] by blast
    ultimately show "?I e'" by simp
  qed (use assms in simp)
  then show ?thesis by simp
qed

end

interpretation energy_q: booked_quantity energy_of "\<lambda>(e, _, _). or_else e 0" "\<lambda>m. or_else (mon_energy_kwh m) 0"
  by unfold_locales (auto simp: agg_step_def month_add_def new_month_def opt_add_def energy_of_def split: option.splits)

interpretation water_q: booked_quantity "\<lambda>v. or_else (iv_water_liters v) 0" "\<lambda>(_, w, _). or_else w 0"
    "\<lambda>m. or_else (mon_water_liters m) 0"
  by unfold_locales (auto simp: agg_step_def month_add_def new_month_def opt_add_def split: option.splits)

interpretation count_q: booked_quantity "\<lambda>v. 1" "\<lambda>(_, _, n). of_nat n" "\<lambda>m. of_nat (mon_interval_count m)"
  by unfold_locales (auto simp: agg_step_def month_add_def new_month_def)

lemma simulated_is_delete:
  "(fst (delete_simulated_intervals cutoff d), db_intervals (snd (delete_simulated_intervals cutoff d))) =
     delete_older iv_id (sim_old cutoff d) (db_intervals d)"
proof (rule sim.loop_induct[where P = "\<lambda>d r. (fst r, db_intervals (snd r)) =
     delete_older iv_id (sim_old cutoff d) (db_intervals d)"])
  fix d d' :: db assume "simulated_chunk cutoff d = (0, d')"
  from simulated_chunk_rows[OF this] show "(fst (0 :: nat, d), db_intervals (snd (0 :: nat, d))) =
      delete_older iv_id (sim_old cutoff d) (db_intervals d)"
    by (subst delete_older.simps) (auto split: prod.splits)
next
  fix d n d' m d2
  assume b: "simulated_chunk cutoff d = (n, d')" "n \<noteq> 0"
    and ih: "(fst (m :: nat, d2), db_intervals (snd (m, d2))) = delete_older iv_id (sim_old cutoff d') (db_intervals d')"
  from simulated_chunk_rows[OF b(1)] b(2) ih show "(fst (n + m, d2), db_intervals (snd (n + m, d2))) =
      delete_older iv_id (sim_old cutoff d) (db_intervals d)"
    by (subst delete_older.simps) (auto split: prod.splits dest: sym)
qed

lemma roll_up_is_delete:
  "(fst (roll_up_intervals cutoff d), db_intervals (snd (roll_up_intervals cutoff d))) =
     delete_older iv_id (\<lambda>v. iv_to_at v < cutoff) (db_intervals d)"
proof (rule roll.loop_induct[where P = "\<lambda>d r. (fst r, db_intervals (snd r)) =
     delete_older iv_id (\<lambda>v. iv_to_at v < cutoff) (db_intervals d)"])
  fix d d' :: db assume "roll_up_chunk cutoff d = (0, d')"
  from roll_up_chunk_rows[OF this] show "(fst (0 :: nat, d), db_intervals (snd (0 :: nat, d))) =
      delete_older iv_id (\<lambda>v. iv_to_at v < cutoff) (db_intervals d)"
    by (subst delete_older.simps) (auto split: prod.splits)
next
  fix d n d' m d2
  assume b: "roll_up_chunk cutoff d = (n, d')" "n \<noteq> 0"
    and ih: "(fst (m :: nat, d2), db_intervals (snd (m, d2))) = delete_older iv_id (\<lambda>v. iv_to_at v < cutoff) (db_intervals d')"
  from roll_up_chunk_rows[OF b(1)] b(2) ih show "(fst (n + m, d2), db_intervals (snd (n + m, d2))) =
      delete_older iv_id (\<lambda>v. iv_to_at v < cutoff) (db_intervals d)"
    by (subst delete_older.simps) (auto split: prod.splits dest: sym)
qed

lemma simulated_frame:
  "(snd (delete_simulated_intervals cutoff d))\<lparr>db_intervals := x, db_meter_states := y\<rparr> =
     d\<lparr>db_intervals := x, db_meter_states := y\<rparr>"
  by (rule sim.keeps[where I = "\<lambda>e. e\<lparr>db_intervals := x, db_meter_states := y\<rparr> =
        d\<lparr>db_intervals := x, db_meter_states := y\<rparr>"]) (auto simp: simulated_chunk_def Let_def)

lemma roll_up_frame:
  "(snd (roll_up_intervals cutoff d))\<lparr>db_intervals := x, db_monthly := y\<rparr> = d\<lparr>db_intervals := x, db_monthly := y\<rparr>"
  by (rule roll.keeps[where I = "\<lambda>e. e\<lparr>db_intervals := x, db_monthly := y\<rparr> =
        d\<lparr>db_intervals := x, db_monthly := y\<rparr>"]) (auto simp: roll_up_chunk_def Let_def)

text \<open>
  C16. Rolling old intervals up loses nothing and counts nothing twice: for every outlet, month
  and mode, monthly figure plus remaining intervals is the same before and after, in
  energy, in water and in number of intervals, and exactly the intervals that ended before
  the cut-off are gone.
\<close>

theorem roll_up_conserves:
  assumes "distinct (map iv_id (db_intervals d))"
  shows "let d' = snd (roll_up_intervals cutoff d);
       booked = (\<lambda>mon_q iv_q e. sum_list (map mon_q (filter (\<lambda>m. monthly_key m = k) (db_monthly e)))
                  + sum_list (map iv_q (filter (\<lambda>v. interval_key v = k) (db_intervals e))) :: rat)
     in booked (\<lambda>m. or_else (mon_energy_kwh m) 0) (\<lambda>v. or_else (iv_energy_kwh v) 0) d'
          = booked (\<lambda>m. or_else (mon_energy_kwh m) 0) (\<lambda>v. or_else (iv_energy_kwh v) 0) d
      \<and> booked (\<lambda>m. or_else (mon_water_liters m) 0) (\<lambda>v. or_else (iv_water_liters v) 0) d'
          = booked (\<lambda>m. or_else (mon_water_liters m) 0) (\<lambda>v. or_else (iv_water_liters v) 0) d
      \<and> booked (\<lambda>m. of_nat (mon_interval_count m)) (\<lambda>v. 1) d'
          = booked (\<lambda>m. of_nat (mon_interval_count m)) (\<lambda>v. 1) d
      \<and> db_intervals d' = filter (\<lambda>v. cutoff \<le> iv_to_at v) (db_intervals d)
      \<and> fst (roll_up_intervals cutoff d) = length (filter (\<lambda>v. iv_to_at v < cutoff) (db_intervals d))"
proof -
  have "delete_older iv_id (\<lambda>v. iv_to_at v < cutoff) (db_intervals d) =
      (length (filter (\<lambda>v. iv_to_at v < cutoff) (db_intervals d)),
       filter (\<lambda>v. cutoff \<le> iv_to_at v) (db_intervals d))"
    by (simp add: delete_older_exact[OF assms] not_less)
  with roll_up_is_delete[of cutoff d] have
    "fst (roll_up_intervals cutoff d) = length (filter (\<lambda>v. iv_to_at v < cutoff) (db_intervals d))"
    "db_intervals (snd (roll_up_intervals cutoff d)) = filter (\<lambda>v. cutoff \<le> iv_to_at v) (db_intervals d)"
    by (metis fst_conv, metis snd_conv)
  with energy_q.loop_conserves[OF assms, of k cutoff] water_q.loop_conserves[OF assms, of k cutoff]
    count_q.loop_conserves[OF assms, of k cutoff]
  show ?thesis by (simp add: Let_def energy_of_def[abs_def])
qed

theorem roll_up_conserves_witness:
  "let d = snd (record_reading metered_db sample_cabinet sample_outlet 12 60) in
   db_intervals (snd (roll_up_intervals 100 d)) = filter (\<lambda>v. 100 \<le> iv_to_at v) (db_intervals d)"
proof -
  have "metering_ok empty_db" by (simp add: metering_ok_def empty_db_def table_valid_def)
  then have "distinct (map iv_id (db_intervals (snd (record_reading metered_db sample_cabinet sample_outlet 12 60))))"
    by (simp add: metered_db_def record_reading_def empty_db_def meter_of_def Let_def extends_idle_def last_interval_def)
  from roll_up_conserves[OF this, of 100] show ?thesis by (simp add: Let_def)
qed

section \<open>A retention pass\<close>

text \<open>\<open>windows()\<close> with the settings of \<open>config.py\<close>: table, days.\<close>

definition WINDOWS :: "(string \<times> int) list" where
  "WINDOWS =
    [(''sync_log'', 30), (''session_log'', 90), (''alarm_log'', 400), (''command_audit'', 730),
     (''audit_log'', 730), (''reconciliation_runs'', 90), (''pedestal_cache'', 30),
     (''auth_audit'', 730), (''setup_tokens'', 30), (''security_alarms'', 730), (''decoy_hits'', 730),
     (''service_windows'', 400), (''berth_reservations'', 400), (''security_agent_passes'', 7)]"

definition RETENTION_SIMULATED_DAYS :: int where "RETENTION_SIMULATED_DAYS = 30"
definition RETENTION_INTERVALS_DAYS :: int where "RETENTION_INTERVALS_DAYS = 400"

definition cutoff_of :: "dtime \<Rightarrow> string \<Rightarrow> dtime" where
  "cutoff_of now name = now - days (or_else (map_of WINDOWS name) 0)"

definition cache_old :: "dtime \<Rightarrow> pedestal_cache \<Rightarrow> bool" where
  "cache_old cutoff c \<longleftrightarrow> (case pc_last_synced_at c of None \<Rightarrow> False | Some t \<Rightarrow> t < cutoff)"

definition run_windows :: "dtime \<Rightarrow> db \<Rightarrow> (string \<times> nat) list \<times> db" where
  "run_windows now d =
     (let c = cutoff_of now;
          sy = delete_older sy_id (\<lambda>r. sy_started_at r < c ''sync_log'') (db_sync_log d);
          sl = delete_older sl_id (\<lambda>r. sl_recorded_at r < c ''session_log'') (db_session_log d);
          al = delete_older al_id (\<lambda>r. al_received_at r < c ''alarm_log'') (db_alarm_log d);
          cm = delete_older cmd_id (\<lambda>r. cmd_created_at r < c ''command_audit'') (db_command_audit d);
          au = delete_older au_id (\<lambda>r. au_performed_at r < c ''audit_log'') (db_audit_log d);
          rr = delete_older run_id (\<lambda>r. run_started_at r < c ''reconciliation_runs'') (db_runs d);
          pc = delete_older pc_id (cache_old (c ''pedestal_cache'')) (db_cache d);
          aa = delete_older aa_id (\<lambda>r. aa_created_at r < c ''auth_audit'') (db_auth_audit d);
          st = delete_older stk_id (\<lambda>r. stk_expires_at r < c ''setup_tokens'') (db_setup_tokens d);
          sa = delete_older sa_id (\<lambda>r. sa_created_at r < c ''security_alarms'') (db_security_alarms d);
          dh = delete_older dh_id (\<lambda>r. dh_observed_at r < c ''decoy_hits'') (db_decoy_hits d);
          sw = delete_older sw_id (\<lambda>r. sw_to_at r < c ''service_windows'') (db_service_windows d);
          br = delete_older brs_id (\<lambda>r. brs_ends_at r < c ''berth_reservations'') (db_reservations d);
          ap = delete_older ap_id (\<lambda>r. ap_finished_at r < c ''security_agent_passes'') (db_agent_passes d)
      in (zip (map fst WINDOWS)
            [fst sy, fst sl, fst al, fst cm, fst au, fst rr, fst pc, fst aa, fst st, fst sa, fst dh, fst sw, fst br, fst ap],
          d\<lparr>db_sync_log := snd sy, db_session_log := snd sl, db_alarm_log := snd al,
            db_command_audit := snd cm, db_audit_log := snd au, db_runs := snd rr, db_cache := snd pc,
            db_auth_audit := snd aa, db_setup_tokens := snd st, db_security_alarms := snd sa,
            db_decoy_hits := snd dh, db_service_windows := snd sw, db_reservations := snd br,
            db_agent_passes := snd ap\<rparr>))"

definition run_retention :: "dtime \<Rightarrow> db \<Rightarrow> (string \<times> nat) list \<times> db" where
  "run_retention now d =
     (case run_windows now d of (out1, d1) \<Rightarrow>
      (case delete_simulated_intervals (now - days RETENTION_SIMULATED_DAYS) d1 of (n, d2) \<Rightarrow>
       (case roll_up_intervals (now - days RETENTION_INTERVALS_DAYS) d2 of (m, d3) \<Rightarrow>
          (out1 @ [(''simulated_intervals'', n), (''consumption_intervals'', m)], d3))))"

definition ids_distinct :: "db \<Rightarrow> bool" where
  "ids_distinct d \<longleftrightarrow>
     distinct (map sy_id (db_sync_log d)) \<and> distinct (map sl_id (db_session_log d))
   \<and> distinct (map al_id (db_alarm_log d)) \<and> distinct (map cmd_id (db_command_audit d))
   \<and> distinct (map au_id (db_audit_log d)) \<and> distinct (map run_id (db_runs d))
   \<and> distinct (map pc_id (db_cache d)) \<and> distinct (map aa_id (db_auth_audit d))
   \<and> distinct (map stk_id (db_setup_tokens d)) \<and> distinct (map sa_id (db_security_alarms d))
   \<and> distinct (map dh_id (db_decoy_hits d)) \<and> distinct (map sw_id (db_service_windows d))
   \<and> distinct (map brs_id (db_reservations d)) \<and> distinct (map ap_id (db_agent_passes d))
   \<and> distinct (map iv_id (db_intervals d))"

lemma run_windows_exact:
  assumes "ids_distinct d"
  shows "snd (run_windows now d) =
    (let c = cutoff_of now in
     d\<lparr>db_sync_log := filter (\<lambda>r. \<not> sy_started_at r < c ''sync_log'') (db_sync_log d),
       db_session_log := filter (\<lambda>r. \<not> sl_recorded_at r < c ''session_log'') (db_session_log d),
       db_alarm_log := filter (\<lambda>r. \<not> al_received_at r < c ''alarm_log'') (db_alarm_log d),
       db_command_audit := filter (\<lambda>r. \<not> cmd_created_at r < c ''command_audit'') (db_command_audit d),
       db_audit_log := filter (\<lambda>r. \<not> au_performed_at r < c ''audit_log'') (db_audit_log d),
       db_runs := filter (\<lambda>r. \<not> run_started_at r < c ''reconciliation_runs'') (db_runs d),
       db_cache := filter (\<lambda>r. \<not> cache_old (c ''pedestal_cache'') r) (db_cache d),
       db_auth_audit := filter (\<lambda>r. \<not> aa_created_at r < c ''auth_audit'') (db_auth_audit d),
       db_setup_tokens := filter (\<lambda>r. \<not> stk_expires_at r < c ''setup_tokens'') (db_setup_tokens d),
       db_security_alarms := filter (\<lambda>r. \<not> sa_created_at r < c ''security_alarms'') (db_security_alarms d),
       db_decoy_hits := filter (\<lambda>r. \<not> dh_observed_at r < c ''decoy_hits'') (db_decoy_hits d),
       db_service_windows := filter (\<lambda>r. \<not> sw_to_at r < c ''service_windows'') (db_service_windows d),
       db_reservations := filter (\<lambda>r. \<not> brs_ends_at r < c ''berth_reservations'') (db_reservations d),
       db_agent_passes := filter (\<lambda>r. \<not> ap_finished_at r < c ''security_agent_passes'') (db_agent_passes d)\<rparr>)"
  using assms unfolding ids_distinct_def run_windows_def Let_def by (simp only: delete_older_exact snd_conv)



end
