(* ===== verification/Cabinets.thy ===== *)
theory Cabinets
  imports Schema
begin

text \<open>
  \<open>services/cabinets.py\<close>: provisioning a cabinet with the outlets its type has, creating
  berths, the ERP's own mapping of berths to outlets, and its comparison with the cabinet's.
  Every operation answers the refusal or the new database; a refusal leaves the old one.
  Encryption is a parameter.
\<close>

datatype domain_error = Domain string | Integrity

text \<open>\<open>_actor\<close>: who makes the change, never blank.\<close>

definition actor_of :: "string option \<Rightarrow> domain_error + string" where
  "actor_of a = (case a of
     None \<Rightarrow> Inl (Domain ''an actor is required'')
   | Some s \<Rightarrow> if strip s = [] then Inl (Domain ''an actor is required'') else Inr (strip s))"

section \<open>What a device type has\<close>

record outlet_spec =
  os_name :: string
  os_medium :: string
  os_phases :: "int option"
  os_amps :: "int option"
  os_lpm :: "int option"

definition electric :: "string \<Rightarrow> int option \<Rightarrow> int option \<Rightarrow> outlet_spec" where
  "electric n p a = \<lparr>os_name = n, os_medium = ''electricity'', os_phases = p, os_amps = a, os_lpm = None\<rparr>"

definition water :: "string \<Rightarrow> int option \<Rightarrow> outlet_spec" where
  "water n l = \<lparr>os_name = n, os_medium = ''water'', os_phases = None, os_amps = None, os_lpm = l\<rparr>"

definition OUTLETS_BY_TYPE :: "string \<Rightarrow> outlet_spec list option" where
  "OUTLETS_BY_TYPE = map_of
    [(''full'',
       [electric ''Q1'' (Some 3) (Some 32), electric ''Q2'' (Some 1) (Some 32),
        electric ''Q3'' (Some 1) (Some 16), electric ''Q4'' (Some 1) (Some 16),
        water ''V1'' (Some 20), water ''V2'' (Some 20)]),
     (''retrofit'', map (\<lambda>n. electric n None None) [''Q1'', ''Q2'', ''Q3'', ''Q4''])]"

definition CAPABILITIES_BY_TYPE :: "string \<Rightarrow> (string \<times> bool) list" where
  "CAPABILITIES_BY_TYPE t = or_else (map_of
    [(''full'',
       [(''power'', True), (''water'', True), (''vessel_detect'', True), (''camera'', True),
        (''door'', True), (''breaker'', True), (''load_meter'', True)]),
     (''retrofit'',
       [(''power'', True), (''water'', False), (''vessel_detect'', False), (''camera'', False),
        (''door'', False), (''breaker'', True), (''load_meter'', True)])] t) []"

section \<open>Provisioning\<close>

text \<open>\<open>UNIQUE (marina_id, display_id)\<close> and \<open>UNIQUE (marina_id, base_url, pedestal_pk)\<close>.\<close>

definition cabinet_apart :: "cabinet \<Rightarrow> cabinet \<Rightarrow> bool" where
  "cabinet_apart a b \<longleftrightarrow> cab_id a \<noteq> cab_id b
   \<and> (cab_marina_id a, cab_display_id a) \<noteq> (cab_marina_id b, cab_display_id b)
   \<and> (cab_marina_id a, cab_base_url a, cab_pedestal_pk a) \<noteq> (cab_marina_id b, cab_base_url b, cab_pedestal_pk b)"

definition outlet_apart :: "outlet \<Rightarrow> outlet \<Rightarrow> bool" where
  "outlet_apart a b \<longleftrightarrow> out_id a \<noteq> out_id b
   \<and> (out_cabinet_id a, out_outlet_name a) \<noteq> (out_cabinet_id b, out_outlet_name b)"

interpretation cabinets_t: constrained_table cabinet_checks cabinet_apart
  by unfold_locales (auto simp: cabinet_apart_def)

interpretation outlets_t: constrained_table outlet_checks outlet_apart
  by unfold_locales (auto simp: outlet_apart_def)

record cabinet_form =
  cf_marina_id :: nat
  cf_pedestal_pk :: int
  cf_display_id :: string
  cf_device_type :: string
  cf_base_url :: string
  cf_service_email :: string
  cf_service_password :: string
  cf_erp_api_key :: "string option"
  cf_dock :: "string option"
  cf_webhook_key :: "string option"
  cf_webhook_hmac :: bool
  cf_webhook_secret :: "string option"
  cf_is_simulated :: bool

text \<open>\<open>encrypt(x) if x else None\<close>.\<close>

definition enc_opt :: "(string \<Rightarrow> string) \<Rightarrow> string option \<Rightarrow> string option" where
  "enc_opt enc v = (if truthy v then map_option enc v else None)"

definition rstrip_url :: "string \<Rightarrow> string" where
  "rstrip_url s = rev (dropWhile (\<lambda>c. c = CHR ''/'') (rev s))"

definition cabinet_row :: "(string \<Rightarrow> string) \<Rightarrow> nat \<Rightarrow> cabinet_form \<Rightarrow> cabinet" where
  "cabinet_row enc i f = \<lparr>cab_id = i, cab_marina_id = cf_marina_id f, cab_pedestal_pk = cf_pedestal_pk f,
     cab_display_id = cf_display_id f, cab_device_type = cf_device_type f,
     cab_base_url = rstrip_url (cf_base_url f), cab_service_email = cf_service_email f,
     cab_service_pw_enc = enc (cf_service_password f), cab_erp_api_key_enc = enc_opt enc (cf_erp_api_key f),
     cab_dock = cf_dock f, cab_webhook_key_enc = enc_opt enc (cf_webhook_key f),
     cab_webhook_hmac = cf_webhook_hmac f, cab_webhook_secret_enc = enc_opt enc (cf_webhook_secret f),
     cab_smart_mode = None, cab_last_heartbeat_at = None, cab_last_polled_at = None,
     cab_is_simulated = cf_is_simulated f\<rparr>"

definition outlet_row :: "nat \<Rightarrow> nat \<Rightarrow> outlet_spec \<Rightarrow> outlet" where
  "outlet_row i c s = \<lparr>out_id = i, out_cabinet_id = c, out_outlet_name = os_name s, out_medium = os_medium s,
     out_phases = os_phases s, out_rated_amps = os_amps s, out_rated_lpm = os_lpm s\<rparr>"

fun add_outlets :: "nat \<Rightarrow> outlet_spec list \<Rightarrow> outlet list \<Rightarrow> outlet list" where
  "add_outlets c [] os = os"
| "add_outlets c (s # ss) os = add_outlets c ss (os @ [outlet_row (next_id out_id os) c s])"

definition provision_cabinet ::
    "(string \<Rightarrow> string) \<Rightarrow> db \<Rightarrow> cabinet_form \<Rightarrow> dtime \<Rightarrow> domain_error + cabinet \<times> db" where
  "provision_cabinet enc d f now =
     (case OUTLETS_BY_TYPE (cf_device_type f) of
        None \<Rightarrow> Inl (Domain ''device_type must be full|retrofit'')
      | Some specs \<Rightarrow>
          if cf_webhook_hmac f \<and> \<not> truthy (cf_webhook_secret f)
          then Inl (Domain ''webhook_hmac needs webhook_secret'')
          else (let c = cabinet_row enc (next_id cab_id (db_cabinets d)) f in
            if \<not> (cabinet_checks c \<and> list_all (\<lambda>x. cabinet_apart x c) (db_cabinets d)) then Inl Integrity
            else Inr (c, d\<lparr>
              db_cabinets := db_cabinets d @ [c],
              db_outlets := add_outlets (cab_id c) specs (db_outlets d),
              db_capabilities := db_capabilities d @ map (\<lambda>(cap, av). \<lparr>cap_cabinet_id = cab_id c,
                 cap_capability = cap, cap_available = av, cap_checked_at = now, cap_set_by = None,
                 cap_reason = None, cap_note = None\<rparr>) (CAPABILITIES_BY_TYPE (cf_device_type f)),
              db_mapping := db_mapping d @ [\<lparr>mc_cabinet_id = cab_id c, mc_state = ''unverifiable'',
                 mc_divergent_rows = None, mc_checked_at = now\<rparr>]\<rparr>)))"

definition outlet_of :: "db \<Rightarrow> nat \<Rightarrow> string \<Rightarrow> domain_error + outlet" where
  "outlet_of d c n = (case find (\<lambda>o1. out_cabinet_id o1 = c \<and> out_outlet_name o1 = n) (db_outlets d) of
     None \<Rightarrow> Inl (Domain (''no outlet '' @ n)) | Some o1 \<Rightarrow> Inr o1)"

definition berth_apart :: "berth \<Rightarrow> berth \<Rightarrow> bool" where
  "berth_apart a b \<longleftrightarrow> (ber_marina_id a, ber_berth_number a) \<noteq> (ber_marina_id b, ber_berth_number b)
   \<and> (ber_cabinet_id a = None \<or> ber_cabinet_berth_id a = None
      \<or> (ber_cabinet_id a, ber_cabinet_berth_id a) \<noteq> (ber_cabinet_id b, ber_cabinet_berth_id b))"

definition create_berth ::
    "db \<Rightarrow> nat \<Rightarrow> string \<Rightarrow> nat option \<Rightarrow> int option \<Rightarrow> string option \<Rightarrow> dtime \<Rightarrow> domain_error + berth \<times> db" where
  "create_berth d m nr cid cbid svg now =
     (if (cid = None) \<noteq> (cbid = None) then Inl (Domain ''cabinet_id and cabinet_berth_id go together'')
      else if cid \<noteq> None \<and> \<not> list_ex (\<lambda>c. Some (cab_id c) = cid \<and> cab_marina_id c = m) (db_cabinets d)
      then Inl (Domain ''cabinet is not in marina'')
      else (let b = \<lparr>ber_id = next_id ber_id (db_berths d), ber_marina_id = m, ber_berth_number = nr,
                  ber_svg_id = svg, ber_cabinet_id = cid, ber_cabinet_berth_id = cbid, ber_length_m = None,
                  ber_created_at = now\<rparr>
            in if \<not> list_all (\<lambda>x. berth_apart x b) (db_berths d) then Inl Integrity
               else Inr (b, d\<lparr>db_berths := db_berths d @ [b]\<rparr>)))"

section \<open>Comparing the two mappings\<close>

text \<open>The berths, by the cabinet's own numbers, that one side says an outlet serves.\<close>

definition erp_pairs :: "db \<Rightarrow> nat \<Rightarrow> (string \<times> int option) list" where
  "erp_pairs d c = concat (map (\<lambda>o1. concat (map (\<lambda>bo.
       map (\<lambda>b. (out_outlet_name o1, ber_cabinet_berth_id b))
         (filter (\<lambda>b. ber_id b = bo_berth_id bo) (db_berths d)))
     (filter (\<lambda>bo. bo_outlet_id bo = out_id o1) (db_berth_outlets d))))
     (filter (\<lambda>o1. out_cabinet_id o1 = c) (db_outlets d)))"

definition cabinet_pairs :: "db \<Rightarrow> nat \<Rightarrow> (string \<times> int option) list" where
  "cabinet_pairs d c = map (\<lambda>r. (boc_outlet_name r, boc_cabinet_berth_id r))
     (filter (\<lambda>r. boc_cabinet_id r = c) (db_berth_outlets_cabinet d))"

definition berths_on :: "(string \<times> int option) list \<Rightarrow> string \<Rightarrow> int option list" where
  "berths_on ps n = map snd (filter (\<lambda>p. fst p = n) ps)"

definition shown :: "int option list \<Rightarrow> int list" where
  "shown l = sort (remdups (List.map_filter id l))"

definition divergent_rows :: "(string \<times> int option) list \<Rightarrow> (string \<times> int option) list \<Rightarrow> (string \<times> int list \<times> int list) list" where
  "divergent_rows erp theirs =
     map (\<lambda>n. (n, shown (berths_on erp n), shown (berths_on theirs n)))
       (filter (\<lambda>n. set (berths_on erp n) \<noteq> set (berths_on theirs n))
          (sort (remdups (map fst erp @ map fst theirs))))"

definition compare_pairs :: "db \<Rightarrow> nat \<Rightarrow> string \<times> (string \<times> int list \<times> int list) list" where
  "compare_pairs d c =
     (if cabinet_pairs d c = [] then (''unverifiable'', [])
      else (let dv = divergent_rows (erp_pairs d c) (cabinet_pairs d c)
            in (if dv = [] then ''in_sync'' else ''divergent'', dv)))"

definition compare_mapping :: "db \<Rightarrow> nat \<Rightarrow> dtime \<Rightarrow> (string \<times> (string \<times> int list \<times> int list) list) \<times> db" where
  "compare_mapping d c now =
     (let r = compare_pairs d c;
          row = \<lparr>mc_cabinet_id = c, mc_state = fst r,
                 mc_divergent_rows = (if snd r = [] then None else Some (snd r)), mc_checked_at = now\<rparr>
      in (r, d\<lparr>db_mapping := (if list_ex (\<lambda>m. mc_cabinet_id m = c) (db_mapping d)
                then update_where (\<lambda>m. mc_cabinet_id m = c) (\<lambda>_. row) (db_mapping d)
                else db_mapping d @ [row])\<rparr>))"

section \<open>Setting a berth's outlets\<close>

fun outlets_of :: "db \<Rightarrow> nat \<Rightarrow> string list \<Rightarrow> domain_error + outlet list" where
  "outlets_of d c [] = Inr []"
| "outlets_of d c (n # ns) = sbind (outlet_of d c n) (\<lambda>o1. sbind (outlets_of d c ns) (\<lambda>os. Inr (o1 # os)))"

definition new_berth_outlets :: "nat \<Rightarrow> outlet list \<Rightarrow> string \<Rightarrow> string \<Rightarrow> dtime \<Rightarrow> berth_outlet list" where
  "new_berth_outlets b outs source actor now = map (\<lambda>o1. \<lparr>bo_berth_id = b, bo_outlet_id = out_id o1,
     bo_medium = out_medium o1, bo_source = source, bo_assigned_by = actor, bo_assigned_at = now\<rparr>) outs"

definition taken_by_other :: "db \<Rightarrow> nat \<Rightarrow> outlet \<Rightarrow> bool" where
  "taken_by_other d b o1 \<longleftrightarrow> list_ex (\<lambda>r. bo_outlet_id r = out_id o1 \<and> bo_berth_id r \<noteq> b) (db_berth_outlets d)"

definition set_berth_outlets ::
    "db \<Rightarrow> berth \<Rightarrow> string list \<Rightarrow> string option \<Rightarrow> string \<Rightarrow> dtime \<Rightarrow> domain_error + berth_outlet list \<times> db" where
  "set_berth_outlets d b names assigned_by source now =
     sbind (actor_of assigned_by) (\<lambda>actor.
       case ber_cabinet_id b of
         None \<Rightarrow> Inl (Domain ''the berth is not linked to a cabinet'')
       | Some c \<Rightarrow> sbind (outlets_of d c names) (\<lambda>outs.
           let elec = filter (\<lambda>o1. out_medium o1 = ''electricity'') outs in
           if 1 < length elec then Inl (Domain ''a berth has at most one electricity outlet (D1)'')
           else if list_ex (taken_by_other d (ber_id b)) elec then Inl (Domain ''outlet already serves another berth (D1)'')
           else (let rows = new_berth_outlets (ber_id b) outs source actor now;
                     table = filter (\<lambda>r. bo_berth_id r \<noteq> ber_id b) (db_berth_outlets d) @ rows
                 in if \<not> table_valid berth_outlet_checks berth_outlet_apart table then Inl Integrity
                    else Inr (rows, snd (compare_mapping (d\<lparr>db_berth_outlets := table\<rparr>) c now)))))"

section \<open>The mapping invariant\<close>

text \<open>The constraints of the table and the copied medium (the composite foreign key).\<close>

definition mapping_ok :: "db \<Rightarrow> bool" where
  "mapping_ok d \<longleftrightarrow> table_valid berth_outlet_checks berth_outlet_apart (db_berth_outlets d)
   \<and> (\<forall>r \<in> set (db_berth_outlets d). \<exists>o1 \<in> set (db_outlets d). out_id o1 = bo_outlet_id r \<and> out_medium o1 = bo_medium r)"

lemma outlet_of_Inr: "outlet_of d c n = Inr o1 \<Longrightarrow> o1 \<in> set (db_outlets d) \<and> out_cabinet_id o1 = c \<and> out_outlet_name o1 = n"
  by (auto simp: outlet_of_def split: option.splits dest!: find_Some_D)

lemma outlets_of_Inr:
  "outlets_of d c ns = Inr outs \<Longrightarrow>
     map out_outlet_name outs = ns \<and> set outs \<subseteq> set (db_outlets d) \<and> (\<forall>o1 \<in> set outs. out_cabinet_id o1 = c)"
  by (induction ns arbitrary: outs) (auto simp: sbind_Inr dest!: outlet_of_Inr)

lemma outlets_of_error: "outlets_of d c ns \<noteq> Inl Integrity"
  by (induction ns) (auto simp: sbind_def outlet_of_def split: sum.splits option.splits)

lemma strip_not_blank: "strip s \<noteq> [] \<Longrightarrow> sql_trim (strip s) \<noteq> []"
proof
  assume s: "strip s \<noteq> []" "sql_trim (strip s) = []"
  have sp: "dropWhile P l = [] \<longleftrightarrow> (\<forall>x \<in> set l. P x)" for P and l :: string by (simp add: dropWhile_eq_Nil_conv)
  obtain c r where l: "lstrip s = c # r" using s(1) by (cases "lstrip s") (auto simp: strip_def)
  have c: "\<not> is_space c" using l by (simp add: lstrip_def dropWhile_eq_Cons_conv)
  have "c \<in> set (strip s)"
  proof -
    have "rev (c # r) = rev r @ [c]" by simp
    then have "c \<in> set (dropWhile is_space (rev (c # r)))" using c by (simp add: dropWhile_append)
    then show ?thesis by (simp add: strip_def l)
  qed
  moreover have "c \<noteq> CHR '' ''" using c by (auto simp: is_space_def)
  moreover have "\<forall>x \<in> set (strip s). x = CHR '' ''"
  proof -
    have "\<forall>x \<in> set (dropWhile (\<lambda>c. c = CHR '' '') (strip s)). x = CHR '' ''"
      using s(2) unfolding sql_trim_def by (simp only: rev_is_Nil_conv sp set_rev)
    then have "dropWhile (\<lambda>c. c = CHR '' '') (strip s) = []"
      using hd_dropWhile[of "\<lambda>c. c = CHR '' ''" "strip s"] hd_in_set by (metis sp)
    then show ?thesis by (simp only: sp)
  qed
  ultimately show False by blast
qed

lemma compare_keeps [simp]:
  "db_berth_outlets (snd (compare_mapping d c now)) = db_berth_outlets d"
  "db_outlets (snd (compare_mapping d c now)) = db_outlets d"
  by (simp_all add: compare_mapping_def Let_def)

lemma new_rows_sel [simp]:
  "map bo_outlet_id (new_berth_outlets b outs source actor now) = map out_id outs"
  "map bo_medium (new_berth_outlets b outs source actor now) = map out_medium outs"
  by (simp_all add: new_berth_outlets_def)

lemma apart_distinct: "sorted_wrt R xs \<Longrightarrow> (\<And>a b. R a b \<Longrightarrow> f a \<noteq> f b) \<Longrightarrow> distinct (map f xs)"
  by (induction xs) auto

text \<open>New rows of one berth are apart when their outlets differ and at most one is electric.\<close>

lemma new_rows_apart:
  assumes "distinct (map out_id outs)" and "length (filter (\<lambda>o1. out_medium o1 = ''electricity'') outs) \<le> 1"
  shows "sorted_wrt berth_outlet_apart (new_berth_outlets b outs source actor now)"
  using assms
proof (induction outs)
  case (Cons o1 outs)
  let ?f = "\<lambda>o1. \<lparr>bo_berth_id = b, bo_outlet_id = out_id o1, bo_medium = out_medium o1, bo_source = source,
      bo_assigned_by = actor, bo_assigned_at = now\<rparr>"
  have e: "out_medium x \<noteq> ''electricity''" if "out_medium o1 = ''electricity''" "x \<in> set outs" for x
  proof -
    have "filter (\<lambda>o1. out_medium o1 = ''electricity'') outs = []" using Cons.prems(2) that(1) by simp
    with that(2) show ?thesis by (simp add: filter_empty_conv)
  qed
  have le: "length (filter (\<lambda>o1. out_medium o1 = ''electricity'') outs) \<le> 1"
    using Cons.prems(2) by (simp split: if_splits)
  have "berth_outlet_apart (?f o1) (?f x)" if "x \<in> set outs" for x
  proof -
    have "out_id o1 \<noteq> out_id x" using Cons.prems(1) that by auto
    with e[OF _ that] show ?thesis by (simp add: berth_outlet_apart_def)
  qed
  with Cons.IH Cons.prems(1) le show ?case by (simp add: new_berth_outlets_def)
qed (simp add: new_berth_outlets_def)

lemma old_new_apart:
  assumes old: "r \<in> set (db_berth_outlets d)" "bo_berth_id r \<noteq> b"
    and free: "\<not> list_ex (taken_by_other d b) (filter (\<lambda>o1. out_medium o1 = ''electricity'') outs)"
    and new: "s \<in> set (new_berth_outlets b outs source actor now)"
  shows "berth_outlet_apart r s"
proof -
  from new obtain o2 where o2: "o2 \<in> set outs" "bo_outlet_id s = out_id o2" "bo_medium s = out_medium o2" "bo_berth_id s = b"
    by (auto simp: new_berth_outlets_def)
  have "bo_outlet_id r \<noteq> out_id o2" if "out_medium o2 = ''electricity''"
  proof
    assume "bo_outlet_id r = out_id o2"
    with old have "taken_by_other d b o2" by (auto simp: taken_by_other_def list_ex_iff)
    with free o2(1) that show False by (simp add: list_ex_iff)
  qed
  with o2 old(2) show ?thesis by (simp add: berth_outlet_apart_def)
qed

lemma distinct_outlets:
  assumes "table_valid outlet_checks outlet_apart (db_outlets d)" and "outlets_of d c names = Inr outs" and "distinct names"
  shows "distinct (map out_id outs)"
proof -
  have s: "map out_outlet_name outs = names" "set outs \<subseteq> set (db_outlets d)"
    using outlets_of_Inr[OF assms(2)] by auto
  have dist: "distinct outs" using s(1) assms(3) by (metis distinct_map)
  have "distinct (map out_id (db_outlets d))"
    using assms(1) by (auto simp: table_valid_def outlet_apart_def intro: apart_distinct)
  then show ?thesis using s dist by (auto simp: distinct_map intro: inj_on_subset)
qed

lemma new_rows_table:
  assumes m: "mapping_ok d" and os: "table_valid outlet_checks outlet_apart (db_outlets d)"
    and outs: "outlets_of d c names = Inr outs" and names: "distinct names"
    and one: "length (filter (\<lambda>o1. out_medium o1 = ''electricity'') outs) \<le> 1"
    and free: "\<not> list_ex (taken_by_other d b) (filter (\<lambda>o1. out_medium o1 = ''electricity'') outs)"
    and src: "source \<in> {''erp_manual'', ''cabinet'', ''confirmed''}" and actor: "sql_trim actor \<noteq> []"
  shows "table_valid berth_outlet_checks berth_outlet_apart
    (filter (\<lambda>r. bo_berth_id r \<noteq> b) (db_berth_outlets d) @ new_berth_outlets b outs source actor now)"
proof -
  have "table_valid berth_outlet_checks berth_outlet_apart (filter (\<lambda>r. bo_berth_id r \<noteq> b) (db_berth_outlets d))"
    using m by (simp add: mapping_ok_def berth_outlets_t.valid_filter)
  moreover have "list_all berth_outlet_checks (new_berth_outlets b outs source actor now)"
    using src actor by (auto simp: new_berth_outlets_def berth_outlet_checks_def list_all_iff)
  moreover have "sorted_wrt berth_outlet_apart (new_berth_outlets b outs source actor now)"
    by (rule new_rows_apart[OF distinct_outlets[OF os outs names] one])
  moreover have "\<forall>r \<in> set (filter (\<lambda>r. bo_berth_id r \<noteq> b) (db_berth_outlets d)).
      \<forall>s \<in> set (new_berth_outlets b outs source actor now). berth_outlet_apart r s"
    using old_new_apart[OF _ _ free] by simp
  ultimately show ?thesis by (simp add: table_valid_def sorted_wrt_append)
qed

lemma new_mapping_ok:
  assumes "mapping_ok d" and "outlets_of d c names = Inr outs"
    and "table_valid berth_outlet_checks berth_outlet_apart
      (filter (\<lambda>r. bo_berth_id r \<noteq> b) (db_berth_outlets d) @ new_berth_outlets b outs source actor now)"
    and "db_berth_outlets d' = filter (\<lambda>r. bo_berth_id r \<noteq> b) (db_berth_outlets d) @ new_berth_outlets b outs source actor now"
    and "db_outlets d' = db_outlets d"
  shows "mapping_ok d'"
proof -
  have "\<exists>o1 \<in> set (db_outlets d). out_id o1 = bo_outlet_id r \<and> out_medium o1 = bo_medium r"
    if "r \<in> set (db_berth_outlets d) \<or> r \<in> set (new_berth_outlets b outs source actor now)" for r
    using that
  proof
    assume "r \<in> set (db_berth_outlets d)"
    with assms(1) show ?thesis by (simp add: mapping_ok_def)
  next
    assume "r \<in> set (new_berth_outlets b outs source actor now)"
    then obtain o1 where "o1 \<in> set outs" "bo_outlet_id r = out_id o1" "bo_medium r = out_medium o1"
      by (auto simp: new_berth_outlets_def)
    with outlets_of_Inr[OF assms(2)] show ?thesis by auto
  qed
  with assms(3-5) show ?thesis by (auto simp: mapping_ok_def)
qed

text \<open>
  C24. Setting a berth's outlets keeps decision D1: an electricity outlet serves one berth, a
  berth has one electricity outlet, and a row's medium is its outlet's. A success replaces
  exactly the rows of that berth by the named outlets; a refusal changes nothing; and the
  database's own refusal is never reached unless the caller names an outlet twice.
\<close>

theorem set_berth_outlets_keeps_D1:
  assumes "mapping_ok d" and "table_valid outlet_checks outlet_apart (db_outlets d)"
    and "source \<in> {''erp_manual'', ''cabinet'', ''confirmed''}"
  shows "case set_berth_outlets d b names who source now of
      Inr (rows, d') \<Rightarrow> mapping_ok d'
        \<and> db_berth_outlets d' = filter (\<lambda>r. bo_berth_id r \<noteq> ber_id b) (db_berth_outlets d) @ rows
        \<and> (\<exists>c outs. ber_cabinet_id b = Some c \<and> outlets_of d c names = Inr outs
             \<and> map bo_outlet_id rows = map out_id outs \<and> map out_outlet_name outs = names)
    | Inl e \<Rightarrow> e = Integrity \<longrightarrow> \<not> distinct names"
proof (cases "set_berth_outlets d b names who source now")
  case (Inl e)
  have "\<not> distinct names" if "e = Integrity"
  proof
    assume names: "distinct names"
    note run = Inl[unfolded that set_berth_outlets_def]
    obtain actor where a: "actor_of who = Inr actor"
      using run by (cases "actor_of who") (auto simp: actor_of_def split: option.splits if_splits)
    obtain c where c: "ber_cabinet_id b = Some c" using run a by (cases "ber_cabinet_id b") auto
    obtain outs where o1: "outlets_of d c names = Inr outs"
      using run a c outlets_of_error[of d c names] by (cases "outlets_of d c names") auto
    have g: "length (filter (\<lambda>o1. out_medium o1 = ''electricity'') outs) \<le> 1"
        "\<not> list_ex (taken_by_other d (ber_id b)) (filter (\<lambda>o1. out_medium o1 = ''electricity'') outs)"
        "\<not> table_valid berth_outlet_checks berth_outlet_apart
          (filter (\<lambda>r. bo_berth_id r \<noteq> ber_id b) (db_berth_outlets d) @ new_berth_outlets (ber_id b) outs source actor now)"
      using run a c o1 by (simp_all add: Let_def split: if_splits)
    from a strip_not_blank have "sql_trim actor \<noteq> []" by (auto simp: actor_of_def split: option.splits if_splits)
    from new_rows_table[OF assms(1,2) o1 names g(1,2) assms(3) this] g(3) show False by simp
  qed
  with Inl show ?thesis by simp
next
  case (Inr x)
  obtain rows d' where x: "x = (rows, d')" by (cases x)
  from Inr x obtain actor c outs where
    o1: "ber_cabinet_id b = Some c" "outlets_of d c names = Inr outs"
    and r: "rows = new_berth_outlets (ber_id b) outs source actor now"
    and t: "table_valid berth_outlet_checks berth_outlet_apart
          (filter (\<lambda>r. bo_berth_id r \<noteq> ber_id b) (db_berth_outlets d) @ rows)"
    and d': "d' = snd (compare_mapping (d\<lparr>db_berth_outlets := filter (\<lambda>r. bo_berth_id r \<noteq> ber_id b) (db_berth_outlets d) @ rows\<rparr>) c now)"
    by (auto simp: set_berth_outlets_def sbind_Inr Let_def split: option.splits if_splits)
  have "mapping_ok d'"
    by (rule new_mapping_ok[OF assms(1) o1(2) t[unfolded r]]) (simp_all add: d' r)
  with Inr x o1 r outlets_of_Inr[OF o1(2)] show ?thesis by (auto simp: d')
qed


section \<open>The comparison\<close>

lemma berths_on_absent: "n \<notin> fst ` set ps \<Longrightarrow> berths_on ps n = []"
  by (auto simp: berths_on_def filter_empty_conv)

lemma divergent_rows_Nil:
  "divergent_rows erp theirs = [] \<longleftrightarrow> (\<forall>n. set (berths_on erp n) = set (berths_on theirs n))"
proof -
  have "divergent_rows erp theirs = [] \<longleftrightarrow>
      (\<forall>n \<in> set (map fst erp @ map fst theirs). set (berths_on erp n) = set (berths_on theirs n))"
    by (simp add: divergent_rows_def filter_empty_conv)
  also have "\<dots> \<longleftrightarrow> (\<forall>n. set (berths_on erp n) = set (berths_on theirs n))"
    using berths_on_absent[of _ erp] berths_on_absent[of _ theirs] by (auto 0 3)
  finally show ?thesis .
qed

lemma stored_comparison:
  "find (\<lambda>m. mc_cabinet_id m = c) (db_mapping (snd (compare_mapping d c now))) =
     Some \<lparr>mc_cabinet_id = c, mc_state = fst (compare_pairs d c),
       mc_divergent_rows = (if snd (compare_pairs d c) = [] then None else Some (snd (compare_pairs d c))), mc_checked_at = now\<rparr>"
proof -
  have "find (\<lambda>m. mc_cabinet_id m = c) (update_where (\<lambda>m. mc_cabinet_id m = c) (\<lambda>_. row) l) = Some row"
    if "list_ex (\<lambda>m. mc_cabinet_id m = c) l" "mc_cabinet_id row = c" for l and row :: mapping_comparison
    using that by (induction l) auto
  moreover have "find (\<lambda>m. mc_cabinet_id m = c) (l @ [row]) = Some row"
    if "\<not> list_ex (\<lambda>m. mc_cabinet_id m = c) l" "mc_cabinet_id row = c" for l and row :: mapping_comparison
    using that by (induction l) auto
  ultimately show ?thesis by (simp add: compare_mapping_def Let_def)
qed

text \<open>
  C25. The comparison never claims more than it knows: it says "in sync" only when the cabinet
  has stated a mapping and, for every outlet, both sides name the same set of berths; with no
  statement from the cabinet the answer is "unverifiable", whatever the ERP holds; otherwise it
  is "divergent" with every outlet that differs. What it answers is what it stores.
\<close>

theorem comparison_is_honest:
  "case compare_mapping d c now of ((st, rows), d') \<Rightarrow>
     (st = ''unverifiable'' \<longleftrightarrow> cabinet_pairs d c = [])
   \<and> (st = ''in_sync'' \<longleftrightarrow> cabinet_pairs d c \<noteq> []
        \<and> (\<forall>n. set (berths_on (erp_pairs d c) n) = set (berths_on (cabinet_pairs d c) n)))
   \<and> (st = ''divergent'' \<longleftrightarrow> rows \<noteq> [])
   \<and> (cabinet_pairs d c = [] \<or> (\<forall>n. n \<in> fst ` set rows \<longleftrightarrow>
        set (berths_on (erp_pairs d c) n) \<noteq> set (berths_on (cabinet_pairs d c) n)))
   \<and> map_option mc_state (find (\<lambda>m. mc_cabinet_id m = c) (db_mapping d')) = Some st"
proof -
  let ?e = "erp_pairs d c" and ?t = "cabinet_pairs d c"
  have names: "n \<in> fst ` set (divergent_rows ?e ?t) \<longleftrightarrow> set (berths_on ?e n) \<noteq> set (berths_on ?t n)" for n
    using berths_on_absent[of n ?e] berths_on_absent[of n ?t] by (auto simp: divergent_rows_def image_iff)
  obtain d' where d': "compare_mapping d c now = (compare_pairs d c, d')"
    by (simp add: compare_mapping_def Let_def)
  have stored: "map_option mc_state (find (\<lambda>m. mc_cabinet_id m = c) (db_mapping d')) = Some (fst (compare_pairs d c))"
    using stored_comparison[of c d now] by (simp add: d')
  consider "?t = []" | "?t \<noteq> []" "divergent_rows ?e ?t = []" | "?t \<noteq> []" "divergent_rows ?e ?t \<noteq> []" by blast
  then show ?thesis
  proof cases
    case 1
    then have "compare_pairs d c = (''unverifiable'', [])" by (simp add: compare_pairs_def)
    with 1 d' stored show ?thesis by simp
  next
    case 2
    then have "compare_pairs d c = (''in_sync'', [])" by (simp add: compare_pairs_def)
    with 2 d' stored divergent_rows_Nil[of ?e ?t] show ?thesis by simp
  next
    case 3
    then have "compare_pairs d c = (''divergent'', divergent_rows ?e ?t)" by (simp add: compare_pairs_def)
    with 3 d' stored divergent_rows_Nil[of ?e ?t] names show ?thesis by simp
  qed
qed

section \<open>A provisioned cabinet\<close>

lemma add_outlets_new:
  "\<exists>new. add_outlets c ss os = os @ new
     \<and> map (\<lambda>o1. \<lparr>os_name = out_outlet_name o1, os_medium = out_medium o1, os_phases = out_phases o1,
          os_amps = out_rated_amps o1, os_lpm = out_rated_lpm o1\<rparr>) new = ss
     \<and> (\<forall>o1 \<in> set new. out_cabinet_id o1 = c)
     \<and> (distinct (map out_id os) \<longrightarrow> distinct (map out_id (os @ new)))"
proof (induction ss arbitrary: os)
  case (Cons s ss)
  let ?o = "outlet_row (next_id out_id os) c s"
  from Cons[of "os @ [?o]"] obtain new where n: "add_outlets c ss (os @ [?o]) = (os @ [?o]) @ new"
    "map (\<lambda>o1. \<lparr>os_name = out_outlet_name o1, os_medium = out_medium o1, os_phases = out_phases o1,
          os_amps = out_rated_amps o1, os_lpm = out_rated_lpm o1\<rparr>) new = ss"
    "\<forall>o1 \<in> set new. out_cabinet_id o1 = c"
    "distinct (map out_id (os @ [?o])) \<longrightarrow> distinct (map out_id ((os @ [?o]) @ new))" by blast
  have "out_id ?o \<notin> set (map out_id os)" by (simp add: outlet_row_def)
  with n show ?case by (intro exI[of _ "?o # new"]) (auto simp: outlet_row_def)
qed simp

lemma specs_ok:
  assumes "OUTLETS_BY_TYPE t = Some ss"
  shows "distinct (map os_name ss)" "\<forall>s \<in> set ss. \<forall>i c. outlet_checks (outlet_row i c s)"
    "\<forall>p \<in> set (CAPABILITIES_BY_TYPE t). fst p \<in> {''power'', ''water'', ''vessel_detect'', ''camera'', ''door'', ''breaker'', ''load_meter''}"
  using assms by (auto simp: OUTLETS_BY_TYPE_def CAPABILITIES_BY_TYPE_def electric_def water_def outlet_row_def
      outlet_checks_def OUTLETS_def split: if_splits)

lemma distinct_sorted: "distinct (map f xs) \<Longrightarrow> sorted_wrt (\<lambda>a b. f a \<noteq> f b) xs"
  by (induction xs) auto

text \<open>
  C26. Provisioning writes a whole cabinet or nothing: the cabinet row meets its constraints (in
  particular, it is simulated exactly when its address is the simulator's), it has exactly the
  outlets its type has, each with the medium of its name, all outlet rows of the database stay
  distinct, and its mapping starts as "unverifiable".
\<close>

theorem provisioned_cabinet_is_whole:
  assumes "provision_cabinet enc d f now = Inr (c, d')"
    and "table_valid cabinet_checks cabinet_apart (db_cabinets d)"
    and "table_valid outlet_checks outlet_apart (db_outlets d)"
    and "\<forall>o1 \<in> set (db_outlets d). out_cabinet_id o1 \<in> cab_id ` set (db_cabinets d)"
  shows "table_valid cabinet_checks cabinet_apart (db_cabinets d')
    \<and> table_valid outlet_checks outlet_apart (db_outlets d')
    \<and> cab_is_simulated c = simulator_url (cab_base_url c)
    \<and> (\<exists>ss. OUTLETS_BY_TYPE (cf_device_type f) = Some ss
         \<and> map out_outlet_name (filter (\<lambda>o1. out_cabinet_id o1 = cab_id c) (db_outlets d')) = map os_name ss)
    \<and> (\<exists>m. db_mapping d' = db_mapping d @ [m] \<and> mc_cabinet_id m = cab_id c \<and> mc_state m = ''unverifiable'')"
proof -
  let ?c = "cabinet_row enc (next_id cab_id (db_cabinets d)) f"
  from assms(1) obtain ss where ss: "OUTLETS_BY_TYPE (cf_device_type f) = Some ss"
    and c: "c = ?c" "cabinet_checks c" "\<forall>x \<in> set (db_cabinets d). cabinet_apart x c"
    and d': "db_cabinets d' = db_cabinets d @ [c]" "db_outlets d' = add_outlets (cab_id c) ss (db_outlets d)"
      "\<exists>m. db_mapping d' = db_mapping d @ [m] \<and> mc_cabinet_id m = cab_id c \<and> mc_state m = ''unverifiable''"
    by (auto simp: provision_cabinet_def Let_def list_all_iff split: option.splits if_splits)
  obtain new where new: "db_outlets d' = db_outlets d @ new"
    "map (\<lambda>o1. \<lparr>os_name = out_outlet_name o1, os_medium = out_medium o1, os_phases = out_phases o1,
          os_amps = out_rated_amps o1, os_lpm = out_rated_lpm o1\<rparr>) new = ss"
    "\<forall>o1 \<in> set new. out_cabinet_id o1 = cab_id c"
    "distinct (map out_id (db_outlets d)) \<longrightarrow> distinct (map out_id (db_outlets d @ new))"
    using add_outlets_new[of "cab_id c" ss "db_outlets d"] d'(2) by auto
  have fresh: "cab_id c \<notin> cab_id ` set (db_cabinets d)" by (simp add: c(1) cabinet_row_def)
  have old: "out_cabinet_id o1 \<noteq> cab_id c" if "o1 \<in> set (db_outlets d)" for o1
    using assms(4) that fresh by metis
  have names: "map out_outlet_name new = map os_name ss"
    using arg_cong[OF new(2), of "map os_name"] by (simp add: comp_def)
  have ids: "distinct (map out_id (db_outlets d @ new))"
    using new(4) assms(3) apart_distinct[of outlet_apart "db_outlets d" out_id] by (auto simp: table_valid_def outlet_apart_def)
  have checks: "list_all outlet_checks new"
  proof (simp add: list_all_iff, rule ballI)
    fix o1 assume "o1 \<in> set new"
    then have "\<lparr>os_name = out_outlet_name o1, os_medium = out_medium o1, os_phases = out_phases o1,
          os_amps = out_rated_amps o1, os_lpm = out_rated_lpm o1\<rparr> \<in> set ss" unfolding new(2)[symmetric] by simp
    with specs_ok(2)[OF ss] show "outlet_checks o1" by (fastforce simp: outlet_row_def outlet_checks_def)
  qed
  have "sorted_wrt outlet_apart new"
  proof -
    have "distinct (map out_id new)" "distinct (map out_outlet_name new)"
      using ids names specs_ok(1)[OF ss] by auto
    then have "sorted_wrt (\<lambda>a b. out_id a \<noteq> out_id b) new" "sorted_wrt (\<lambda>a b. out_outlet_name a \<noteq> out_outlet_name b) new"
      by (simp_all add: distinct_sorted)
    then show ?thesis by (induction new) (auto simp: outlet_apart_def)
  qed
  moreover have "\<forall>x \<in> set (db_outlets d). \<forall>y \<in> set new. outlet_apart x y"
    using old new(3) ids by (auto simp: outlet_apart_def)
  ultimately have outs: "table_valid outlet_checks outlet_apart (db_outlets d')"
    using assms(3) checks by (simp add: new(1) table_valid_def sorted_wrt_append)
  have cabs: "table_valid cabinet_checks cabinet_apart (db_cabinets d')"
    using assms(2) c by (simp add: d'(1) cabinets_t.valid_append)
  have "filter (\<lambda>o1. out_cabinet_id o1 = cab_id c) (db_outlets d') = new"
    using old new(3) by (simp add: new(1) filter_empty_conv filter_id_conv)
  with outs cabs c(2) d'(3) ss names show ?thesis by (simp add: cabinet_checks_def)
qed

section \<open>Concrete cabinets\<close>

definition sample_form :: cabinet_form where
  "sample_form = \<lparr>cf_marina_id = 1, cf_pedestal_pk = 1, cf_display_id = ''K1'', cf_device_type = ''full'',
     cf_base_url = ''http://k/'', cf_service_email = ''e'', cf_service_password = ''p'', cf_erp_api_key = None,
     cf_dock = None, cf_webhook_key = None, cf_webhook_hmac = False, cf_webhook_secret = None,
     cf_is_simulated = False\<rparr>"

definition provisioned_db :: db where
  "provisioned_db = (case provision_cabinet id empty_db sample_form 0 of Inr (_, d) \<Rightarrow> d | Inl _ \<Rightarrow> empty_db)"

lemma sample_provisioned: "\<exists>c. provision_cabinet id empty_db sample_form 0 = Inr (c, provisioned_db)"
proof -
  have "case provision_cabinet id empty_db sample_form 0 of Inr _ \<Rightarrow> True | Inl _ \<Rightarrow> False" by code_simp
  then show ?thesis by (auto simp: provisioned_db_def split: sum.splits prod.splits)
qed

theorem provisioned_cabinet_is_whole_witness:
  "table_valid outlet_checks outlet_apart (db_outlets provisioned_db)"
proof -
  obtain c where c: "provision_cabinet id empty_db sample_form 0 = Inr (c, provisioned_db)" using sample_provisioned ..
  from provisioned_cabinet_is_whole[OF c] show ?thesis by (simp add: empty_db_def table_valid_def)
qed

definition sample_berth :: berth where
  "sample_berth = \<lparr>ber_id = 1, ber_marina_id = 1, ber_berth_number = ''A1'', ber_svg_id = None,
     ber_cabinet_id = Some 1, ber_cabinet_berth_id = Some 1, ber_length_m = None, ber_created_at = 0\<rparr>"

theorem set_berth_outlets_keeps_D1_witness:
  "\<exists>rows d'. set_berth_outlets provisioned_db sample_berth [''Q1'', ''V1''] (Some ''admin'') ''erp_manual'' 1 = Inr (rows, d')
     \<and> mapping_ok d'"
proof -
  have m: "mapping_ok provisioned_db"
  proof -
    have "db_berth_outlets provisioned_db = []" by code_simp
    then show ?thesis by (simp add: mapping_ok_def table_valid_def)
  qed
  have o1: "table_valid outlet_checks outlet_apart (db_outlets provisioned_db)" by code_simp
  have "case set_berth_outlets provisioned_db sample_berth [''Q1'', ''V1''] (Some ''admin'') ''erp_manual'' 1 of
      Inr _ \<Rightarrow> True | Inl _ \<Rightarrow> False" by code_simp
  then obtain x where x: "set_berth_outlets provisioned_db sample_berth [''Q1'', ''V1''] (Some ''admin'') ''erp_manual'' 1 = Inr x"
    by (auto split: sum.splits)
  from set_berth_outlets_keeps_D1[OF m o1, where source = "''erp_manual''" and b = sample_berth
      and names = "[''Q1'', ''V1'']" and who = "Some ''admin''" and now = 1] x
  show ?thesis by (cases x) simp
qed

end
