(* ===== verification/Credit.thy ===== *)
theory Credit
  imports Cabinets
begin

text \<open>
  \<open>services/credit.py\<close> and the triggers of \<open>models/billing.py\<close>: the credit ledger. Rows are
  only appended (the database refuses UPDATE and DELETE), and a demo customer has none.
  An amount is a rational; \<open>post\<close> quantises it to cents.
\<close>

definition REASONS :: "string list" where
  "REASONS = [''topup'', ''consumption'', ''adjustment'', ''refund'']"

definition rows_of :: "db \<Rightarrow> nat \<Rightarrow> ledger_row list" where
  "rows_of d c = filter (\<lambda>r. led_customer_id r = c) (db_ledger d)"

text \<open>The newest row: the largest id, and ids grow with the table.\<close>

definition balance :: "db \<Rightarrow> nat \<Rightarrow> rat" where
  "balance d c = (case rev (rows_of d c) of [] \<Rightarrow> 0 | r # _ \<Rightarrow> led_balance_after r)"

definition ledger_refuses_demo :: "db \<Rightarrow> nat \<Rightarrow> bool" where
  "ledger_refuses_demo d c \<longleftrightarrow> list_ex (\<lambda>x. cus_id x = c \<and> cus_is_demo x) (db_customers d)"

definition post ::
    "db \<Rightarrow> nat \<Rightarrow> rat \<Rightarrow> string \<Rightarrow> string option \<Rightarrow> nat option \<Rightarrow> dtime \<Rightarrow> domain_error + ledger_row \<times> db" where
  "post d c delta reason created_by sid now =
     (if created_by = None \<or> strip (or_else created_by []) = [] then Inl (Domain ''created_by is required'')
      else if reason \<notin> set REASONS then Inl (Domain ''reason must be one of REASONS'')
      else let amount = quantize 2 delta in
        if amount = 0 then Inl (Domain ''a zero row records nothing'')
        else if reason = ''topup'' \<and> amount < 0 then Inl (Domain ''a top-up is positive'')
        else let row = \<lparr>led_id = next_id led_id (db_ledger d), led_customer_id = c, led_delta = amount,
                   led_reason = reason, led_session_id = sid, led_balance_after = balance d c + amount,
                   led_created_by = strip (or_else created_by []), led_created_at = now\<rparr> in
          if ledger_refuses_demo d c \<or> \<not> ledger_checks row then Inl Integrity
          else Inr (row, d\<lparr>db_ledger := db_ledger d @ [row]\<rparr>))"

section \<open>The ledger can be checked row by row\<close>

fun chained :: "rat \<Rightarrow> ledger_row list \<Rightarrow> bool" where
  "chained b [] = True"
| "chained b (r # rs) = (led_balance_after r = b + led_delta r \<and> chained (led_balance_after r) rs)"

definition ledger_ok :: "db \<Rightarrow> bool" where
  "ledger_ok d \<longleftrightarrow> (\<forall>c. chained 0 (rows_of d c)) \<and> (\<forall>r \<in> set (db_ledger d). ledger_checks r \<and> led_delta r \<noteq> 0
     \<and> quantize 2 (led_delta r) = led_delta r)
   \<and> (\<forall>x \<in> set (db_customers d). cus_is_demo x \<longrightarrow> rows_of d (cus_id x) = [])"

lemma chained_append:
  "chained b (rs @ [r]) \<longleftrightarrow> chained b rs \<and>
     led_balance_after r = (case rev rs of [] \<Rightarrow> b | x # _ \<Rightarrow> led_balance_after x) + led_delta r"
proof (induction rs arbitrary: b)
  case (Cons x rs)
  then show ?case by (cases "rev rs") (simp_all)
qed simp

lemma chained_sum: "chained b rs \<Longrightarrow>
   (case rev rs of [] \<Rightarrow> b | r # _ \<Rightarrow> led_balance_after r) = b + sum_list (map led_delta rs)"
proof (induction rs arbitrary: b)
  case (Cons r rs)
  with Cons.IH[of "led_balance_after r"] show ?case by (cases "rev rs") (auto simp: algebra_simps)
qed simp

text \<open>
  C27. The balance of a customer is the sum of everything ever posted for that customer, and
  posting keeps the ledger so: the new row is the previous balance plus its amount in whole
  cents, nobody else's balance moves, earlier rows stay, and a demo customer gets none.
\<close>

theorem balance_is_sum_of_posts:
  assumes "ledger_ok d"
  shows "balance d c = sum_list (map led_delta (rows_of d c))
    \<and> (case post d c' delta reason who sid now of
         Inr (r, d') \<Rightarrow> ledger_ok d' \<and> balance d' c' = balance d c' + quantize 2 delta \<and> quantize 2 delta \<noteq> 0
           \<and> (c \<noteq> c' \<longrightarrow> balance d' c = balance d c) \<and> db_ledger d' = db_ledger d @ [r] \<and> led_customer_id r = c'
           \<and> d'\<lparr>db_ledger := []\<rparr> = d\<lparr>db_ledger := []\<rparr>
           \<and> \<not> ledger_refuses_demo d c'
       | Inl _ \<Rightarrow> True)"
proof (cases "post d c' delta reason who sid now")
  case (Inl e)
  then show ?thesis using assms chained_sum[of 0 "rows_of d c"] by (simp add: ledger_ok_def balance_def)
next
  case (Inr x)
  obtain r d' where x: "x = (r, d')" by (cases x)
  from Inr x have r: "led_customer_id r = c'" "led_delta r = quantize 2 delta" "quantize 2 delta \<noteq> 0"
      "led_balance_after r = balance d c' + quantize 2 delta" "ledger_checks r" "\<not> ledger_refuses_demo d c'"
    and d': "d' = d\<lparr>db_ledger := db_ledger d @ [r]\<rparr>"
    by (auto simp: post_def Let_def split: if_splits)
  have rows: "rows_of d' k = (if k = c' then rows_of d k @ [r] else rows_of d k)" for k
    by (simp add: rows_of_def d' r(1))
  have chain: "chained 0 (rows_of d' k)" for k
    using assms r by (simp add: rows chained_append ledger_ok_def balance_def)
  have demo: "rows_of d' (cus_id y) = []" if "y \<in> set (db_customers d')" "cus_is_demo y" for y
  proof -
    have y: "y \<in> set (db_customers d)" using that(1) by (simp add: d')
    then have "cus_id y \<noteq> c'" using r(6) that(2) by (auto simp: ledger_refuses_demo_def list_ex_iff)
    moreover have "rows_of d (cus_id y) = []" using assms y that(2) by (simp add: ledger_ok_def)
    ultimately show ?thesis by (simp add: rows)
  qed
  have "ledger_ok d'" unfolding ledger_ok_def
    using chain demo assms r by (auto simp: d' ledger_ok_def)
  moreover have "balance d' c' = balance d c' + quantize 2 delta" by (simp add: balance_def rows r(4))
  moreover have "balance d' c = balance d c" if "c \<noteq> c'" using that by (simp add: balance_def rows)
  moreover have "balance d c = sum_list (map led_delta (rows_of d c))"
    using assms chained_sum[of 0 "rows_of d c"] by (simp add: ledger_ok_def balance_def)
  ultimately show ?thesis using Inr x r by (simp add: d')
qed

definition paid_db :: db where
  "paid_db = (case post empty_db 7 (5/2) ''topup'' (Some ''desk'') None 1 of Inr (_, d) \<Rightarrow> d | Inl _ \<Rightarrow> empty_db)"

theorem balance_is_sum_of_posts_witness:
  "balance paid_db 7 = 5/2 \<and> ledger_ok paid_db"
proof -
  have ok: "ledger_ok empty_db" by (simp add: ledger_ok_def rows_of_def empty_db_def)
  have p: "case post empty_db 7 (5/2) ''topup'' (Some ''desk'') None 1 of Inr (r, d) \<Rightarrow> True | Inl _ \<Rightarrow> False" by code_simp
  then obtain r where r: "post empty_db 7 (5/2) ''topup'' (Some ''desk'') None 1 = Inr (r, paid_db)"
    by (auto simp: paid_db_def split: sum.splits prod.splits)
  have "balance paid_db 7 = 5/2" by code_simp
  with balance_is_sum_of_posts[OF ok, of 7 7 "5/2" "''topup''" "Some ''desk''" None 1] r show ?thesis by simp
qed

end
