(* ===== verification/Nfc_Uid.thy ===== *)
theory Nfc_Uid
  imports Py_Values
begin

text \<open>
  \<open>cabinet/nfc_uid.py\<close>: the UID of an NFC tag, which phones report in either byte order. The
  lemmas say that a normalised UID is a fixed point, that reversing is an involution, and
  that a tag stored in both forms is found from either of them.
\<close>

datatype uid_error = UidError

definition is_upper_hex :: "char \<Rightarrow> bool" where
  "is_upper_hex c \<longleftrightarrow> is_digit c \<or> (let n = (of_char c :: nat) in 65 \<le> n \<and> n \<le> 70)"

definition hex_pair :: "string \<Rightarrow> bool" where
  "hex_pair p \<longleftrightarrow> length p = 2 \<and> list_all is_upper_hex p"

fun pairs_of :: "'a list \<Rightarrow> 'a list list" where
  "pairs_of (a # b # s) = [a, b] # pairs_of s"
| "pairs_of [a] = [[a]]"
| "pairs_of [] = []"

definition compact_uid :: "string \<Rightarrow> string" where
  "compact_uid uid =
     upper_str (filter (\<lambda>c. \<not> (is_space c \<or> c = CHR '':'' \<or> c = CHR ''-'')) uid)"

definition normalise :: "string \<Rightarrow> uid_error + string" where
  "normalise uid =
     (let compact = compact_uid uid in
      if compact = [] \<or> length compact mod 2 \<noteq> 0 then Inl UidError
      else if \<not> list_all hex_pair (pairs_of compact) then Inl UidError
      else Inr (join_with '':'' (pairs_of compact)))"

definition reversed_form :: "string \<Rightarrow> uid_error + string" where
  "reversed_form uid =
     (case normalise uid of
        Inl e \<Rightarrow> Inl e
      | Inr n \<Rightarrow> Inr (join_with '':'' (rev (split_on (CHR '':'') n))))"

definition both_forms :: "string \<Rightarrow> uid_error + string \<times> string" where
  "both_forms uid =
     (case normalise uid of
        Inl e \<Rightarrow> Inl e
      | Inr n \<Rightarrow> (case reversed_form n of Inl e \<Rightarrow> Inl e | Inr r \<Rightarrow> Inr (n, r)))"

text \<open>The loop of \<open>find_tag\<close>: a stored form that does not normalise raises.\<close>

fun find_tag_loop :: "('t \<Rightarrow> string) \<Rightarrow> ('t \<Rightarrow> string) \<Rightarrow> string \<Rightarrow> 't list \<Rightarrow> uid_error + 't option" where
  "find_tag_loop pri rv s [] = Inr None"
| "find_tag_loop pri rv s (t # ts) =
     (case normalise (pri t) of
        Inl e \<Rightarrow> Inl e
      | Inr p \<Rightarrow>
          if p = s then Inr (Some t)
          else (case normalise (rv t) of
                  Inl e \<Rightarrow> Inl e
                | Inr r \<Rightarrow> if r = s then Inr (Some t) else find_tag_loop pri rv s ts))"

definition find_tag ::
    "('t \<Rightarrow> string) \<Rightarrow> ('t \<Rightarrow> string) \<Rightarrow> string \<Rightarrow> 't list \<Rightarrow> uid_error + 't option" where
  "find_tag pri rv scanned tags =
     (case normalise scanned of Inl e \<Rightarrow> Inl e | Inr s \<Rightarrow> find_tag_loop pri rv s tags)"

section \<open>Normal forms\<close>

definition normal_uid :: "string \<Rightarrow> bool" where
  "normal_uid n \<longleftrightarrow> (\<exists>ps. ps \<noteq> [] \<and> (\<forall>p \<in> set ps. hex_pair p) \<and> n = join_with '':'' ps)"

lemma hex_char:
  assumes "is_upper_hex c"
  shows "\<not> is_space c" "c \<noteq> CHR '':''" "c \<noteq> CHR ''-''" "upper_char c = c"
  using assms by (auto simp: is_upper_hex_def is_space_def upper_char_def is_digit_def Let_def)

lemma hex_pair_clean: "hex_pair p \<Longrightarrow> CHR '':'' \<notin> set p"
  using hex_char(2) by (auto simp: hex_pair_def list_all_iff)

lemma compact_join:
  "\<forall>p \<in> set ps. hex_pair p \<Longrightarrow> compact_uid (join_with '':'' ps) = concat ps"
proof -
  have one: "compact_uid p = p" if "hex_pair p" for p
  proof -
    have "\<forall>c \<in> set p. is_upper_hex c" using that by (simp add: hex_pair_def list_all_iff)
    then show ?thesis by (induction p) (simp_all add: compact_uid_def upper_str_def hex_char)
  qed
  have app: "compact_uid (a @ b) = compact_uid a @ compact_uid b" for a b
    by (simp add: compact_uid_def upper_str_def)
  have colon: "compact_uid (CHR '':'' # b) = compact_uid b" for b
    by (simp add: compact_uid_def)
  have nil: "compact_uid [] = []" by (simp add: compact_uid_def upper_str_def)
  show "\<forall>p \<in> set ps. hex_pair p \<Longrightarrow> compact_uid (join_with '':'' ps) = concat ps"
    by (induction "'':''" ps rule: join_with.induct) (simp_all add: one app colon nil)
qed

lemma pairs_concat: "\<forall>p \<in> set ps. hex_pair p \<Longrightarrow> pairs_of (concat ps) = ps"
proof (induction ps)
  case (Cons p ps)
  then obtain a b where "p = [a, b]" by (auto simp: hex_pair_def length_Suc_conv numeral_2_eq_2)
  with Cons show ?case by simp
qed simp

lemma even_concat: "\<forall>p \<in> set ps. hex_pair p \<Longrightarrow> length (concat ps) mod 2 = 0"
  by (induction ps) (auto simp: hex_pair_def)

lemma normalise_join:
  assumes "ps \<noteq> []" and "\<forall>p \<in> set ps. hex_pair p"
  shows "normalise (join_with '':'' ps) = Inr (join_with '':'' ps)"
proof -
  have "concat ps \<noteq> []" using assms by (cases ps) (auto simp: hex_pair_def)
  with assms compact_join[OF assms(2)] pairs_concat[OF assms(2)] even_concat[OF assms(2)]
  show ?thesis by (auto simp: normalise_def list_all_iff Let_def)
qed

lemma normalise_fixed: "normal_uid n \<Longrightarrow> normalise n = Inr n"
  by (auto simp: normal_uid_def normalise_join)

lemma pairs_of_ne: "s \<noteq> [] \<Longrightarrow> pairs_of s \<noteq> []"
  by (cases s rule: pairs_of.cases) auto

lemma normalise_normal: "normalise u = Inr n \<Longrightarrow> normal_uid n"
  by (auto simp: normalise_def normal_uid_def Let_def list_all_iff pairs_of_ne split: if_splits
      intro!: exI[of _ "pairs_of (compact_uid u)"])

lemma split_normal:
  "ps \<noteq> [] \<Longrightarrow> \<forall>p \<in> set ps. hex_pair p \<Longrightarrow> split_on (CHR '':'') (join_with '':'' ps) = ps"
  by (intro split_join) (auto simp: hex_pair_clean)

definition rev_bytes :: "string \<Rightarrow> string" where
  "rev_bytes n = join_with '':'' (rev (split_on (CHR '':'') n))"

lemma rev_bytes_normal:
  assumes "normal_uid n"
  shows "normal_uid (rev_bytes n)" "rev_bytes (rev_bytes n) = n"
proof -
  from assms obtain ps where ps: "ps \<noteq> []" "\<forall>p \<in> set ps. hex_pair p" and n: "n = join_with '':'' ps"
    by (auto simp: normal_uid_def)
  then have r: "rev_bytes n = join_with '':'' (rev ps)" by (simp add: rev_bytes_def split_normal)
  with ps show "normal_uid (rev_bytes n)" by (auto simp: normal_uid_def intro!: exI[of _ "rev ps"])
  from ps have "split_on (CHR '':'') (join_with '':'' (rev ps)) = rev ps" by (intro split_normal) auto
  then have "rev_bytes (join_with '':'' (rev ps)) = n" by (simp add: rev_bytes_def n)
  then show "rev_bytes (rev_bytes n) = n" by (simp add: r)
qed

lemma reversed_form_eq:
  "reversed_form u = (case normalise u of Inl e \<Rightarrow> Inl e | Inr n \<Rightarrow> Inr (rev_bytes n))"
  by (simp add: reversed_form_def rev_bytes_def split: sum.splits)

lemma both_forms_eq:
  "both_forms u = (case normalise u of Inl e \<Rightarrow> Inl e | Inr n \<Rightarrow> Inr (n, rev_bytes n))"
  by (auto simp: both_forms_def reversed_form_eq normalise_fixed normalise_normal split: sum.splits)



section \<open>Lookup\<close>

lemma find_tag_loop_stored:
  assumes "\<forall>t \<in> set tags. both_forms (pri t) = Inr (pri t, rv t)"
  shows "find_tag_loop pri rv s tags = Inr (find (\<lambda>t. s = pri t \<or> s = rv t) tags)"
  using assms
proof (induction tags)
  case (Cons t tags)
  then have "both_forms (pri t) = Inr (pri t, rv t)" by simp
  then have "normalise (pri t) = Inr (pri t)" "rv t = rev_bytes (pri t)"
    by (auto simp: both_forms_eq split: sum.splits)
  moreover from this have "normalise (rv t) = Inr (rv t)"
    using normalise_fixed normalise_normal rev_bytes_normal(1) by metis
  ultimately show ?case using Cons by auto
qed simp

text \<open>
  C9. A phone that reads the bytes in the other order finds the same tag: when every tag is
  stored with both its forms, a lookup by a UID and a lookup by its byte-reversed form give
  the same answer, which is the first tag one of whose forms is the scanned one, and never
  an error.
\<close>

theorem find_tag_either_order:
  assumes "\<forall>t \<in> set tags. both_forms (pri t) = Inr (pri t, rv t)" and "both_forms u = Inr (n, r)"
  shows "find_tag pri rv u tags = Inr (find (\<lambda>t. pri t \<in> {n, r}) tags)
       \<and> find_tag pri rv r tags = find_tag pri rv u tags"
proof -
  from assms(2) have nu: "normalise u = Inr n" and r: "r = rev_bytes n"
    by (auto simp: both_forms_eq split: sum.splits)
  have n: "normal_uid n" using nu by (rule normalise_normal)
  have nr: "normalise r = Inr r" unfolding r by (intro normalise_fixed rev_bytes_normal n)
  have rv: "rv t = rev_bytes (pri t)" "normal_uid (pri t)" if "t \<in> set tags" for t
  proof -
    have "both_forms (pri t) = Inr (pri t, rv t)" using assms(1) that by blast
    then show "rv t = rev_bytes (pri t)" "normal_uid (pri t)"
      by (auto simp: both_forms_eq normalise_normal split: sum.splits)
  qed
  have eq: "(n = pri t \<or> n = rv t) \<longleftrightarrow> pri t \<in> {n, r}" "(r = pri t \<or> r = rv t) \<longleftrightarrow> pri t \<in> {n, r}"
    if t: "t \<in> set tags" for t
  proof -
    have "n = rv t \<longleftrightarrow> r = pri t" "r = rv t \<longleftrightarrow> n = pri t"
      unfolding r rv(1)[OF t] using rev_bytes_normal(2)[OF n] rev_bytes_normal(2)[OF rv(2)[OF t]] by metis+
    then show "(n = pri t \<or> n = rv t) \<longleftrightarrow> pri t \<in> {n, r}" "(r = pri t \<or> r = rv t) \<longleftrightarrow> pri t \<in> {n, r}"
      by auto
  qed
  have "find_tag_loop pri rv n tags = Inr (find (\<lambda>t. pri t \<in> {n, r}) tags)"
    "find_tag_loop pri rv r tags = Inr (find (\<lambda>t. pri t \<in> {n, r}) tags)"
    unfolding find_tag_loop_stored[OF assms(1)] by (simp_all only: sum.inject) (rule find_cong_set, rule eq, assumption)+
  then show ?thesis by (simp add: find_tag_def nu nr)
qed

theorem find_tag_either_order_witness:
  "find_tag fst snd ''e0040109'' [(''AA:BB'', ''BB:AA''), (''09:01:04:E0'', ''E0:04:01:09'')]
     = Inr (Some (''09:01:04:E0'', ''E0:04:01:09''))"
proof -
  have "\<forall>t \<in> set [(''AA:BB'', ''BB:AA''), (''09:01:04:E0'', ''E0:04:01:09'')].
      both_forms (fst t) = Inr (fst t, snd t)" by code_simp
  moreover have "both_forms ''e0040109'' = Inr (''E0:04:01:09'', ''09:01:04:E0'')" by code_simp
  ultimately show ?thesis by (simp add: find_tag_either_order)
qed

end
