(* ===== verification/Nfc_Tags.thy ===== *)
theory Nfc_Tags
  imports Cabinets Nfc_Uid
begin

text \<open>
  \<open>services/nfc_tags.py\<close>: the CSV import of NFC tags, which adds and never moves, and the
  lookup of a scanned UID. The CSV reader is the standard library's (excel dialect). Error
  texts are reduced to their line and kind.
\<close>

section \<open>Reading CSV\<close>

datatype csv_state = StartRecord | StartField | InField | InQuoted | QuoteInQuoted | EatNewline

text \<open>
  \<open>csv.reader\<close> over the text: fields, rows, quotes doubled inside quotes, and the error for a
  carriage return inside a row. The current field and row are held reversed.
\<close>

datatype csv_action = Go csv_state string "string list" | EndRow "string list" | CsvError

definition csv_step :: "csv_state \<Rightarrow> string \<Rightarrow> string list \<Rightarrow> char \<Rightarrow> csv_action" where
  "csv_step st f r c =
     (if st = InQuoted then (if c = CHR 0x22 then Go QuoteInQuoted f r else Go InQuoted (c # f) r)
      else if c = CHR 0x0A then
        (case st of StartRecord \<Rightarrow> EndRow [] | EatNewline \<Rightarrow> EndRow r | _ \<Rightarrow> EndRow (rev f # r))
      else if c = CHR 0x0D then
        (case st of StartRecord \<Rightarrow> Go EatNewline [] [] | EatNewline \<Rightarrow> Go EatNewline f r | _ \<Rightarrow> Go EatNewline [] (rev f # r))
      else if st = EatNewline then CsvError
      else if c = CHR '','' then Go StartField [] (rev f # r)
      else if c = CHR 0x22 then
        (case st of InField \<Rightarrow> Go InField (c # f) r | QuoteInQuoted \<Rightarrow> Go InQuoted (c # f) r | _ \<Rightarrow> Go InQuoted [] r)
      else Go InField (c # f) r)"

fun csv_go :: "csv_state \<Rightarrow> string \<Rightarrow> string list \<Rightarrow> string \<Rightarrow> string list list option" where
  "csv_go st f r [] =
     Some (case st of StartRecord \<Rightarrow> [] | EatNewline \<Rightarrow> [rev r] | _ \<Rightarrow> [rev (rev f # r)])"
| "csv_go st f r (c # s) =
     (case csv_step st f r c of
        CsvError \<Rightarrow> None
      | Go st' f' r' \<Rightarrow> csv_go st' f' r' s
      | EndRow row \<Rightarrow> map_option ((#) (rev row)) (csv_go StartRecord [] [] s))"

definition csv_rows :: "string \<Rightarrow> string list list option" where
  "csv_rows s = csv_go StartRecord [] [] s"

fun dict_put :: "'k \<Rightarrow> 'v \<Rightarrow> ('k \<times> 'v) list \<Rightarrow> ('k \<times> 'v) list" where
  "dict_put k v [] = [(k, v)]"
| "dict_put k v ((k', v') # xs) = (if k' = k then (k, v) # xs else (k', v') # dict_put k v xs)"

definition dict_of :: "('k \<times> 'v) list \<Rightarrow> ('k \<times> 'v) list" where
  "dict_of ps = foldl (\<lambda>m (k, v). dict_put k v m) [] ps"

text \<open>A row of \<open>DictReader\<close> with its names and values stripped; missing values are empty, and
  what has no name is dropped.\<close>

definition csv_dict :: "string list \<Rightarrow> string list \<Rightarrow> (string \<times> string) list" where
  "csv_dict header row =
     (let vals = row @ replicate (length header - length row) []
      in dict_of (map (\<lambda>(k, v). (strip k, strip v)) (filter (\<lambda>(k, _). k \<noteq> []) (dict_of (zip header vals)))))"

section \<open>Import\<close>

datatype import_error =
    BadHeader
  | NoSuchOutlet nat string
  | NotMirror nat string string
  | BadUid nat
  | TwiceInFile nat string string string
  | OnOtherOutlet nat string nat

record import_report =
  ir_added :: "(string \<times> string) list"
  ir_unchanged :: "(string \<times> string) list"
  ir_errors :: "import_error list"

definition ir_ok :: "import_report \<Rightarrow> bool" where
  "ir_ok r \<longleftrightarrow> ir_errors r = []"

definition existing_tag :: "db \<Rightarrow> string \<Rightarrow> string \<Rightarrow> nfc_tag option" where
  "existing_tag d p r = find (\<lambda>t. tag_uid_primary t \<in> {p, r} \<or> tag_uid_reversed t \<in> {p, r}) (db_nfc_tags d)"

record import_state =
  is_unchanged :: "(string \<times> string) list"
  is_errors :: "import_error list"
  is_seen :: "string \<Rightarrow> string option"
  is_pending :: "(outlet \<times> string \<times> string) list"

definition add_error :: "import_error \<Rightarrow> import_state \<Rightarrow> import_state" where
  "add_error e s = s\<lparr>is_errors := is_errors s @ [e]\<rparr>"

definition seen_errors :: "nat \<Rightarrow> string \<Rightarrow> string \<Rightarrow> string \<Rightarrow> import_state \<Rightarrow> import_error list" where
  "seen_errors n name p r s = List.map_filter
     (\<lambda>form. case is_seen s form of
        Some other \<Rightarrow> if other \<noteq> name then Some (TwiceInFile n p other name) else None
      | None \<Rightarrow> None) [p, r]"

text \<open>One line of the file.\<close>

definition import_line :: "db \<Rightarrow> nat \<Rightarrow> nat \<Rightarrow> (string \<times> string) list \<Rightarrow> import_state \<Rightarrow> domain_error + import_state" where
  "import_line d c n row s =
     (let name = or_else (map_of row ''outlet'') [] in
      case find (\<lambda>o1. out_cabinet_id o1 = c \<and> out_outlet_name o1 = name) (db_outlets d) of
        None \<Rightarrow> Inr (add_error (NoSuchOutlet n name) s)
      | Some o1 \<Rightarrow>
          (case both_forms (or_else (map_of row ''uid'') []) of
             Inl _ \<Rightarrow> Inr (add_error (BadUid n) s)
           | Inr (p, r) \<Rightarrow>
               (let given = or_else (map_of row ''uid_reversed'') [];
                    bad = (if given = [] then None else (case normalise given of
                             Inl _ \<Rightarrow> Some (BadUid n)
                           | Inr g \<Rightarrow> if g \<noteq> r then Some (NotMirror n p r) else None))
                in case bad of
                     Some e \<Rightarrow> Inr (add_error e s)
                   | None \<Rightarrow>
                       (let s1 = s\<lparr>is_errors := is_errors s @ seen_errors n name p r s,
                                   is_seen := (is_seen s)(p := Some name, r := Some name)\<rparr>
                        in case existing_tag d p r of
                             None \<Rightarrow> Inr (s1\<lparr>is_pending := is_pending s1 @ [(o1, p, r)]\<rparr>)
                           | Some t \<Rightarrow>
                               if tag_outlet_id t = out_id o1
                               then Inr (s1\<lparr>is_unchanged := is_unchanged s1 @ [(name, p)]\<rparr>)
                               else Inr (add_error (OnOtherOutlet n p (tag_outlet_id t)) s1)))))"

fun import_lines :: "db \<Rightarrow> nat \<Rightarrow> nat \<Rightarrow> (string \<times> string) list list \<Rightarrow> import_state \<Rightarrow> domain_error + import_state" where
  "import_lines d c n [] s = Inr s"
| "import_lines d c n (row # rows) s = sbind (import_line d c n row s) (import_lines d c (Suc n) rows)"

definition tag_row :: "nat \<Rightarrow> string \<Rightarrow> dtime \<Rightarrow> outlet \<times> string \<times> string \<Rightarrow> nfc_tag" where
  "tag_row i who now = (\<lambda>(o1, p, r). \<lparr>tag_id = i, tag_outlet_id = out_id o1, tag_uid_primary = p,
     tag_uid_reversed = r, tag_standard = ''ISO15693'', tag_provisioned_by = who, tag_provisioned_at = now,
     tag_active = True, tag_note = None\<rparr>)"

fun add_tags :: "string \<Rightarrow> dtime \<Rightarrow> (outlet \<times> string \<times> string) list \<Rightarrow> nfc_tag list \<Rightarrow> nfc_tag list" where
  "add_tags who now [] ts = ts"
| "add_tags who now (p # ps) ts = add_tags who now ps (ts @ [tag_row (next_id tag_id ts) who now p])"

text \<open>\<open>UNIQUE (uid_primary)\<close> and \<open>UNIQUE (uid_reversed)\<close>, checked at the commit.\<close>

definition tags_unique :: "nfc_tag list \<Rightarrow> bool" where
  "tags_unique ts \<longleftrightarrow> distinct (map tag_uid_primary ts) \<and> distinct (map tag_uid_reversed ts)"

text \<open>The end of an import: refused as a whole, or added and committed.\<close>

definition commit_import :: "db \<Rightarrow> string \<Rightarrow> dtime \<Rightarrow> import_state \<Rightarrow> domain_error + import_report \<times> db" where
  "commit_import d who now s =
     (if is_errors s \<noteq> []
      then Inr (\<lparr>ir_added = [], ir_unchanged = is_unchanged s, ir_errors = is_errors s\<rparr>, d)
      else (let tags = add_tags who now (is_pending s) (db_nfc_tags d)
            in if \<not> tags_unique tags then Inl Integrity
               else Inr (\<lparr>ir_added = map (\<lambda>(o1, p, _). (out_outlet_name o1, p)) (is_pending s),
                          ir_unchanged = is_unchanged s, ir_errors = []\<rparr>,
                         d\<lparr>db_nfc_tags := tags\<rparr>)))"

definition no_lines :: import_state where
  "no_lines = \<lparr>is_unchanged = [], is_errors = [], is_seen = (\<lambda>_. None), is_pending = []\<rparr>"

definition bad_header :: import_report where
  "bad_header = \<lparr>ir_added = [], ir_unchanged = [], ir_errors = [BadHeader]\<rparr>"

definition import_csv ::
    "db \<Rightarrow> nat \<Rightarrow> string \<Rightarrow> string option \<Rightarrow> dtime \<Rightarrow> domain_error + import_report \<times> db" where
  "import_csv d c text who now =
     (if who = None \<or> strip (or_else who []) = [] then Inl (Domain ''provisioned_by is required (D6.1)'')
      else case csv_rows (strip text) of
        None \<Rightarrow> Inl (Domain ''csv.Error'')
      | Some [] \<Rightarrow> Inr (bad_header, d)
      | Some (header # body) \<Rightarrow>
          if \<not> {''outlet'', ''uid''} \<subseteq> strip ` set header then Inr (bad_header, d)
          else sbind (import_lines d c 2 (map (csv_dict header) (filter (\<lambda>r. r \<noteq> []) body)) no_lines)
                 (commit_import d (strip (or_else who [])) now))"

section \<open>Lookup\<close>

record tag_hit =
  th_cabinet_id :: nat
  th_display_id :: string
  th_outlet_id :: nat
  th_outlet_name :: string
  th_matched_form :: string

definition lookup :: "db \<Rightarrow> string \<Rightarrow> uid_error + tag_hit option" where
  "lookup d scanned = (case normalise scanned of
     Inl e \<Rightarrow> Inl e
   | Inr s \<Rightarrow> Inr (Option.bind
       (find (\<lambda>t. tag_active t \<and> (tag_uid_primary t = s \<or> tag_uid_reversed t = s)) (db_nfc_tags d))
       (\<lambda>t. Option.bind (find (\<lambda>o1. out_id o1 = tag_outlet_id t) (db_outlets d))
         (\<lambda>o1. map_option (\<lambda>cab. \<lparr>th_cabinet_id = cab_id cab, th_display_id = cab_display_id cab,
              th_outlet_id = out_id o1, th_outlet_name = out_outlet_name o1,
              th_matched_form = (if tag_uid_primary t = s then ''primary'' else ''reversed'')\<rparr>)
            (find (\<lambda>cab. cab_id cab = out_cabinet_id o1) (db_cabinets d))))))"


section \<open>An import adds and never moves\<close>

text \<open>Every tag is stored with both its forms, and a UID, in either order, is on one outlet.\<close>

definition tags_ok :: "nfc_tag list \<Rightarrow> bool" where
  "tags_ok ts \<longleftrightarrow> tags_unique ts
   \<and> (\<forall>t \<in> set ts. both_forms (tag_uid_primary t) = Inr (tag_uid_primary t, tag_uid_reversed t))
   \<and> (\<forall>t \<in> set ts. \<forall>u \<in> set ts. tag_uid_primary t \<in> {tag_uid_primary u, tag_uid_reversed u}
        \<longrightarrow> tag_outlet_id t = tag_outlet_id u)"

definition pending_ok :: "db \<Rightarrow> nat \<Rightarrow> outlet \<times> string \<times> string \<Rightarrow> bool" where
  "pending_ok d c = (\<lambda>(o1, p, r). both_forms p = Inr (p, r) \<and> existing_tag d p r = None
     \<and> find (\<lambda>x. out_cabinet_id x = c \<and> out_outlet_name x = out_outlet_name o1) (db_outlets d) = Some o1)"

definition seen_ok :: "import_state \<Rightarrow> bool" where
  "seen_ok s \<longleftrightarrow> (is_errors s = [] \<longrightarrow> (\<forall>(o1, p, r) \<in> set (is_pending s).
     is_seen s p = Some (out_outlet_name o1) \<and> is_seen s r = Some (out_outlet_name o1)))"

lemma both_forms_again: "both_forms u = Inr (p, r) \<Longrightarrow> both_forms p = Inr (p, r)"
  by (auto simp: both_forms_eq normalise_fixed normalise_normal split: sum.splits)

lemma both_forms_swap: "both_forms u = Inr (p, r) \<Longrightarrow> both_forms r = Inr (r, p)"
  by (auto simp: both_forms_eq normalise_fixed normalise_normal rev_bytes_normal split: sum.splits)

lemma seen_errors_Nil:
  "seen_errors n name p r s = [] \<longleftrightarrow> is_seen s p \<in> {None, Some name} \<and> is_seen s r \<in> {None, Some name}"
  by (auto simp: seen_errors_def List.map_filter_def split: option.splits if_splits)

lemma import_line_ok:
  assumes run: "import_line d c n row s = Inr s'"
    and pend: "\<forall>x \<in> set (is_pending s). pending_ok d c x" and seen: "seen_ok s"
  shows "(\<forall>x \<in> set (is_pending s'). pending_ok d c x) \<and> seen_ok s'"
proof -
  let ?name = "or_else (map_of row ''outlet'') []"
  have err: "seen_ok (add_error e t)" "is_pending (add_error e t) = is_pending t" for e t
    by (simp_all add: seen_ok_def add_error_def)
  show ?thesis
  proof (cases "find (\<lambda>o1. out_cabinet_id o1 = c \<and> out_outlet_name o1 = ?name) (db_outlets d)")
    case None
    with run pend err show ?thesis by (auto simp: import_line_def)
  next
    case (Some o1)
    then have name: "out_outlet_name o1 = ?name" by (auto dest: find_Some_D)
    show ?thesis
    proof (cases "both_forms (or_else (map_of row ''uid'') [])")
      case (Inl e)
      with run Some pend err show ?thesis by (auto simp: import_line_def Let_def)
    next
      case (Inr pr)
      obtain p r where pr: "pr = (p, r)" by (cases pr)
      define s1 where "s1 = s\<lparr>is_errors := is_errors s @ seen_errors n ?name p r s,
          is_seen := (is_seen s)(p := Some ?name, r := Some ?name)\<rparr>"
      have s1: "is_pending s1 = is_pending s" by (simp add: s1_def)
      have seen1: "is_seen s1 q = Some (out_outlet_name x)"
        if "(x, p', r') \<in> set (is_pending s)" "q \<in> {p', r'}" "is_errors s1 = []" for x p' r' q
      proof -
        have old: "is_seen s q = Some (out_outlet_name x)"
          using seen that by (auto simp: seen_ok_def s1_def)
        have "is_seen s p \<in> {None, Some ?name}" "is_seen s r \<in> {None, Some ?name}"
          using that(3) seen_errors_Nil[of n ?name p r s] by (auto simp: s1_def)
        with old show ?thesis by (auto simp: s1_def)
      qed
      consider e where "s' = add_error e s" | "s' = s1\<lparr>is_pending := is_pending s1 @ [(o1, p, r)]\<rparr>" "existing_tag d p r = None"
        | u where "s' = s1\<lparr>is_unchanged := u\<rparr>" | e where "s' = add_error e s1"
        using run Some Inr pr unfolding import_line_def Let_def s1_def[symmetric]
        by (auto simp: s1_def[symmetric] split: option.splits if_splits sum.splits)
      then show ?thesis
      proof cases
        case 1
        with pend err show ?thesis by simp
      next
        case 2
        have "pending_ok d c (o1, p, r)"
          using both_forms_again Inr pr 2(2) Some name by (simp add: pending_ok_def)
        moreover have "seen_ok s'"
        proof (unfold seen_ok_def, intro impI ballI)
          fix x assume e: "is_errors s' = []" and x: "x \<in> set (is_pending s')"
          have "is_errors s1 = []" using e 2(1) by simp
          obtain o2 p2 r2 where x2: "x = (o2, p2, r2)" by (cases x)
          show "case x of (o1, p, r) \<Rightarrow> is_seen s' p = Some (out_outlet_name o1) \<and> is_seen s' r = Some (out_outlet_name o1)"
          proof (cases "x \<in> set (is_pending s)")
            case True
            with seen1[of o2 p2 r2] \<open>is_errors s1 = []\<close> x2 2(1) show ?thesis by simp
          next
            case False
            with x 2(1) s1 x2 have "(o2, p2, r2) = (o1, p, r)" by simp
            with x2 2(1) name show ?thesis by (simp add: s1_def)
          qed
        qed
        ultimately show ?thesis using pend 2(1) s1 by auto
      next
        case 3
        have "seen_ok s'" unfolding seen_ok_def using seen1 s1 by (auto simp: 3)
        with pend 3 s1 show ?thesis by simp
      next
        case 4
        with pend err s1 show ?thesis by simp
      qed
    qed
  qed
qed

lemma import_lines_ok:
  "import_lines d c n rows s = Inr s' \<Longrightarrow> \<forall>x \<in> set (is_pending s). pending_ok d c x \<Longrightarrow> seen_ok s \<Longrightarrow>
   (\<forall>x \<in> set (is_pending s'). pending_ok d c x) \<and> seen_ok s'"
proof (induction rows arbitrary: n s)
  case (Cons row rows)
  then obtain s1 where s1: "import_line d c n row s = Inr s1" "import_lines d c (Suc n) rows s1 = Inr s'"
    by (auto simp: sbind_Inr)
  from import_line_ok[OF s1(1) Cons.prems(2,3)] Cons.IH[OF s1(2)] show ?case by simp
qed simp

lemma add_tags_new:
  "\<exists>new. add_tags who now ps ts = ts @ new
     \<and> map (\<lambda>t. (tag_outlet_id t, tag_uid_primary t, tag_uid_reversed t)) new = map (\<lambda>(o1, p, r). (out_id o1, p, r)) ps"
proof (induction ps arbitrary: ts)
  case (Cons x ps)
  obtain new where n: "add_tags who now ps (ts @ [tag_row (next_id tag_id ts) who now x]) =
      (ts @ [tag_row (next_id tag_id ts) who now x]) @ new"
    "map (\<lambda>t. (tag_outlet_id t, tag_uid_primary t, tag_uid_reversed t)) new = map (\<lambda>(o1, p, r). (out_id o1, p, r)) ps"
    using Cons by blast
  then show ?case
    by (intro exI[of _ "tag_row (next_id tag_id ts) who now x # new"]) (auto simp: tag_row_def split: prod.splits)
qed simp

lemma new_tags_ok:
  assumes ok: "tags_ok (db_nfc_tags d)" and pend: "\<forall>x \<in> set ps. pending_ok d c x"
    and one: "\<And>o1 p r o2 p2 r2. (o1, p, r) \<in> set ps \<Longrightarrow> (o2, p2, r2) \<in> set ps \<Longrightarrow> p \<in> {p2, r2} \<Longrightarrow> o1 = o2"
    and tags: "add_tags who now ps (db_nfc_tags d) = db_nfc_tags d @ new"
    and new: "map (\<lambda>t. (tag_outlet_id t, tag_uid_primary t, tag_uid_reversed t)) new = map (\<lambda>(o1, p, r). (out_id o1, p, r)) ps"
    and uniq: "tags_unique (db_nfc_tags d @ new)"
  shows "tags_ok (db_nfc_tags d @ new)"
proof -
  let ?old = "db_nfc_tags d"
  have n: "\<exists>o1. (o1, tag_uid_primary t, tag_uid_reversed t) \<in> set ps \<and> tag_outlet_id t = out_id o1" if "t \<in> set new" for t
  proof -
    have "(tag_outlet_id t, tag_uid_primary t, tag_uid_reversed t) \<in> set (map (\<lambda>(o1, p, r). (out_id o1, p, r)) ps)"
      unfolding new[symmetric] using that by auto
    then show ?thesis by auto
  qed
  have forms: "both_forms (tag_uid_primary t) = Inr (tag_uid_primary t, tag_uid_reversed t)" if "t \<in> set (?old @ new)" for t
  proof (cases "t \<in> set new")
    case True
    with n pend show ?thesis by (force simp: pending_ok_def)
  qed (use that ok in \<open>auto simp: tags_ok_def\<close>)
  have free: "tag_uid_primary t \<notin> {p, r} \<and> tag_uid_reversed t \<notin> {p, r}" if "t \<in> set ?old" "(o1, p, r) \<in> set ps" for t o1 p r
  proof -
    have "pending_ok d c (o1, p, r)" using pend that(2) by blast
    then have "find (\<lambda>t. tag_uid_primary t \<in> {p, r} \<or> tag_uid_reversed t \<in> {p, r}) ?old = None"
      by (simp add: pending_ok_def existing_tag_def)
    from find_None_D[OF this that(1)] show ?thesis by simp
  qed
  have "tag_outlet_id t = tag_outlet_id u"
    if t: "t \<in> set (?old @ new)" and u: "u \<in> set (?old @ new)" and s: "tag_uid_primary t \<in> {tag_uid_primary u, tag_uid_reversed u}" for t u
  proof -
    consider "t \<in> set ?old" "u \<in> set ?old" | "t \<in> set ?old" "u \<in> set new" | "t \<in> set new" "u \<in> set ?old"
      | "t \<in> set new" "u \<in> set new" using t u by auto
    then show ?thesis
    proof cases
      case 1
      with ok s show ?thesis unfolding tags_ok_def by blast
    next
      case 2
      obtain o1 where "(o1, tag_uid_primary u, tag_uid_reversed u) \<in> set ps" using n[OF 2(2)] by blast
      from free[OF 2(1) this] s show ?thesis by blast
    next
      case 3
      obtain o1 where "(o1, tag_uid_primary t, tag_uid_reversed t) \<in> set ps" using n[OF 3(1)] by blast
      from free[OF 3(2) this] s show ?thesis by auto
    next
      case 4
      obtain o1 where 1: "(o1, tag_uid_primary t, tag_uid_reversed t) \<in> set ps" "tag_outlet_id t = out_id o1"
        using n[OF 4(1)] by blast
      obtain o2 where 2: "(o2, tag_uid_primary u, tag_uid_reversed u) \<in> set ps" "tag_outlet_id u = out_id o2"
        using n[OF 4(2)] by blast
      from one[OF 1(1) 2(1) s] 1(2) 2(2) show ?thesis by simp
    qed
  qed
  with forms uniq show ?thesis unfolding tags_ok_def by blast
qed

lemma pending_one_outlet:
  assumes "\<forall>x \<in> set (is_pending s). pending_ok d c x" "seen_ok s" "is_errors s = []"
    and "(o1, p, r) \<in> set (is_pending s)" "(o2, p2, r2) \<in> set (is_pending s)" "p \<in> {p2, r2}"
  shows "o1 = o2"
proof -
  have "is_seen s p = Some (out_outlet_name o1)" using assms(2-4) by (auto simp: seen_ok_def)
  moreover have "is_seen s p = Some (out_outlet_name o2)" using assms(2,3,5,6) by (auto simp: seen_ok_def)
  ultimately have "out_outlet_name o1 = out_outlet_name o2" by simp
  moreover have "pending_ok d c (o1, p, r)" "pending_ok d c (o2, p2, r2)" using assms(1,4,5) by auto
  ultimately show ?thesis by (simp add: pending_ok_def)
qed

lemma import_csv_cases:
  assumes "import_csv d c text who now = Inr (rep, d')"
  obtains "d' = d" "ir_added rep = []"
  | rows s where "import_lines d c 2 rows no_lines = Inr s" "is_errors s = []"
      "commit_import d (strip (or_else who [])) now s = Inr (rep, d')"
proof -
  obtain rows where rows: "csv_rows (strip text) = Some rows"
    using assms by (auto simp: import_csv_def split: if_splits option.splits)
  show thesis
  proof (cases rows)
    case Nil
    with assms rows that(1) show thesis by (auto simp: import_csv_def bad_header_def split: if_splits)
  next
    case (Cons header body)
    let ?lines = "map (csv_dict header) (filter (\<lambda>r. r \<noteq> []) body)"
    consider "(rep, d') = (bad_header, d)"
      | s where "import_lines d c 2 ?lines no_lines = Inr s" "commit_import d (strip (or_else who [])) now s = Inr (rep, d')"
      using assms rows Cons by (auto simp: import_csv_def sbind_Inr split: if_splits)
    then show thesis
    proof cases
      case 1
      then show thesis using that(1) by (simp add: bad_header_def)
    next
      case 2
      then show thesis using that by (cases "is_errors s = []") (auto simp: commit_import_def)
    qed
  qed
qed

text \<open>
  C28. An import adds tags and never moves one: whatever the file says, every tag that was there
  stays as it was, a UID in either byte order stays on one outlet, every new tag is stored with
  both its forms, and a file with any bad line changes nothing at all.
\<close>

theorem import_adds_and_never_moves:
  assumes "tags_ok (db_nfc_tags d)" and "import_csv d c text who now = Inr (rep, d')"
  shows "tags_ok (db_nfc_tags d')
    \<and> (\<exists>new. db_nfc_tags d' = db_nfc_tags d @ new \<and> map tag_uid_primary new = map snd (ir_added rep)
         \<and> (ir_errors rep \<noteq> [] \<longrightarrow> new = []))
    \<and> d'\<lparr>db_nfc_tags := []\<rparr> = d\<lparr>db_nfc_tags := []\<rparr>"
proof -
  consider "d' = d" "ir_added rep = []"
    | rows s where "import_lines d c 2 rows no_lines = Inr s" "is_errors s = []"
      "commit_import d (strip (or_else who [])) now s = Inr (rep, d')"
    by (rule import_csv_cases[OF assms(2)])
  then show ?thesis
  proof cases
    case 1
    with assms(1) show ?thesis by simp
  next
    case 2
    let ?tags = "add_tags (strip (or_else who [])) now (is_pending s) (db_nfc_tags d)"
    from import_lines_ok[OF 2(1)] have p: "\<forall>x \<in> set (is_pending s). pending_ok d c x" "seen_ok s"
      by (simp_all add: seen_ok_def no_lines_def)
    obtain new where new: "?tags = db_nfc_tags d @ new"
      "map (\<lambda>t. (tag_outlet_id t, tag_uid_primary t, tag_uid_reversed t)) new = map (\<lambda>(o1, p, r). (out_id o1, p, r)) (is_pending s)"
      using add_tags_new[of "strip (or_else who [])" now "is_pending s" "db_nfc_tags d"] by (elim exE conjE)
    have r: "tags_unique ?tags" "d' = d\<lparr>db_nfc_tags := ?tags\<rparr>" "ir_errors rep = []"
        "ir_added rep = map (\<lambda>(o1, p, _). (out_outlet_name o1, p)) (is_pending s)"
      using 2(3) unfolding commit_import_def Let_def using 2(2) by (auto split: if_splits)
    have "tags_ok (db_nfc_tags d @ new)"
    proof (rule new_tags_ok[OF assms(1) p(1) _ new])
      show "tags_unique (db_nfc_tags d @ new)" using r(1) unfolding new(1) .
      show "o1 = o2" if "(o1, p, r) \<in> set (is_pending s)" "(o2, p2, r2) \<in> set (is_pending s)" "p \<in> {p2, r2}"
        for o1 p r o2 p2 r2 using that by (rule pending_one_outlet[OF p 2(2)])
    qed
    moreover have "map tag_uid_primary new = map (\<lambda>(o1, p, r). p) (is_pending s)"
      using arg_cong[OF new(2), of "map (fst \<circ> snd)"] by (simp add: comp_def case_prod_unfold)
    then have "map tag_uid_primary new = map snd (ir_added rep)"
      by (simp add: r(4) comp_def case_prod_unfold)
    ultimately show ?thesis using r(3) unfolding r(2) new(1) by simp
  qed
qed

text \<open>
  A scanned UID finds its outlet in either byte order: with every tag stored in both forms,
  a lookup by one order and by the other name the same outlet, and it is the outlet of an
  active tag that carries this UID.
\<close>

theorem lookup_either_order:
  assumes "tags_ok (db_nfc_tags d)" and "both_forms u = Inr (p, r)"
  shows "(case (lookup d u, lookup d r) of
      (Inr a, Inr b) \<Rightarrow> map_option th_outlet_id a = map_option th_outlet_id b
        \<and> (\<forall>h. a = Some h \<longrightarrow> (\<exists>t \<in> set (db_nfc_tags d). tag_active t \<and> tag_outlet_id t = th_outlet_id h
             \<and> p \<in> {tag_uid_primary t, tag_uid_reversed t}))
    | _ \<Rightarrow> False)"
proof -
  let ?ts = "db_nfc_tags d"
  let ?P = "\<lambda>s t. tag_active t \<and> (tag_uid_primary t = s \<or> tag_uid_reversed t = s)"
  have n: "normalise u = Inr p" "r = rev_bytes p" "normal_uid p"
    using assms(2) by (auto simp: both_forms_eq normalise_normal split: sum.splits)
  have nr: "normalise r = Inr r" unfolding n(2) by (intro normalise_fixed rev_bytes_normal n(3))
  have mirror: "tag_uid_reversed t = rev_bytes (tag_uid_primary t)" "normal_uid (tag_uid_primary t)" if "t \<in> set ?ts" for t
  proof -
    have "both_forms (tag_uid_primary t) = Inr (tag_uid_primary t, tag_uid_reversed t)"
      using assms(1) that unfolding tags_ok_def by blast
    then show "tag_uid_reversed t = rev_bytes (tag_uid_primary t)" "normal_uid (tag_uid_primary t)"
      by (auto simp: both_forms_eq normalise_normal split: sum.splits)
  qed
  have same: "?P p t = ?P r t" if "t \<in> set ?ts" for t
  proof -
    have "tag_uid_primary t = r \<longleftrightarrow> tag_uid_reversed t = p" "tag_uid_reversed t = r \<longleftrightarrow> tag_uid_primary t = p"
      unfolding n(2) mirror(1)[OF that] using rev_bytes_normal(2)[OF n(3)] rev_bytes_normal(2)[OF mirror(2)[OF that]] by metis+
    then show ?thesis by blast
  qed
  have f: "find (?P r) ?ts = find (?P p) ?ts" by (rule find_cong_set) (rule same[symmetric])
  show ?thesis
  proof (cases "find (?P p) ?ts")
    case None
    with f show ?thesis by (simp add: lookup_def n(1) nr)
  next
    case (Some t)
    then have t: "t \<in> set ?ts" "?P p t" by (auto dest: find_Some_D)
    with f Some show ?thesis
      by (auto simp: lookup_def n(1) nr bind_eq_Some_conv option.map_comp comp_def split: option.splits dest!: find_Some_D
          intro!: bexI[of _ t] split: Option.bind_split)
  qed
qed

section \<open>A concrete import\<close>

definition tagged_db :: db where
  "tagged_db = provisioned_db\<lparr>db_nfc_tags := [tag_row 1 ''admin'' 0
     (hd (db_outlets provisioned_db), ''AA:BB'', ''BB:AA'')]\<rparr>"

lemma tagged_db_ok: "tags_ok (db_nfc_tags tagged_db)"
proof -
  have "both_forms ''AA:BB'' = Inr (''AA:BB'', ''BB:AA'')" by code_simp
  then show ?thesis by (simp add: tags_ok_def tags_unique_def tagged_db_def tag_row_def)
qed

definition sample_csv :: string where
  "sample_csv = ''outlet,uid'' @ [CHR 0x0A] @ ''Q2,1122'' @ [CHR 0x0A] @ ''Q1,bb-aa''"

theorem import_adds_and_never_moves_witness:
  "\<exists>rep d'. import_csv tagged_db 1 sample_csv (Some ''admin'') 5 = Inr (rep, d') \<and> ir_ok rep
     \<and> ir_added rep = [(''Q2'', ''11:22'')] \<and> tags_ok (db_nfc_tags d')"
proof -
  have "case import_csv tagged_db 1 sample_csv (Some ''admin'') 5 of
      Inr (rep, _) \<Rightarrow> ir_ok rep \<and> ir_added rep = [(''Q2'', ''11:22'')] | Inl _ \<Rightarrow> False" by code_simp
  then obtain rep d' where r: "import_csv tagged_db 1 sample_csv (Some ''admin'') 5 = Inr (rep, d')"
    "ir_ok rep" "ir_added rep = [(''Q2'', ''11:22'')]"
    by (auto split: sum.splits prod.splits)
  from import_adds_and_never_moves[OF tagged_db_ok r(1)] r show ?thesis by blast
qed

theorem lookup_either_order_witness:
  "\<exists>a b. lookup tagged_db ''bbaa'' = Inr a \<and> lookup tagged_db ''AA:BB'' = Inr b
     \<and> map_option th_outlet_id a = map_option th_outlet_id b"
proof -
  have f: "both_forms ''bbaa'' = Inr (''BB:AA'', ''AA:BB'')" by code_simp
  obtain a b where ab: "lookup tagged_db ''bbaa'' = Inr a" "lookup tagged_db ''AA:BB'' = Inr b"
    using lookup_either_order[OF tagged_db_ok f]
    by (cases "lookup tagged_db ''bbaa''"; cases "lookup tagged_db ''AA:BB''") simp_all
  with lookup_either_order[OF tagged_db_ok f] show ?thesis by simp
qed

end
