(* ===== verification/Totp.thy ===== *)
theory Totp
  imports Py_Values "HOL-Library.Word"
begin

unbundle bit_operations_syntax

text \<open>
  \<open>utils/totp.py\<close>: base32 secrets, HOTP (RFC 4226), TOTP steps (RFC 6238) and \<open>verify\<close>, which
  accepts a code of the previous, current or next 30 s step, once. The standard library's part
  (base32, big-endian packing, \<open>isdigit\<close>, \<open>compare_digest\<close>) is written out; the keyed digest is a
  parameter \<open>mac key message\<close>, as in \<open>hotp(..., digest=hashlib.sha1)\<close>. A character is a code point
  below 256 here, because \<open>isdigit\<close> and \<open>compare_digest\<close> differ beyond ASCII.
\<close>

section \<open>Digits in a base\<close>

text \<open>\<open>int.to_bytes\<close>, \<open>struct.pack\<close> and the base32 quanta are all \<open>k\<close> digits, the most significant
  first; reading them back is Horner's rule.\<close>

fun digits_of :: "int \<Rightarrow> nat \<Rightarrow> int \<Rightarrow> int list" where
  "digits_of b 0 n = []"
| "digits_of b (Suc k) n = digits_of b k (n div b) @ [n mod b]"

definition horner :: "int \<Rightarrow> int list \<Rightarrow> int" where
  "horner b ds = foldl (\<lambda>acc d. acc * b + d) 0 ds"

lemma horner_snoc [simp]: "horner b (ds @ [d]) = horner b ds * b + d"
  by (simp add: horner_def)

lemma horner_Nil [simp]: "horner b [] = 0"
  by (simp add: horner_def)

lemma length_digits_of [simp]: "length (digits_of b k n) = k"
  by (induction k arbitrary: n) auto

lemma digits_lt: "0 < b \<Longrightarrow> d \<in> set (digits_of b k n) \<Longrightarrow> 0 \<le> d \<and> d < b"
  by (induction k arbitrary: n) auto

lemma horner_digits: "0 < b \<Longrightarrow> horner b (digits_of b k n) = n mod b ^ k"
proof (induction k arbitrary: n)
  case (Suc k)
  have "n mod b ^ Suc k = b * (n div b mod b ^ k) + n mod b"
    using Suc.prems by (simp add: zmod_zmult2_eq)
  with Suc show ?case by (simp add: mult.commute)
qed simp

lemma horner_range:
  "0 < b \<Longrightarrow> \<forall>d \<in> set ds. 0 \<le> d \<and> d < b \<Longrightarrow> 0 \<le> horner b ds \<and> horner b ds < b ^ length ds"
proof (induction ds rule: rev_induct)
  case (snoc d ds)
  then have ih: "0 \<le> horner b ds" "horner b ds + 1 \<le> b ^ length ds" by simp_all
  from ih(2) have "(horner b ds + 1) * b \<le> b ^ length ds * b" using snoc.prems(1) by (intro mult_right_mono) simp_all
  with ih(1) snoc.prems show ?case by (simp add: algebra_simps)
qed simp

lemma digits_horner:
  "0 < b \<Longrightarrow> \<forall>d \<in> set ds. 0 \<le> d \<and> d < b \<Longrightarrow> digits_of b (length ds) (horner b ds) = ds"
  by (induction ds rule: rev_induct) auto

section \<open>Bytes\<close>

type_synonym byte = "8 word"

definition be_bytes :: "nat \<Rightarrow> int \<Rightarrow> byte list" where
  "be_bytes k n = map word_of_int (digits_of 256 k n)"

definition be_int :: "byte list \<Rightarrow> int" where
  "be_int bs = horner 256 (map uint bs)"

fun chunks :: "nat \<Rightarrow> nat \<Rightarrow> 'a list \<Rightarrow> 'a list list" where
  "chunks 0 k xs = []"
| "chunks (Suc n) k xs = take k xs # chunks n k (drop k xs)"

lemma length_be_bytes [simp]: "length (be_bytes k n) = k"
  by (simp add: be_bytes_def)

section \<open>HOTP and the secret\<close>

definition STEP_SECONDS :: int where "STEP_SECONDS = 30"
definition DIGITS :: nat where "DIGITS = 6"
definition WINDOW :: int where "WINDOW = 1"

text \<open>What may be raised: an unreadable secret, a counter outside 64 bits (or a digest too
  short to read four bytes from), and comparing text that is not ASCII.\<close>

datatype totp_error = BinasciiError | StructError | TypeError

type_synonym mac = "byte list \<Rightarrow> byte list \<Rightarrow> byte list"

definition b32_alphabet :: string where
  "b32_alphabet = ''ABCDEFGHIJKLMNOPQRSTUVWXYZ234567''"

definition b32_digit :: "int \<Rightarrow> char" where
  "b32_digit d = b32_alphabet ! nat d"

definition b32_val :: "char \<Rightarrow> int option" where
  "b32_val c = (let i = length (takeWhile (\<lambda>x. x \<noteq> c) b32_alphabet)
                in if i < 32 then Some (int i) else None)"

text \<open>\<open>base64.b32encode\<close> of whole groups of five bytes (the program encodes 20 and 5 bytes).\<close>

definition b32_group :: "byte list \<Rightarrow> string" where
  "b32_group bs = map b32_digit (digits_of 32 8 (be_int bs))"

definition b32encode :: "byte list \<Rightarrow> string" where
  "b32encode bs = concat (map b32_group (chunks (length bs div 5) 5 bs))"

text \<open>\<open>base64.b32decode\<close>: the padding is stripped and counted, every quantum of eight characters
  is five bytes, and of a padded last quantum only the leading bytes are kept.\<close>

fun those_vals :: "char list \<Rightarrow> int list option" where
  "those_vals [] = Some []"
| "those_vals (c # cs) = (case (b32_val c, those_vals cs) of (Some v, Some vs) \<Rightarrow> Some (v # vs) | _ \<Rightarrow> None)"

definition quantum_bytes :: "int list \<Rightarrow> byte list" where
  "quantum_bytes q = be_bytes 5 (horner 32 q)"

definition of_quanta :: "int list \<Rightarrow> byte list" where
  "of_quanta vs = concat (map quantum_bytes (chunks (length vs div 8) 8 vs))"

definition keep_whole :: "nat \<Rightarrow> byte list \<Rightarrow> byte list" where
  "keep_whole pad bytes =
     (if pad = 0 then bytes else take (length bytes - 5 + (43 - 5 * pad) div 8) bytes)"

definition b32_unpadded :: "string \<Rightarrow> string" where
  "b32_unpadded s = rev (dropWhile (\<lambda>c. c = CHR ''='') (rev s))"

fun b32_join :: "nat \<Rightarrow> int list option \<Rightarrow> totp_error + byte list" where
  "b32_join pad None = Inl BinasciiError"
| "b32_join pad (Some vs) =
     (if pad \<notin> {0, 1, 3, 4, 6} then Inl BinasciiError
      else Inr (keep_whole pad (of_quanta (vs @ replicate pad 0))))"

definition b32decode :: "string \<Rightarrow> totp_error + byte list" where
  "b32decode s =
     (if length s mod 8 \<noteq> 0 then Inl BinasciiError
      else b32_join (length s - length (b32_unpadded s)) (those_vals (b32_unpadded s)))"

definition new_secret :: "byte list \<Rightarrow> string" where
  "new_secret random20 = b32_unpadded (b32encode random20)"

definition latin_space :: "char \<Rightarrow> bool" where
  "latin_space c \<longleftrightarrow> is_space c \<or> (of_char c :: nat) \<in> {0x85, 0xA0}"

definition strip_u :: "string \<Rightarrow> string" where
  "strip_u s = rev (dropWhile latin_space (rev (dropWhile latin_space s)))"

definition no_blanks :: "string \<Rightarrow> string" where
  "no_blanks s = filter (\<lambda>c. c \<noteq> CHR '' '') s"

definition b32_pad :: "string \<Rightarrow> string" where
  "b32_pad s = s @ replicate ((8 - length s mod 8) mod 8) (CHR ''='')"

definition totp_key :: "string \<Rightarrow> totp_error + byte list" where
  "totp_key secret =
     b32decode (b32_pad (upper_str (no_blanks (strip_u secret))))"

text \<open>Dynamic truncation: four bytes from the offset in the last byte's low nibble.\<close>

definition truncate4 :: "byte list \<Rightarrow> byte list" where
  "truncate4 m = take 4 (drop (unat (last m AND 0x0F)) m)"

definition code_of :: "nat \<Rightarrow> byte list \<Rightarrow> totp_error + string" where
  "code_of digits four =
     (if length four < 4 then Inl StructError
      else Inr (zfill digits (int_str (be_int four mod 2 ^ 31 mod 10 ^ digits))))"

definition hotp :: "mac \<Rightarrow> byte list \<Rightarrow> int \<Rightarrow> nat \<Rightarrow> totp_error + string" where
  "hotp mac key counter digits =
     (if counter < 0 \<or> 2 ^ 64 \<le> counter then Inl StructError
      else code_of digits (truncate4 (mac key (be_bytes 8 counter))))"

text \<open>A POSIX time is read from the clock of the program: \<open>int(unix_time // 30)\<close>.\<close>

definition step_at :: "dtime \<Rightarrow> int" where
  "step_at now = now div seconds STEP_SECONDS"

definition code_at :: "mac \<Rightarrow> string \<Rightarrow> dtime \<Rightarrow> nat \<Rightarrow> totp_error + string" where
  "code_at mac secret now digits = sbind (totp_key secret) (\<lambda>key. hotp mac key (step_at now) digits)"

text \<open>\<open>urllib.parse.quote\<close> on the UTF-8 bytes of a text, with \<open>/\<close> left as it is.\<close>

definition hex_upper :: "nat \<Rightarrow> char" where
  "hex_upper n = ''0123456789ABCDEF'' ! n"

definition quote_char :: "char \<Rightarrow> string" where
  "quote_char c =
     (let n = (of_char c :: nat)
      in if is_digit c \<or> (65 \<le> n \<and> n \<le> 90) \<or> (97 \<le> n \<and> n \<le> 122) \<or> c \<in> set ''_.-~/'' then [c]
         else [CHR ''%'', hex_upper (n div 16), hex_upper (n mod 16)])"

definition url_quote :: "string \<Rightarrow> string" where
  "url_quote s = concat (map quote_char s)"

definition provisioning_uri :: "string \<Rightarrow> string \<Rightarrow> string" where
  "provisioning_uri secret account =
     ''otpauth://totp/'' @ url_quote (''ERP-IOT:'' @ account) @ ''?secret='' @ secret @
     ''&issuer='' @ url_quote ''ERP-IOT'' @ ''&algorithm=SHA1&digits='' @ nat_str DIGITS @
     ''&period='' @ int_str STEP_SECONDS"

section \<open>Verification\<close>

text \<open>\<open>str.isdigit\<close> on code points below 256 also accepts the superscripts one, two and three;
  \<open>hmac.compare_digest\<close> raises on any text that is not ASCII.\<close>

definition py_isdigit :: "string \<Rightarrow> bool" where
  "py_isdigit s \<longleftrightarrow> s \<noteq> [] \<and> list_all (\<lambda>c. is_digit c \<or> (of_char c :: nat) \<in> {0xB2, 0xB3, 0xB9}) s"

definition is_ascii :: "string \<Rightarrow> bool" where
  "is_ascii s \<longleftrightarrow> list_all (\<lambda>c. (of_char c :: nat) < 128) s"

definition compare_digest :: "string \<Rightarrow> string \<Rightarrow> totp_error + bool" where
  "compare_digest a b = (if is_ascii a \<and> is_ascii b then Inr (a = b) else Inl TypeError)"

fun first_hit :: "mac \<Rightarrow> byte list \<Rightarrow> string \<Rightarrow> int list \<Rightarrow> int option \<Rightarrow> totp_error + int option" where
  "first_hit mac key code [] hit = Inr hit"
| "first_hit mac key code (s # ss) hit =
     sbind (hotp mac key s DIGITS) (\<lambda>c. sbind (compare_digest c code) (\<lambda>same.
       first_hit mac key code ss (if same \<and> hit = None then Some s else hit)))"

definition clean_code :: "string \<Rightarrow> string" where
  "clean_code code = no_blanks (strip_u code)"

definition newer_than :: "int option \<Rightarrow> int option \<Rightarrow> int option" where
  "newer_than last_step hit =
     (case (hit, last_step) of (Some h, Some l) \<Rightarrow> if h \<le> l then None else hit | _ \<Rightarrow> hit)"

definition match_code :: "mac \<Rightarrow> byte list \<Rightarrow> string \<Rightarrow> int option \<Rightarrow> int \<Rightarrow> totp_error + int option" where
  "match_code mac key code last_step step =
     sbind (first_hit mac key code [step - WINDOW..step + WINDOW] None) (\<lambda>hit. Inr (newer_than last_step hit))"

definition verify :: "mac \<Rightarrow> string \<Rightarrow> string \<Rightarrow> int option \<Rightarrow> dtime \<Rightarrow> totp_error + int option" where
  "verify mac secret code last_step now =
     (if length (clean_code code) \<noteq> DIGITS \<or> \<not> py_isdigit (clean_code code) then Inr None
      else sbind (totp_key secret) (\<lambda>key. match_code mac key (clean_code code) last_step (step_at now)))"

section \<open>The secret the phone gets is the secret the server checks\<close>

lemma concat_chunks: "length xs = n * k \<Longrightarrow> concat (chunks n k xs) = xs"
  by (induction n arbitrary: xs) auto

lemma chunks_same: "length xs = n * k \<Longrightarrow> c \<in> set (chunks n k xs) \<Longrightarrow> length c = k"
proof (induction n arbitrary: xs)
  case (Suc n)
  from Suc.IH[of "drop k xs"] Suc.prems show ?case by auto
qed simp

lemma chunks_concat: "\<forall>x \<in> set xss. length x = k \<Longrightarrow> chunks (length xss) k (concat xss) = xss"
  by (induction xss) auto

lemma length_chunks [simp]: "length (chunks n k xs) = n"
  by (induction n arbitrary: xs) auto

lemma uint_byte: "0 \<le> uint (x :: byte) \<and> uint x < 256"
  using unsigned_less[of x] by simp

lemma be_bytes_int: "length bs = k \<Longrightarrow> be_bytes k (be_int bs) = bs"
proof -
  assume "length bs = k"
  moreover have "\<forall>d \<in> set (map uint bs). 0 \<le> d \<and> d < 256" using uint_byte by auto
  ultimately have "digits_of 256 k (horner 256 (map uint bs)) = map uint bs"
    using digits_horner[of 256 "map uint bs"] by simp
  then show ?thesis by (simp add: be_bytes_def be_int_def comp_def)
qed

lemma be_int_range: "0 \<le> be_int bs \<and> be_int bs < 256 ^ length bs"
  using horner_range[of 256 "map uint bs"] uint_byte by (auto simp: be_int_def)

lemma b32_val_digit: "0 \<le> i \<Longrightarrow> i < 32 \<Longrightarrow> b32_val (b32_digit i) = Some i"
proof -
  have "list_all (\<lambda>i. b32_val (b32_alphabet ! i) = Some (int i)) [0..<32]" by code_simp
  then show "0 \<le> i \<Longrightarrow> i < 32 \<Longrightarrow> b32_val (b32_digit i) = Some i" by (simp add: list_all_iff b32_digit_def)
qed

lemma those_vals_map: "\<forall>i \<in> set is. 0 \<le> i \<and> i < 32 \<Longrightarrow> those_vals (map b32_digit is) = Some is"
  by (induction "is") (auto simp: b32_val_digit)

definition b32_char :: "char \<Rightarrow> bool" where
  "b32_char c \<longleftrightarrow> \<not> latin_space c \<and> c \<noteq> CHR '' '' \<and> c \<noteq> CHR ''='' \<and> upper_char c = c"

lemma alphabet_chars: "0 \<le> i \<Longrightarrow> i < 32 \<Longrightarrow> b32_char (b32_digit i)"
proof -
  have "list_all b32_char b32_alphabet"
    by (simp add: b32_alphabet_def b32_char_def latin_space_def is_space_def upper_char_def)
  moreover have "length b32_alphabet = 32" by (simp add: b32_alphabet_def)
  ultimately show "0 \<le> i \<Longrightarrow> i < 32 \<Longrightarrow> b32_char (b32_digit i)" by (simp add: list_all_length b32_digit_def)
qed

lemma dropWhile_none: "\<forall>x \<in> set xs. \<not> P x \<Longrightarrow> dropWhile P xs = xs"
  by (cases xs) auto

lemma b32_clean:
  assumes "\<forall>c \<in> set s. b32_char c"
  shows "upper_str (no_blanks (strip_u s)) = s" and "b32_unpadded s = s"
proof -
  have "strip_u s = s" using assms by (simp add: strip_u_def dropWhile_none b32_char_def)
  moreover have "no_blanks s = s" using assms by (auto simp: no_blanks_def b32_char_def filter_id_conv)
  moreover have "upper_str s = s" using assms by (auto simp: upper_str_def b32_char_def map_idI)
  ultimately show "upper_str (no_blanks (strip_u s)) = s" by simp
  show "b32_unpadded s = s" using assms by (simp add: b32_unpadded_def dropWhile_none b32_char_def)
qed

lemma b32encode_digits:
  "b32encode bs = map b32_digit (concat (map (\<lambda>g. digits_of 32 8 (be_int g)) (chunks (length bs div 5) 5 bs)))"
  by (simp add: b32encode_def b32_group_def[abs_def] map_concat comp_def)

lemma b32_round_trip:
  assumes "length bs = 5 * n"
  shows "b32decode (b32encode bs) = Inr bs" and "\<forall>c \<in> set (b32encode bs). b32_char c"
    and "length (b32encode bs) = 8 * n"
proof -
  let ?gs = "chunks n 5 bs" and ?q = "\<lambda>g. digits_of 32 8 (be_int g)"
  let ?ds = "concat (map ?q ?gs)"
  have enc: "b32encode bs = map b32_digit ?ds" using assms by (simp add: b32encode_digits)
  have small: "\<forall>d \<in> set ?ds. 0 \<le> d \<and> d < 32" by (auto dest!: digits_lt[rotated])
  have len: "length ?ds = 8 * n" by (simp add: length_concat comp_def sum_list_triv)
  show chars: "\<forall>c \<in> set (b32encode bs). b32_char c" using small by (auto simp: enc intro!: alphabet_chars)
  show blen: "length (b32encode bs) = 8 * n" by (simp add: enc len)
  have again: "horner 32 (?q g) = be_int g" if "g \<in> set ?gs" for g
  proof -
    from that assms have "length g = 5" using chunks_same[of bs n 5 g] by (simp add: mult.commute)
    with be_int_range[of g] have "0 \<le> be_int g" "be_int g < 32 ^ 8" by simp_all
    then show ?thesis by (simp add: horner_digits)
  qed
  have "chunks n 8 ?ds = map ?q ?gs" using chunks_concat[of "map ?q ?gs" 8] by simp
  then have "concat (map (\<lambda>q. be_bytes 5 (horner 32 q)) (chunks n 8 ?ds)) = concat (map (\<lambda>g. be_bytes 5 (be_int g)) ?gs)"
    by (simp add: comp_def again cong: map_cong)
  also have "\<dots> = concat ?gs"
    using chunks_same[of bs n 5] assms by (simp add: be_bytes_int mult.commute cong: map_cong)
  also have "\<dots> = bs" using assms by (simp add: concat_chunks mult.commute)
  finally have bytes: "concat (map (\<lambda>q. be_bytes 5 (horner 32 q)) (chunks n 8 ?ds)) = bs" .
  have "those_vals (b32encode bs) = Some ?ds" unfolding enc by (rule those_vals_map[OF small])
  with b32_clean(2)[OF chars] blen len bytes show "b32decode (b32encode bs) = Inr bs"
    by (simp add: b32decode_def keep_whole_def of_quanta_def quantum_bytes_def[abs_def])
qed

text \<open>The secret shown once as base32 is, for the server, exactly the random bytes it was
  made from: an authenticator that decodes it computes the same codes.\<close>

theorem secret_round_trip:
  assumes "length random = 20"
  shows "totp_key (new_secret random) = Inr random \<and> length (new_secret random) = 32"
proof -
  from assms have l: "length random = 5 * 4" by simp
  note rt = b32_round_trip[OF l]
  have "new_secret random = b32encode random" using b32_clean(2)[OF rt(2)] by (simp add: new_secret_def)
  with rt b32_clean(1)[OF rt(2)] show ?thesis by (simp add: totp_key_def b32_pad_def)
qed

theorem secret_round_trip_witness:
  "totp_key (new_secret (map word_of_nat [1..<21])) = Inr (map word_of_nat [1..<21])"
  using secret_round_trip[of "map word_of_nat [1..<21]"] by simp

section \<open>What \<open>verify\<close> accepts\<close>

lemma first_hit_sound:
  "first_hit mac key code ss hit = Inr (Some h) \<Longrightarrow>
     hit = Some h \<or> (h \<in> set ss \<and> hotp mac key h DIGITS = Inr code)"
  by (induction ss arbitrary: hit) (auto simp: sbind_Inr compare_digest_def split: if_splits)

lemma first_hit_total:
  assumes "\<forall>s \<in> set ss. \<exists>c. hotp mac key s DIGITS = Inr c \<and> is_ascii c" and "is_ascii code"
  shows "first_hit mac key code ss hit =
    Inr (case hit of Some h \<Rightarrow> Some h | None \<Rightarrow> find (\<lambda>s. hotp mac key s DIGITS = Inr code) ss)"
  using assms(1)
proof (induction ss arbitrary: hit)
  case (Cons s ss)
  from Cons.prems obtain c where c: "hotp mac key s DIGITS = Inr c" "is_ascii c" by auto
  with Cons assms(2) show ?case by (auto simp: compare_digest_def split: option.splits)
qed (simp split: option.splits)

lemma int_str_ascii: "is_ascii (zfill k (int_str n))"
proof -
  have "is_digit c \<Longrightarrow> (of_char c :: nat) < 128" for c by (simp add: is_digit_def Let_def)
  then show ?thesis using nat_str_digits by (auto simp: is_ascii_def zfill_def list_all_iff int_str_def)
qed

lemma hotp_ascii: "hotp mac key n d = Inr c \<Longrightarrow> is_ascii c"
  by (auto simp: hotp_def code_of_def int_str_ascii split: if_splits)

lemma nibble_small: "unat (x AND 0x0F :: byte) < 16"
proof -
  have "x AND 0x0F \<le> (0x0F :: byte)" by (rule word_and_le1)
  then have "unat (x AND 0x0F) \<le> unat (0x0F :: byte)" by (simp only: word_le_nat_alt)
  then show ?thesis by simp
qed

lemma hotp_total:
  assumes "0 \<le> n" "n < 2 ^ 64" "20 \<le> length (mac key (be_bytes 8 n))"
  shows "\<exists>c. hotp mac key n d = Inr c"
proof -
  let ?m = "mac key (be_bytes 8 n)"
  from nibble_small[of "last ?m"] assms(3)
  have "4 \<le> length (drop (unat (last ?m AND 0x0F)) ?m)" by simp
  then have "\<not> length (take 4 (drop (unat (last ?m AND 0x0F)) ?m)) < 4" by simp
  with assms(1,2) show ?thesis by (auto simp: hotp_def code_of_def truncate4_def)
qed

lemma newer_than_Some:
  "newer_than prev hit = Some h \<longleftrightarrow> hit = Some h \<and> (\<forall>l. prev = Some l \<longrightarrow> l < h)"
  by (cases hit; cases prev) (auto simp: newer_than_def)

lemma verify_sound:
  assumes "verify mac secret code prev now = Inr (Some h)"
  shows "step_at now - WINDOW \<le> h \<and> h \<le> step_at now + WINDOW
    \<and> (\<exists>key. totp_key secret = Inr key \<and> hotp mac key h DIGITS = Inr (clean_code code))
    \<and> (\<forall>l. prev = Some l \<longrightarrow> l < h)"
  using assms
  by (auto simp: verify_def match_code_def sbind_Inr newer_than_Some split: if_splits dest!: first_hit_sound)

lemma nat_str_length_le: "n < 10 ^ k \<Longrightarrow> 0 < k \<Longrightarrow> length (nat_str n) \<le> k"
proof (induction k arbitrary: n)
  case (Suc k)
  show ?case
  proof (cases "n < 10")
    case True
    then show ?thesis by (simp add: nat_str.simps[of n])
  next
    case False
    with Suc.prems have "n div 10 < 10 ^ k" "0 < k" by (auto simp: less_mult_imp_div_less mult.commute) (cases k; simp)
    from Suc.IH[OF this] False show ?thesis by (simp add: nat_str.simps[of n])
  qed
qed simp

lemma hotp_shape: "hotp mac key n DIGITS = Inr c \<Longrightarrow> length c = DIGITS \<and> py_isdigit c"
proof -
  assume "hotp mac key n DIGITS = Inr c"
  then obtain v :: int where v: "c = zfill 6 (int_str (v mod 10 ^ 6))"
    by (auto simp: hotp_def code_of_def DIGITS_def split: if_splits)
  define w where "w = nat (v mod 10 ^ 6)"
  have "int_str (v mod 10 ^ 6) = nat_str w"
    unfolding int_str_def w_def by (rule if_not_P) (simp add: not_less)
  then have c: "c = zfill 6 (nat_str w)" and w: "w < 10 ^ 6" by (simp_all only: v, simp add: w_def)
  have "length (nat_str w) \<le> 6" by (rule nat_str_length_le[OF w]) simp
  then have "length c = 6" by (simp add: c zfill_def)
  moreover have "list_all is_digit c"
    using nat_str_digits[of _ w] by (auto simp: c zfill_def list_all_iff is_digit_def)
  ultimately show ?thesis by (auto simp: py_isdigit_def list_all_iff DIGITS_def)
qed

end
