(* ===== verification/Accounts.thy ===== *)
theory Accounts
  imports Schema Totp
begin

text \<open>
  \<open>services/accounts.py\<close> with the settings it reads (\<open>config.py\<close>): passwords, lockout, tokens,
  the second factor, backup codes, one-time setup links and the sign-in audit. bcrypt, SHA-256,
  the keyed digest, Fernet and the JWT library are the parameter \<open>crypto\<close>; random bytes are
  arguments. The clock is read once per operation.
\<close>

section \<open>Settings and cryptography\<close>

record settings =
  cfg_public_base_url :: string
  cfg_jwt_expire_minutes :: int
  cfg_setup_link_minutes :: int
  cfg_invite_link_hours :: int
  cfg_mfa_token_minutes :: int
  cfg_lockout_threshold :: int
  cfg_lockout_minutes :: int
  cfg_decoy_account_emails :: string
  cfg_decoy_api_keys :: string
  cfg_webhook_max_body_bytes :: int

definition default_settings :: settings where
  "default_settings = \<lparr>cfg_public_base_url = ''http://localhost:5173'', cfg_jwt_expire_minutes = 480,
     cfg_setup_link_minutes = 30, cfg_invite_link_hours = 24, cfg_mfa_token_minutes = 5,
     cfg_lockout_threshold = 5, cfg_lockout_minutes = 15, cfg_decoy_account_emails = [],
     cfg_decoy_api_keys = [], cfg_webhook_max_body_bytes = 65536\<rparr>"

type_synonym claims = "(string \<times> json) list"

text \<open>A token is opaque to the program. \<open>cr_decode now token\<close> is \<open>jwt.decode\<close>: the claims of a token whose signature and expiry
  hold at that time.\<close>

record 't crypto =
  cr_hash :: "string \<Rightarrow> nat \<Rightarrow> string"
  cr_verify :: "string \<Rightarrow> string \<Rightarrow> bool"
  cr_sha256 :: "string \<Rightarrow> string"
  cr_mac :: mac
  cr_encrypt :: "string \<Rightarrow> nat \<Rightarrow> string"
  cr_decrypt :: "string \<Rightarrow> string option"
  cr_encode :: "claims \<Rightarrow> 't"
  cr_decode :: "dtime \<Rightarrow> 't \<Rightarrow> claims option"

text \<open>How a request fails: an HTTP error, or an exception nobody catches (a 500).\<close>

datatype http_error = Http int string | Crash

definition PASSWORD_MIN :: nat where "PASSWORD_MIN = 12"
definition PASSWORD_MAX_BYTES :: nat where "PASSWORD_MAX_BYTES = 72"
definition BACKUP_CODE_COUNT :: nat where "BACKUP_CODE_COUNT = 10"
definition SCOPE_FULL :: string where "SCOPE_FULL = ''full''"
definition SCOPE_MFA :: string where "SCOPE_MFA = ''mfa''"

definition ROLES :: "string list" where "ROLES = [''admin'', ''marina_manager'']"

section \<open>Rows\<close>

definition user_of :: "db \<Rightarrow> nat \<Rightarrow> user option" where
  "user_of d i = find (\<lambda>u. u_id u = i) (db_users d)"

definition set_user :: "user \<Rightarrow> db \<Rightarrow> db" where
  "set_user u d = d\<lparr>db_users := update_where (\<lambda>x. u_id x = u_id u) (\<lambda>_. u) (db_users d)\<rparr>"

definition audit ::
  "string \<Rightarrow> user option \<Rightarrow> string option \<Rightarrow> string option \<Rightarrow> user option \<Rightarrow> string option \<Rightarrow> dtime \<Rightarrow> db \<Rightarrow> db" where
  "audit event u email detail actor ip now d = d\<lparr>db_auth_audit := db_auth_audit d @
     [\<lparr>aa_id = next_id aa_id (db_auth_audit d), aa_user_id = map_option u_id u,
       aa_email_tried = (if email \<noteq> None then email else map_option u_email u), aa_event = event,
       aa_detail = detail, aa_actor_id = map_option u_id actor, aa_source_ip = ip, aa_created_at = now\<rparr>]\<rparr>"

section \<open>Passwords and lockout\<close>

definition password_problem :: "string \<Rightarrow> string option" where
  "password_problem p =
     (if char_count p < PASSWORD_MIN then Some ''Password must be at least 12 characters''
      else if PASSWORD_MAX_BYTES < length p then Some ''Password must be at most 72 bytes''
      else None)"

definition check_password :: "'t crypto \<Rightarrow> user option \<Rightarrow> string \<Rightarrow> bool" where
  "check_password cr u p =
     (case u of None \<Rightarrow> False
      | Some u \<Rightarrow> (case u_password_hash u of None \<Rightarrow> False | Some h \<Rightarrow> cr_verify cr p h))"

definition is_locked :: "user \<Rightarrow> dtime \<Rightarrow> bool" where
  "is_locked u now \<longleftrightarrow> (case u_locked_until u of None \<Rightarrow> False | Some t \<Rightarrow> now < t)"

definition count_failure :: "settings \<Rightarrow> dtime \<Rightarrow> user \<Rightarrow> user" where
  "count_failure cfg now u =
     (if cfg_lockout_threshold cfg \<le> u_failed_count u + 1
      then u\<lparr>u_failed_count := 0, u_locked_until := Some (now + minutes (cfg_lockout_minutes cfg))\<rparr>
      else u\<lparr>u_failed_count := u_failed_count u + 1\<rparr>)"

definition register_failure :: "settings \<Rightarrow> user \<Rightarrow> string option \<Rightarrow> dtime \<Rightarrow> db \<Rightarrow> db" where
  "register_failure cfg u ip now d =
     (let d1 = set_user (count_failure cfg now u) d
      in if cfg_lockout_threshold cfg \<le> u_failed_count u + 1
         then audit ''locked'' (Some u) None
                (Some (int_str (cfg_lockout_threshold cfg) @ '' failures, '' @ int_str (cfg_lockout_minutes cfg) @ '' min''))
                None ip now d1
         else d1)"

definition register_success :: "dtime \<Rightarrow> user \<Rightarrow> user" where
  "register_success now u = u\<lparr>u_failed_count := 0, u_locked_until := None, u_last_login := Some now\<rparr>"

section \<open>Tokens\<close>

definition mfa_stamp :: "user \<Rightarrow> json" where
  "mfa_stamp u = (case u_totp_confirmed_at u of None \<Rightarrow> JNull | Some t \<Rightarrow> JStr (iso_str t))"

definition marina_ids :: "db \<Rightarrow> user \<Rightarrow> nat list" where
  "marina_ids d u =
     (if u_role u = ''admin'' then []
      else map uma_marina_id (filter (\<lambda>a. uma_user_id a = u_id u) (db_access d)))"

definition expires :: "dtime \<Rightarrow> int \<Rightarrow> json" where
  "expires now mins = JInt ((now + minutes mins) div usec)"

definition full_claims :: "settings \<Rightarrow> db \<Rightarrow> user \<Rightarrow> dtime \<Rightarrow> claims" where
  "full_claims cfg d u now =
     [(''sub'', JStr (nat_str (u_id u))), (''email'', JStr (u_email u)), (''role'', JStr (u_role u)),
      (''marina_ids'', JList (map (\<lambda>i. JInt (int i)) (marina_ids d u))), (''scope'', JStr SCOPE_FULL),
      (''mfa_at'', mfa_stamp u), (''exp'', expires now (cfg_jwt_expire_minutes cfg))]"

definition mfa_claims :: "settings \<Rightarrow> user \<Rightarrow> dtime \<Rightarrow> claims" where
  "mfa_claims cfg u now =
     [(''sub'', JStr (nat_str (u_id u))), (''scope'', JStr SCOPE_MFA),
      (''exp'', expires now (cfg_mfa_token_minutes cfg))]"

definition access_token :: "settings \<Rightarrow> 't crypto \<Rightarrow> db \<Rightarrow> user \<Rightarrow> dtime \<Rightarrow> 't" where
  "access_token cfg cr d u now = cr_encode cr (full_claims cfg d u now)"

definition mfa_token :: "settings \<Rightarrow> 't crypto \<Rightarrow> user \<Rightarrow> dtime \<Rightarrow> 't" where
  "mfa_token cfg cr u now = cr_encode cr (mfa_claims cfg u now)"

definition full_token_matches :: "user \<Rightarrow> claims \<Rightarrow> bool" where
  "full_token_matches u p \<longleftrightarrow> jget p ''scope'' = JStr SCOPE_FULL \<and> u_totp_confirmed_at u \<noteq> None
     \<and> jget p ''mfa_at'' = mfa_stamp u"

section \<open>The second factor\<close>

definition start_enrolment :: "'t crypto \<Rightarrow> byte list \<Rightarrow> nat \<Rightarrow> user \<Rightarrow> string \<times> user" where
  "start_enrolment cr random20 nonce u =
     (let secret = new_secret random20
      in (secret, u\<lparr>u_totp_secret_enc := Some (cr_encrypt cr secret nonce), u_totp_confirmed_at := None,
                    u_totp_last_step := None\<rparr>))"

text \<open>\<open>verify_totp\<close>: an unreadable stored secret raises, as do the errors of \<open>verify\<close>.\<close>

definition verify_totp :: "'t crypto \<Rightarrow> user \<Rightarrow> string \<Rightarrow> dtime \<Rightarrow> http_error + bool \<times> user" where
  "verify_totp cr u code now =
     (if \<not> truthy (u_totp_secret_enc u) then Inr (False, u)
      else (case cr_decrypt cr (the (u_totp_secret_enc u)) of
          None \<Rightarrow> Inl Crash
        | Some secret \<Rightarrow>
            (case verify (cr_mac cr) secret code (u_totp_last_step u) now of
               Inl _ \<Rightarrow> Inl Crash
             | Inr None \<Rightarrow> Inr (False, u)
             | Inr (Some step) \<Rightarrow> Inr (True, u\<lparr>u_totp_last_step := Some step\<rparr>))))"

definition normalise_backup :: "string \<Rightarrow> string" where
  "normalise_backup code = lower_str (filter (\<lambda>c. c \<noteq> CHR '' '') (filter (\<lambda>c. c \<noteq> CHR ''-'') (strip code)))"

definition drop_backup_codes :: "nat \<Rightarrow> db \<Rightarrow> db" where
  "drop_backup_codes i d = d\<lparr>db_backup_codes := filter (\<lambda>b. bc_user_id b \<noteq> i) (db_backup_codes d)\<rparr>"

fun add_backup_codes :: "'t crypto \<Rightarrow> nat \<Rightarrow> dtime \<Rightarrow> (byte list \<times> nat) list \<Rightarrow> db \<Rightarrow> string list \<times> db" where
  "add_backup_codes cr i now [] d = ([], d)"
| "add_backup_codes cr i now ((random5, salt) # rs) d =
     (let raw = lower_str (b32encode random5);
          row = \<lparr>bc_id = next_id bc_id (db_backup_codes d), bc_user_id = i, bc_code_hash = cr_hash cr raw salt,
                 bc_created_at = now, bc_used_at = None\<rparr>;
          (codes, d') = add_backup_codes cr i now rs (d\<lparr>db_backup_codes := db_backup_codes d @ [row]\<rparr>)
      in ((take 4 raw @ ''-'' @ drop 4 raw) # codes, d'))"

text \<open>The ten pairs are the random bytes of each code and the salt of its hash.\<close>

definition new_backup_codes :: "'t crypto \<Rightarrow> user \<Rightarrow> (byte list \<times> nat) list \<Rightarrow> dtime \<Rightarrow> db \<Rightarrow> string list \<times> db" where
  "new_backup_codes cr u rs now d =
     add_backup_codes cr (u_id u) now (take BACKUP_CODE_COUNT rs) (drop_backup_codes (u_id u) d)"

definition use_backup_code :: "'t crypto \<Rightarrow> user \<Rightarrow> string \<Rightarrow> dtime \<Rightarrow> db \<Rightarrow> bool \<times> db" where
  "use_backup_code cr u code now d =
     (let raw = normalise_backup code
      in if length raw \<noteq> 8 then (False, d)
         else (case find (\<lambda>b. bc_user_id b = u_id u \<and> bc_used_at b = None \<and> cr_verify cr raw (bc_code_hash b))
                      (db_backup_codes d) of
             None \<Rightarrow> (False, d)
           | Some b \<Rightarrow> (True, d\<lparr>db_backup_codes :=
               update_where (\<lambda>x. bc_id x = bc_id b) (\<lambda>x. x\<lparr>bc_used_at := Some now\<rparr>) (db_backup_codes d)\<rparr>)))"

definition clear_mfa :: "user \<Rightarrow> user" where
  "clear_mfa u = u\<lparr>u_totp_secret_enc := None, u_totp_confirmed_at := None, u_totp_last_step := None\<rparr>"

definition reset_mfa :: "user \<Rightarrow> db \<Rightarrow> db" where
  "reset_mfa u d = drop_backup_codes (u_id u) (set_user (clear_mfa u) d)"

section \<open>One-time setup links\<close>

definition issue_setup_link ::
  "settings \<Rightarrow> 't crypto \<Rightarrow> user \<Rightarrow> int \<Rightarrow> user option \<Rightarrow> string \<Rightarrow> dtime \<Rightarrow> db \<Rightarrow> (string \<times> dtime) \<times> db" where
  "issue_setup_link cfg cr u mins created_by raw now d =
     (let used = update_where (\<lambda>t. stk_user_id t = u_id u \<and> stk_used_at t = None) (\<lambda>t. t\<lparr>stk_used_at := Some now\<rparr>)
                   (db_setup_tokens d);
          row = \<lparr>stk_id = next_id stk_id used, stk_token_hash = cr_sha256 cr raw, stk_user_id = u_id u,
                 stk_created_at = now, stk_expires_at = now + minutes mins, stk_used_at = None,
                 stk_created_by = map_option u_id created_by\<rparr>
      in ((rev (dropWhile (\<lambda>c. c = CHR ''/'') (rev (cfg_public_base_url cfg))) @ ''/setup#token='' @ raw,
           now + minutes mins),
          d\<lparr>db_setup_tokens := used @ [row]\<rparr>))"

definition find_setup_token :: "'t crypto \<Rightarrow> db \<Rightarrow> string \<Rightarrow> dtime \<Rightarrow> setup_token option" where
  "find_setup_token cr d raw now =
     (case find (\<lambda>t. stk_token_hash t = cr_sha256 cr raw) (db_setup_tokens d) of
        None \<Rightarrow> None
      | Some t \<Rightarrow> if stk_used_at t \<noteq> None \<or> stk_expires_at t \<le> now then None else Some t)"

section \<open>Users and rows after an operation\<close>

lemma user_of_set_user:
  "user_of (set_user v d) i = (if u_id v = i then map_option (\<lambda>_. v) (user_of d i) else user_of d i)"
proof -
  let ?f = "\<lambda>x. if u_id x = u_id v then v else x"
  have "user_of (set_user v d) i = map_option ?f (user_of d i)"
    by (simp add: user_of_def set_user_def update_where_def find_map_update)
  then show ?thesis by (cases "user_of d i") (auto simp: user_of_def dest: find_Some_D)
qed

lemma user_of_id: "user_of d i = Some u \<Longrightarrow> u_id u = i \<and> u \<in> set (db_users d)"
  by (auto simp: user_of_def dest: find_Some_D)

lemma user_of_audit [simp]: "user_of (audit ev u em det act ip now d) i = user_of d i"
  by (simp add: user_of_def audit_def)

lemma ids_set_user [simp]: "map u_id (db_users (set_user u d)) = map u_id (db_users d)"
  by (auto simp: set_user_def intro: map_update_where_same)

lemma ids_audit [simp]: "db_users (audit ev u em det act ip now d) = db_users d"
  by (simp add: audit_def)

lemma user_of_member:
  "distinct (map u_id (db_users d)) \<Longrightarrow> u \<in> set (db_users d) \<Longrightarrow> user_of d (u_id u) = Some u"
proof -
  assume dis: "distinct (map u_id (db_users d))" and mem: "u \<in> set (db_users d)"
  have "user_of d (u_id u) \<noteq> None" using mem by (auto simp: user_of_def find_None_iff)
  then obtain v where v: "user_of d (u_id u) = Some v" by auto
  with user_of_id[OF v] dis mem show ?thesis by (auto simp: distinct_map dest: inj_onD)
qed

lemma ids_register_failure [simp]:
  "map u_id (db_users (register_failure cfg u ip now d)) = map u_id (db_users d)"
  by (simp add: register_failure_def Let_def)

lemma u_id_ops [simp]:
  "u_id (count_failure cfg now u) = u_id u" "u_id (register_success now u) = u_id u" "u_id (clear_mfa u) = u_id u"
  by (simp_all add: count_failure_def register_success_def clear_mfa_def)

lemma user_of_register_failure:
  "user_of (register_failure cfg u ip now d) i =
     (if u_id u = i then map_option (\<lambda>_. count_failure cfg now u) (user_of d i) else user_of d i)"
  by (simp add: register_failure_def Let_def user_of_set_user)

lemma add_backup_codes_frame:
  "add_backup_codes cr j now rs d = (codes, d') \<Longrightarrow>
     db_auth_audit d' = db_auth_audit d \<and> db_users d' = db_users d"
  by (induction rs arbitrary: d d' codes) (force simp: Let_def split: prod.splits)+

lemma new_backup_codes_frame:
  "new_backup_codes cr u rs now d = (codes, d') \<Longrightarrow>
     db_auth_audit d' = db_auth_audit d \<and> db_users d' = db_users d"
  unfolding new_backup_codes_def by (drule add_backup_codes_frame) (simp add: drop_backup_codes_def)

lemma use_backup_code_frame:
  "use_backup_code cr u code now d = (b, d') \<Longrightarrow> db_auth_audit d' = db_auth_audit d \<and> db_users d' = db_users d"
  by (auto simp: use_backup_code_def Let_def split: if_splits option.splits)

lemma verify_totp_id: "verify_totp cr u code now = Inr (b, u') \<Longrightarrow> u_id u' = u_id u"
  by (auto simp: verify_totp_def split: if_splits option.splits sum.splits)

lemma verify_totp_refused: "verify_totp cr u code now = Inr (False, u') \<Longrightarrow> u' = u"
  by (auto simp: verify_totp_def split: if_splits option.splits sum.splits)

section \<open>A concrete account\<close>

text \<open>Transparent cryptography for concrete runs: hashes and ciphertexts are the text itself, the
  digest starts with the low bytes of the counter (so the code of step \<open>n\<close> is \<open>n\<close> in six digits),
  and a token is its claims, valid until they expire.\<close>

definition sample_user :: user where
  "sample_user = \<lparr>u_id = 1, u_email = ''a@b.hr'', u_password_hash = Some ''correct horse'', u_full_name = None,
     u_role = ''admin'', u_is_active = True, u_created_at = 0, u_last_login = None,
     u_totp_secret_enc = Some ''GEZDGNBVGY3TQOJQ'', u_totp_confirmed_at = Some 0, u_totp_last_step = None,
     u_failed_count = 0, u_locked_until = None\<rparr>"

definition sample_crypto :: "claims crypto" where
  "sample_crypto = \<lparr>cr_hash = (\<lambda>p _. p), cr_verify = (\<lambda>p h. p = h), cr_sha256 = (\<lambda>s. s),
     cr_mac = (\<lambda>_ m. drop 4 m @ replicate 16 0), cr_encrypt = (\<lambda>s _. s), cr_decrypt = Some,
     cr_encode = (\<lambda>p. p),
     cr_decode = (\<lambda>now p. case jget p ''exp'' of JInt e \<Rightarrow> if now div usec \<le> e then Some p else None | _ \<Rightarrow> None)\<rparr>"

definition sample_mfa :: claims where
  "sample_mfa = [(''sub'', JStr ''1''), (''scope'', JStr SCOPE_MFA), (''exp'', JInt 28800)]"

definition sample_full :: claims where
  "sample_full = [(''sub'', JStr ''1''), (''role'', JStr ''admin''), (''scope'', JStr SCOPE_FULL),
     (''mfa_at'', JStr (iso_str 0)), (''exp'', JInt 28800)]"

definition account_db :: db where
  "account_db = empty_db\<lparr>db_users := [sample_user]\<rparr>"

end
