(* ===== verification/Auth.thy ===== *)
theory Auth
  imports Accounts
begin

text \<open>
  \<open>routers/auth.py\<close>: the sign-in in two steps, its refusals, the setup link, and the
  dependencies every other router stands behind; \<open>services/decoys.py\<close>, which the refused login
  and the webhook call. A handler maps the database before the request to the answer and the
  database after its commits; an exception nobody catches leaves the database as it was.
\<close>

section \<open>The request\<close>

record request =
  rq_ip :: "string option"
  rq_method :: string
  rq_path :: string
  rq_user_agent :: string

definition BAD_LOGIN :: string where "BAD_LOGIN = ''Invalid email or password''"
definition BAD_CODE :: string where "BAD_CODE = ''Invalid code''"
definition BAD_LINK :: string where "BAD_LINK = ''This link is invalid or has expired''"

definition unauthorized :: http_error where "unauthorized = Http 401 ''Invalid or expired token''"

section \<open>Decoys\<close>

definition decoy_list :: "string \<Rightarrow> string list" where
  "decoy_list raw = filter (\<lambda>x. x \<noteq> []) (map strip (split_on (CHR '','') raw))"

definition is_decoy_account :: "settings \<Rightarrow> string \<Rightarrow> bool" where
  "is_decoy_account cfg email =
     (let e = lower_str (strip email)
      in e \<noteq> [] \<and> e \<in> set (map lower_str (decoy_list (cfg_decoy_account_emails cfg))))"

definition decoy_key_name :: "settings \<Rightarrow> string \<Rightarrow> string option" where
  "decoy_key_name cfg key =
     (case filter (\<lambda>(i, k). k = key) (enumerate 1 (decoy_list (cfg_decoy_api_keys cfg))) of
        [] \<Rightarrow> None | hits \<Rightarrow> Some (''api_key#'' @ nat_str (fst (last hits))))"

definition decoy_record :: "string \<Rightarrow> string \<Rightarrow> request \<Rightarrow> dtime \<Rightarrow> db \<Rightarrow> db" where
  "decoy_record kind decoy rq now d = d\<lparr>db_decoy_hits := db_decoy_hits d @
     [\<lparr>dh_id = next_id dh_id (db_decoy_hits d), dh_kind = kind, dh_decoy = cut 200 decoy,
       dh_method = Some (rq_method rq), dh_path = Some (cut 2000 (rq_path rq)), dh_source_ip = rq_ip rq,
       dh_user_agent = Some (cut 500 (rq_user_agent rq)), dh_observed_at = now\<rparr>]\<rparr>"

section \<open>Dependencies\<close>

text \<open>\<open>int(payload["sub"])\<close>: a missing or unreadable subject raises.\<close>

definition subject :: "claims \<Rightarrow> nat option" where
  "subject p = (case jget p ''sub'' of
     JStr s \<Rightarrow> if all_digits s then Some (read_nat s) else None
   | JInt i \<Rightarrow> if 0 \<le> i then Some (nat i) else None
   | _ \<Rightarrow> None)"

definition decode_ws_token :: "'t crypto \<Rightarrow> 't \<Rightarrow> dtime \<Rightarrow> claims option" where
  "decode_ws_token cr tok now = (case cr_decode cr now tok of
     None \<Rightarrow> None
   | Some p \<Rightarrow> if jget p ''scope'' = JStr SCOPE_FULL then Some p else None)"

definition get_current_user :: "'t crypto \<Rightarrow> db \<Rightarrow> 't \<Rightarrow> dtime \<Rightarrow> http_error + user" where
  "get_current_user cr d tok now =
     (case cr_decode cr now tok of
        None \<Rightarrow> Inl unauthorized
      | Some p \<Rightarrow>
          if jget p ''scope'' \<noteq> JStr SCOPE_FULL then Inl unauthorized
          else if jget p ''role'' \<notin> JStr ` set ROLES then Inl (Http 403 ''Operator access required'')
          else (case subject p of
              None \<Rightarrow> Inl Crash
            | Some i \<Rightarrow> (case user_of d i of
                None \<Rightarrow> Inl (Http 401 ''User not found or inactive'')
              | Some u \<Rightarrow> if u_is_active u \<and> full_token_matches u p then Inr u
                         else Inl (Http 401 ''User not found or inactive''))))"

definition get_mfa_user :: "'t crypto \<Rightarrow> db \<Rightarrow> 't \<Rightarrow> dtime \<Rightarrow> http_error + user" where
  "get_mfa_user cr d tok now =
     (case cr_decode cr now tok of
        None \<Rightarrow> Inl unauthorized
      | Some p \<Rightarrow>
          if jget p ''scope'' \<noteq> JStr SCOPE_MFA then Inl unauthorized
          else (case subject p of
              None \<Rightarrow> Inl Crash
            | Some i \<Rightarrow> (case user_of d i of
                None \<Rightarrow> Inl unauthorized
              | Some u \<Rightarrow> if u_is_active u \<and> u_password_hash u \<noteq> None then Inr u else Inl unauthorized)))"

definition require_admin :: "'t crypto \<Rightarrow> db \<Rightarrow> 't \<Rightarrow> dtime \<Rightarrow> http_error + user" where
  "require_admin cr d tok now =
     sbind (get_current_user cr d tok now) (\<lambda>u.
       if u_role u \<noteq> ''admin'' then Inl (Http 403 ''Admin access required'') else Inr u)"

definition has_marina_access :: "db \<Rightarrow> nat \<Rightarrow> user \<Rightarrow> bool" where
  "has_marina_access d mid u \<longleftrightarrow> u_role u = ''admin''
     \<or> list_ex (\<lambda>a. uma_user_id a = u_id u \<and> uma_marina_id a = mid) (db_access d)"

definition require_marina_access :: "db \<Rightarrow> nat \<Rightarrow> user \<Rightarrow> http_error + unit" where
  "require_marina_access d mid u =
     (if has_marina_access d mid u then Inr ()
      else Inl (Http 403 ''Access to this marina is not authorized''))"

text \<open>A handler behind a dependency: a refusal there ends the request.\<close>

definition guarded :: "http_error + 'u \<Rightarrow> db \<Rightarrow> ('u \<Rightarrow> (http_error + 'a) \<times> db) \<Rightarrow> (http_error + 'a) \<times> db" where
  "guarded g d h = (case g of Inl e \<Rightarrow> (Inl e, d) | Inr u \<Rightarrow> h u)"

section \<open>The password step\<close>

record 't challenge =
  ch_mfa_token :: 't
  ch_mfa_enrolled :: bool

definition login_reason :: "'t crypto \<Rightarrow> user option \<Rightarrow> string \<Rightarrow> dtime \<Rightarrow> string option" where
  "login_reason cr user pw now =
     (case user of
        None \<Rightarrow> Some ''unknown email''
      | Some u \<Rightarrow>
          if u_password_hash u = None then Some ''no password set''
          else if is_locked u now then Some ''locked''
          else if \<not> check_password cr user pw then Some ''wrong password''
          else if \<not> u_is_active u then Some ''account disabled''
          else None)"

definition login ::
  "settings \<Rightarrow> 't crypto \<Rightarrow> string \<Rightarrow> string \<Rightarrow> request \<Rightarrow> dtime \<Rightarrow> db \<Rightarrow> (http_error + 't challenge) \<times> db" where
  "login cfg cr email pw rq now d =
     (let user = find (\<lambda>u. u_email u = email) (db_users d)
      in case login_reason cr user pw now of
           Some reason \<Rightarrow>
             (let d1 = (case user of
                  Some u \<Rightarrow> if reason = ''wrong password'' then register_failure cfg u (rq_ip rq) now d else d
                | None \<Rightarrow> d);
                  d2 = audit ''login_failed'' user (Some email) (Some reason) None (rq_ip rq) now d1
              in (Inl (Http 401 BAD_LOGIN),
                  if user = None \<and> is_decoy_account cfg email
                  then decoy_record ''account'' (lower_str (strip email)) rq now d2 else d2))
         | None \<Rightarrow>
             (case user of
                None \<Rightarrow> (Inl Crash, d)
              | Some u \<Rightarrow>
                  (Inr \<lparr>ch_mfa_token = mfa_token cfg cr u now, ch_mfa_enrolled = (u_totp_confirmed_at u \<noteq> None)\<rparr>,
                   audit ''password_ok'' user None None None (rq_ip rq) now d)))"

section \<open>The second factor\<close>

definition refuse_code :: "settings \<Rightarrow> user \<Rightarrow> string option \<Rightarrow> string \<Rightarrow> dtime \<Rightarrow> db \<Rightarrow> (http_error + 'a) \<times> db" where
  "refuse_code cfg u ip detail now d =
     (Inl (Http 401 BAD_CODE),
      audit ''mfa_failed'' (Some u) None (Some detail) None ip now (register_failure cfg u ip now d))"

definition sign_in ::
  "settings \<Rightarrow> 't crypto \<Rightarrow> user \<Rightarrow> string \<Rightarrow> string option \<Rightarrow> dtime \<Rightarrow> db \<Rightarrow> (http_error + 't) \<times> db" where
  "sign_in cfg cr u how ip now d =
     (let u' = register_success now u;
          d' = audit ''login_ok'' (Some u') None (Some how) None ip now (set_user u' d)
      in (Inr (access_token cfg cr d' u' now), d'))"

definition verify_body ::
  "settings \<Rightarrow> 't crypto \<Rightarrow> string \<Rightarrow> request \<Rightarrow> dtime \<Rightarrow> db \<Rightarrow> user \<Rightarrow> (http_error + 't) \<times> db" where
  "verify_body cfg cr code rq now d u =
    (if u_totp_confirmed_at u = None
     then (Inl (Http 409 ''Two-factor authentication is not linked yet''), d)
     else if is_locked u now
     then (Inl (Http 401 BAD_CODE), audit ''mfa_failed'' (Some u) None (Some ''locked'') None (rq_ip rq) now d)
     else (case verify_totp cr u code now of
         Inl e \<Rightarrow> (Inl e, d)
       | Inr (True, u') \<Rightarrow> sign_in cfg cr u' ''totp'' (rq_ip rq) now d
       | Inr (False, _) \<Rightarrow>
           (case use_backup_code cr u code now d of
              (True, d') \<Rightarrow> sign_in cfg cr u ''backup_code'' (rq_ip rq) now d'
            | (False, _) \<Rightarrow> refuse_code cfg u (rq_ip rq) ''wrong, expired or reused code'' now d)))"

definition mfa_verify ::
  "settings \<Rightarrow> 't crypto \<Rightarrow> 't \<Rightarrow> string \<Rightarrow> request \<Rightarrow> dtime \<Rightarrow> db \<Rightarrow> (http_error + 't) \<times> db" where
  "mfa_verify cfg cr tok code rq now d = guarded (get_mfa_user cr d tok now) d (verify_body cfg cr code rq now d)"

text \<open>The QR drawing of the URI is the segno library's and is left out.\<close>

record enrol_start =
  es_secret :: string
  es_otpauth_uri :: string

definition enroll_start_body ::
  "'t crypto \<Rightarrow> byte list \<Rightarrow> nat \<Rightarrow> request \<Rightarrow> dtime \<Rightarrow> db \<Rightarrow> user \<Rightarrow> (http_error + enrol_start) \<times> db" where
  "enroll_start_body cr random20 nonce rq now d u =
    (if u_totp_confirmed_at u \<noteq> None
     then (Inl (Http 409 ''Two-factor authentication is already linked''), d)
     else if is_locked u now then (Inl (Http 401 BAD_CODE), d)
     else (case start_enrolment cr random20 nonce u of
         (secret, u') \<Rightarrow>
           (Inr \<lparr>es_secret = secret, es_otpauth_uri = provisioning_uri secret (u_email u)\<rparr>,
            audit ''mfa_enroll_started'' (Some u') None None None (rq_ip rq) now (set_user u' d))))"

definition mfa_enroll_start ::
  "'t crypto \<Rightarrow> 't \<Rightarrow> byte list \<Rightarrow> nat \<Rightarrow> request \<Rightarrow> dtime \<Rightarrow> db \<Rightarrow> (http_error + enrol_start) \<times> db" where
  "mfa_enroll_start cr tok random20 nonce rq now d =
     guarded (get_mfa_user cr d tok now) d (enroll_start_body cr random20 nonce rq now d)"

definition enroll_confirm_body ::
  "settings \<Rightarrow> 't crypto \<Rightarrow> string \<Rightarrow> (byte list \<times> nat) list \<Rightarrow> request \<Rightarrow> dtime \<Rightarrow> db \<Rightarrow> user \<Rightarrow>
     (http_error + 't \<times> string list) \<times> db" where
  "enroll_confirm_body cfg cr code rs rq now d u =
    (if u_totp_confirmed_at u \<noteq> None
     then (Inl (Http 409 ''Two-factor authentication is already linked''), d)
     else if is_locked u now \<or> \<not> truthy (u_totp_secret_enc u)
     then (Inl (Http 401 BAD_CODE),
           audit ''mfa_failed'' (Some u) None (Some ''enrol: locked or not started'') None (rq_ip rq) now d)
     else (case verify_totp cr u code now of
         Inl e \<Rightarrow> (Inl e, d)
       | Inr (False, _) \<Rightarrow> refuse_code cfg u (rq_ip rq) ''enrol: wrong code'' now d
       | Inr (True, u') \<Rightarrow>
           (let u2 = register_success now (u'\<lparr>u_totp_confirmed_at := Some now\<rparr>);
                (codes, d1) = new_backup_codes cr u2 rs now (set_user u2 d);
                d2 = audit ''login_ok'' (Some u2) None (Some ''enrolment'') None (rq_ip rq) now
                       (audit ''mfa_enrolled'' (Some u2) None None None (rq_ip rq) now d1)
            in (Inr (access_token cfg cr d2 u2 now, codes), d2))))"

definition mfa_enroll_confirm ::
  "settings \<Rightarrow> 't crypto \<Rightarrow> 't \<Rightarrow> string \<Rightarrow> (byte list \<times> nat) list \<Rightarrow> request \<Rightarrow> dtime \<Rightarrow> db \<Rightarrow>
     (http_error + 't \<times> string list) \<times> db" where
  "mfa_enroll_confirm cfg cr tok code rs rq now d =
     guarded (get_mfa_user cr d tok now) d (enroll_confirm_body cfg cr code rs rq now d)"

definition regenerate_body ::
  "settings \<Rightarrow> 't crypto \<Rightarrow> string \<Rightarrow> (byte list \<times> nat) list \<Rightarrow> request \<Rightarrow> dtime \<Rightarrow> db \<Rightarrow> user \<Rightarrow>
     (http_error + string list) \<times> db" where
  "regenerate_body cfg cr code rs rq now d u =
     (case verify_totp cr u code now of
        Inl e \<Rightarrow> (Inl e, d)
      | Inr (False, _) \<Rightarrow> refuse_code cfg u (rq_ip rq) ''backup codes: wrong code'' now d
      | Inr (True, u') \<Rightarrow>
          (case new_backup_codes cr u' rs now (set_user u' d) of
             (codes, d1) \<Rightarrow>
               (Inr codes, audit ''backup_codes_regenerated'' (Some u') None None None (rq_ip rq) now d1)))"

definition regenerate_backup_codes ::
  "settings \<Rightarrow> 't crypto \<Rightarrow> 't \<Rightarrow> string \<Rightarrow> (byte list \<times> nat) list \<Rightarrow> request \<Rightarrow> dtime \<Rightarrow> db \<Rightarrow>
     (http_error + string list) \<times> db" where
  "regenerate_backup_codes cfg cr tok code rs rq now d =
     guarded (get_current_user cr d tok now) d (regenerate_body cfg cr code rs rq now d)"

section \<open>The setup link\<close>

definition setup_check :: "'t crypto \<Rightarrow> string \<Rightarrow> dtime \<Rightarrow> db \<Rightarrow> http_error + string" where
  "setup_check cr raw now d =
     (case find_setup_token cr d raw now of
        None \<Rightarrow> Inl (Http 410 BAD_LINK)
      | Some t \<Rightarrow> (case user_of d (stk_user_id t) of None \<Rightarrow> Inl Crash | Some u \<Rightarrow> Inr (u_email u)))"

definition use_token :: "nat \<Rightarrow> dtime \<Rightarrow> db \<Rightarrow> db" where
  "use_token i now d = d\<lparr>db_setup_tokens :=
     update_where (\<lambda>t. stk_id t = i) (\<lambda>t. t\<lparr>stk_used_at := Some now\<rparr>) (db_setup_tokens d)\<rparr>"

definition setup_account ::
  "settings \<Rightarrow> 't crypto \<Rightarrow> string \<Rightarrow> string \<Rightarrow> nat \<Rightarrow> request \<Rightarrow> dtime \<Rightarrow> db \<Rightarrow> (http_error + 't challenge) \<times> db" where
  "setup_account cfg cr raw pw salt rq now d =
     (case find_setup_token cr d raw now of
        None \<Rightarrow> (Inl (Http 410 BAD_LINK),
                 audit ''setup_failed'' None None (Some ''invalid, used or expired link'') None (rq_ip rq) now d)
      | Some t \<Rightarrow>
          (case password_problem pw of
             Some problem \<Rightarrow> (Inl (Http 422 problem), d)
           | None \<Rightarrow>
               (case user_of d (stk_user_id t) of
                  None \<Rightarrow> (Inl Crash, d)
                | Some u \<Rightarrow>
                    if \<not> u_is_active u then (Inl (Http 410 BAD_LINK), d)
                    else (let u' = u\<lparr>u_password_hash := Some (cr_hash cr pw salt)\<rparr>;
                              d' = audit ''setup_completed'' (Some u') None None None (rq_ip rq) now
                                     (use_token (stk_id t) now (set_user u' d))
                          in (Inr \<lparr>ch_mfa_token = mfa_token cfg cr u' now,
                                   ch_mfa_enrolled = (u_totp_confirmed_at u' \<noteq> None)\<rparr>, d')))))"

definition refresh :: "settings \<Rightarrow> 't crypto \<Rightarrow> 't \<Rightarrow> dtime \<Rightarrow> db \<Rightarrow> http_error + 't" where
  "refresh cfg cr tok now d =
     sbind (get_current_user cr d tok now) (\<lambda>u. Inr (access_token cfg cr d u now))"

record me_response =
  me_id :: nat
  me_email :: string
  me_full_name :: "string option"
  me_role :: string
  me_marina_ids :: "nat list"
  me_is_active :: bool

definition me :: "'t crypto \<Rightarrow> 't \<Rightarrow> dtime \<Rightarrow> db \<Rightarrow> http_error + me_response" where
  "me cr tok now d = sbind (get_current_user cr d tok now) (\<lambda>u.
     Inr \<lparr>me_id = u_id u, me_email = u_email u, me_full_name = u_full_name u, me_role = u_role u,
          me_marina_ids = marina_ids d u, me_is_active = u_is_active u\<rparr>)"

end
