(* ===== verification/Lockout.thy ===== *)
theory Lockout
  imports Auth
begin

text \<open>
  How many guesses the sign-in lets anyone make. The five endpoints that need no full token are
  the events; the evidence is the audit table, so the bound is about rows anybody can count.
\<close>

section \<open>Events\<close>

datatype 't attempt =
    Password string string
  | Code 't string
  | EnrolStart 't "byte list" nat
  | EnrolConfirm 't string "(byte list \<times> nat) list"
  | SetupLink string string nat

fun attempt_step :: "settings \<Rightarrow> 't crypto \<Rightarrow> dtime \<times> request \<times> 't attempt \<Rightarrow> db \<Rightarrow> db" where
  "attempt_step cfg cr (now, rq, Password email pw) d = snd (login cfg cr email pw rq now d)"
| "attempt_step cfg cr (now, rq, Code tok code) d = snd (mfa_verify cfg cr tok code rq now d)"
| "attempt_step cfg cr (now, rq, EnrolStart tok r n) d = snd (mfa_enroll_start cr tok r n rq now d)"
| "attempt_step cfg cr (now, rq, EnrolConfirm tok code rs) d = snd (mfa_enroll_confirm cfg cr tok code rs rq now d)"
| "attempt_step cfg cr (now, rq, SetupLink raw pw salt) d = snd (setup_account cfg cr raw pw salt rq now d)"

definition attempts_run :: "settings \<Rightarrow> 't crypto \<Rightarrow> (dtime \<times> request \<times> 't attempt) list \<Rightarrow> db \<Rightarrow> db" where
  "attempts_run cfg cr es d = foldl (\<lambda>d e. attempt_step cfg cr e d) d es"

definition WRONG :: "(string \<times> string option) list" where
  "WRONG = [(''login_failed'', Some ''wrong password''),
            (''mfa_failed'', Some ''wrong, expired or reused code''), (''mfa_failed'', Some ''enrol: wrong code'')]"

definition rows_of_kind :: "(auth_audit \<Rightarrow> bool) \<Rightarrow> nat \<Rightarrow> db \<Rightarrow> dtime list" where
  "rows_of_kind k i d = map aa_created_at (filter (\<lambda>r. aa_user_id r = Some i \<and> k r) (db_auth_audit d))"

definition is_wrong :: "auth_audit \<Rightarrow> bool" where
  "is_wrong r \<longleftrightarrow> (aa_event r, aa_detail r) \<in> set WRONG"

text \<open>When an account's secret was checked and found wrong, and when it was signed in.\<close>

definition wrong_times :: "nat \<Rightarrow> db \<Rightarrow> dtime list" where
  "wrong_times = rows_of_kind is_wrong"

definition sign_in_times :: "nat \<Rightarrow> db \<Rightarrow> dtime list" where
  "sign_in_times = rows_of_kind (\<lambda>r. aa_event r = ''login_ok'')"

section \<open>What the parts do to rows and users\<close>

lemmas times_defs = wrong_times_def sign_in_times_def rows_of_kind_def

lemma times_audit:
  "wrong_times i (audit ev u em det act ip now d) =
     wrong_times i d @ (if (ev, det) \<in> set WRONG \<and> map_option u_id u = Some i then [now] else [])"
  "sign_in_times i (audit ev u em det act ip now d) =
     sign_in_times i d @ (if ev = ''login_ok'' \<and> map_option u_id u = Some i then [now] else [])"
  by (auto simp: times_defs audit_def is_wrong_def)

lemma times_others:
  "wrong_times i (set_user u d) = wrong_times i d" "sign_in_times i (set_user u d) = sign_in_times i d"
  "wrong_times i (use_token t now d) = wrong_times i d" "sign_in_times i (use_token t now d) = sign_in_times i d"
  "wrong_times i (drop_backup_codes j d) = wrong_times i d" "sign_in_times i (drop_backup_codes j d) = sign_in_times i d"
  "wrong_times i (decoy_record k y rq now d) = wrong_times i d" "sign_in_times i (decoy_record k y rq now d) = sign_in_times i d"
  by (simp_all add: times_defs set_user_def use_token_def drop_backup_codes_def decoy_record_def)

lemma times_frame:
  "db_auth_audit d' = db_auth_audit d \<Longrightarrow> wrong_times i d' = wrong_times i d \<and> sign_in_times i d' = sign_in_times i d"
  by (simp add: times_defs)

lemma times_register_failure:
  "wrong_times i (register_failure cfg u ip now d) = wrong_times i d"
  "sign_in_times i (register_failure cfg u ip now d) = sign_in_times i d"
  by (simp_all add: register_failure_def Let_def times_audit times_others WRONG_def)

section \<open>One attempt\<close>

definition lock_of :: "user \<Rightarrow> int \<times> dtime option" where
  "lock_of u = (u_failed_count u, u_locked_until u)"

text \<open>What an attempt does to account \<open>i\<close>: nothing that counts, one checked wrong guess, or a sign-in.\<close>

definition untouched :: "nat \<Rightarrow> db \<Rightarrow> db \<Rightarrow> bool" where
  "untouched i d d' \<longleftrightarrow> wrong_times i d' = wrong_times i d \<and> sign_in_times i d' = sign_in_times i d
     \<and> map_option lock_of (user_of d' i) = map_option lock_of (user_of d i)"

definition guessed_wrong :: "settings \<Rightarrow> nat \<Rightarrow> dtime \<Rightarrow> db \<Rightarrow> db \<Rightarrow> bool" where
  "guessed_wrong cfg i now d d' \<longleftrightarrow> (\<exists>u. user_of d i = Some u \<and> \<not> is_locked u now
     \<and> wrong_times i d' = wrong_times i d @ [now] \<and> sign_in_times i d' = sign_in_times i d
     \<and> map_option lock_of (user_of d' i) = Some (lock_of (count_failure cfg now u)))"

definition signed_in :: "nat \<Rightarrow> db \<Rightarrow> db \<Rightarrow> bool" where
  "signed_in i d d' \<longleftrightarrow> length (sign_in_times i d) < length (sign_in_times i d')"

definition effect :: "settings \<Rightarrow> nat \<Rightarrow> dtime \<Rightarrow> db \<Rightarrow> db \<Rightarrow> bool" where
  "effect cfg i now d d' \<longleftrightarrow> map u_id (db_users d') = map u_id (db_users d)
     \<and> (untouched i d d' \<or> guessed_wrong cfg i now d d' \<or> signed_in i d d')"

lemma effect_same: "effect cfg i now d d"
  by (simp add: effect_def untouched_def)

lemma effect_audit:
  assumes "(ev, det) \<notin> set WRONG"
  shows "effect cfg i now d (audit ev u em det act ip now d)"
  using assms by (cases "ev = ''login_ok'' \<and> map_option u_id u = Some i")
    (auto simp: effect_def untouched_def signed_in_def times_audit)

lemma effect_failure:
  assumes "user_of d (u_id u) = Some u" and "\<not> is_locked u now" and "(ev, det) \<in> set WRONG"
  shows "effect cfg i now d (audit ev (Some u) em det None ip now (register_failure cfg u ip now d))"
proof -
  from assms(3) have ev: "ev \<noteq> ''login_ok''" by (auto simp: WRONG_def)
  show ?thesis
  proof (cases "u_id u = i")
    case True
    with assms ev have "guessed_wrong cfg i now d (audit ev (Some u) em det None ip now (register_failure cfg u ip now d))"
      by (auto simp: guessed_wrong_def times_audit times_register_failure user_of_register_failure)
    then show ?thesis by (simp add: effect_def)
  next
    case False
    with ev have "untouched i d (audit ev (Some u) em det None ip now (register_failure cfg u ip now d))"
      by (auto simp: untouched_def times_audit times_register_failure user_of_register_failure)
    then show ?thesis by (simp add: effect_def)
  qed
qed

definition quiet :: "db \<Rightarrow> db \<Rightarrow> bool" where
  "quiet d d' \<longleftrightarrow> map u_id (db_users d') = map u_id (db_users d) \<and> (\<forall>i. untouched i d d')"

lemma quiet_trans: "quiet d d1 \<Longrightarrow> quiet d1 d2 \<Longrightarrow> quiet d d2"
  by (simp add: quiet_def untouched_def)

lemma quiet_frame: "db_auth_audit d' = db_auth_audit d \<Longrightarrow> db_users d' = db_users d \<Longrightarrow> quiet d d'"
  by (simp add: quiet_def untouched_def times_defs user_of_def)

lemma quiet_audit:
  "(ev, det) \<notin> set WRONG \<Longrightarrow> ev \<noteq> ''login_ok'' \<Longrightarrow> quiet d (audit ev u em det act ip now d)"
  by (simp add: quiet_def untouched_def times_audit)

lemma quiet_set_user:
  "user_of d (u_id v) = Some u \<Longrightarrow> lock_of v = lock_of u \<Longrightarrow> quiet d (set_user v d)"
  by (auto simp: quiet_def untouched_def times_others user_of_set_user)

lemma effect_quiet: "quiet d d' \<Longrightarrow> effect cfg i now d d'"
  by (simp add: quiet_def effect_def)

lemma effect_then_quiet: "effect cfg i now d d1 \<Longrightarrow> quiet d1 d2 \<Longrightarrow> effect cfg i now d d2"
  by (auto simp: quiet_def effect_def untouched_def guessed_wrong_def signed_in_def)

lemma effect_sign_in:
  assumes "db_auth_audit d0 = db_auth_audit d" "db_users d0 = db_users d"
  shows "effect cfg i now d (audit ''login_ok'' (Some v) em det act ip now (set_user v d0))"
proof -
  from assms have q: "quiet d d0" by (rule quiet_frame)
  then have same: "wrong_times i d0 = wrong_times i d" "sign_in_times i d0 = sign_in_times i d"
    "map_option lock_of (user_of d0 i) = map_option lock_of (user_of d i)"
    by (simp_all add: quiet_def untouched_def)
  have ids: "map u_id (db_users (audit ''login_ok'' (Some v) em det act ip now (set_user v d0))) = map u_id (db_users d)"
    using assms by simp
  show ?thesis
  proof (cases "u_id v = i")
    case True
    with same ids show ?thesis by (auto simp: effect_def signed_in_def times_audit times_others)
  next
    case False
    with same ids show ?thesis
      by (auto simp: effect_def untouched_def times_audit times_others user_of_set_user WRONG_def)
  qed
qed

lemma get_mfa_user_of: "get_mfa_user cr d tok now = Inr u \<Longrightarrow> user_of d (u_id u) = Some u"
  by (auto simp: get_mfa_user_def split: option.splits if_splits dest: user_of_id)

lemma get_current_user_of: "get_current_user cr d tok now = Inr u \<Longrightarrow> user_of d (u_id u) = Some u"
  by (auto simp: get_current_user_def split: option.splits if_splits dest: user_of_id)

lemma login_effect:
  assumes "distinct (map u_id (db_users d))"
  shows "effect cfg i now d (snd (login cfg cr email pw rq now d))"
proof -
  define user where "user = find (\<lambda>u. u_email u = email) (db_users d)"
  show ?thesis
  proof (cases "login_reason cr user pw now")
    case None
    then obtain u where "user = Some u" by (cases user) (auto simp: login_reason_def)
    with None show ?thesis
      by (simp add: login_def Let_def flip: user_def) (rule effect_quiet[OF quiet_audit]; simp add: WRONG_def)
  next
    case (Some r)
    show ?thesis
    proof (cases user)
      case None
      with Some have r: "r = ''unknown email''" by (simp add: login_reason_def)
      have a: "quiet d (audit ''login_failed'' None (Some email) (Some r) None (rq_ip rq) now d)" (is "quiet d ?d2")
        by (rule quiet_audit) (simp_all add: WRONG_def r)
      have "quiet ?d2 (decoy_record k y rq now ?d2)" for k y by (rule quiet_frame) (simp_all add: decoy_record_def)
      with a have "quiet d (decoy_record k y rq now ?d2)" for k y by (rule quiet_trans)
      with a Some None show ?thesis by (auto simp: login_def Let_def simp flip: user_def intro: effect_quiet)
    next
      case (Some u)
      note isuser = this
      then have mem: "user_of d (u_id u) = Some u"
        using assms by (auto simp: user_def intro!: user_of_member dest: find_Some_D)
      note reason = \<open>login_reason cr user pw now = Some r\<close>
      show ?thesis
      proof (cases "r = ''wrong password''")
        case True
        with reason isuser have nl: "\<not> is_locked u now" by (auto simp: login_reason_def split: if_splits)
        have w: "(''login_failed'', Some ''wrong password'') \<in> set WRONG" by (simp add: WRONG_def)
        from effect_failure[OF mem nl w] True reason isuser show ?thesis
          by (simp add: login_def Let_def flip: user_def)
      next
        case False
        then have "quiet d (audit ''login_failed'' (Some u) (Some email) (Some r) None (rq_ip rq) now d)"
          by (intro quiet_audit) (simp_all add: WRONG_def)
        with False reason isuser show ?thesis
          by (simp add: login_def Let_def effect_quiet flip: user_def)
      qed
    qed
  qed
qed

lemma refuse_code_effect:
  assumes "user_of d (u_id u) = Some u" "\<not> is_locked u now" "(''mfa_failed'', Some det) \<in> set WRONG"
  shows "effect cfg i now d (snd (refuse_code cfg u ip det now d))"
  using effect_failure[OF assms] by (simp add: refuse_code_def)

lemma mfa_verify_effect: "effect cfg i now d (snd (mfa_verify cfg cr tok code rq now d))"
proof (cases "get_mfa_user cr d tok now")
  case (Inl e)
  then show ?thesis by (simp add: mfa_verify_def verify_body_def guarded_def effect_same)
next
  case (Inr u)
  note u = get_mfa_user_of[OF Inr]
  show ?thesis
  proof (cases "u_totp_confirmed_at u = None \<or> is_locked u now")
    case True
    have "quiet d (audit ''mfa_failed'' (Some u) None (Some ''locked'') None (rq_ip rq) now d)"
      by (rule quiet_audit) (simp_all add: WRONG_def)
    with True Inr show ?thesis by (auto simp: mfa_verify_def verify_body_def guarded_def effect_same effect_quiet)
  next
    case False
    then obtain c where open_acc: "u_totp_confirmed_at u = Some c" "\<not> is_locked u now" by auto
    note go = Inr mfa_verify_def verify_body_def guarded_def sign_in_def Let_def
    show ?thesis
    proof (cases "verify_totp cr u code now")
      case (Inl e)
      with open_acc show ?thesis by (simp add: go effect_same)
    next
      case vt: (Inr r)
      obtain b u' where r: "r = (b, u')" by (cases r)
      show ?thesis
      proof (cases b)
        case True
        with vt r open_acc show ?thesis by (simp add: go effect_sign_in)
      next
        case False
        obtain ok d' where bc: "use_backup_code cr u code now d = (ok, d')" by (cases "use_backup_code cr u code now d")
        have w: "(''mfa_failed'', Some ''wrong, expired or reused code'') \<in> set WRONG" by (simp add: WRONG_def)
        show ?thesis
        proof (cases ok)
          case True
          with bc vt r False open_acc use_backup_code_frame[OF bc] show ?thesis by (simp add: go effect_sign_in)
        next
          case nok: False
          with bc vt r False open_acc refuse_code_effect[OF u open_acc(2) w] show ?thesis by (simp add: go)
        qed
      qed
    qed
  qed
qed

lemma enroll_start_effect: "effect cfg i now d (snd (mfa_enroll_start cr tok r n rq now d))"
proof (cases "get_mfa_user cr d tok now")
  case (Inr u)
  note u = get_mfa_user_of[OF Inr]
  obtain s u' where st: "start_enrolment cr r n u = (s, u')" by (cases "start_enrolment cr r n u")
  then have same: "u_id u' = u_id u" "lock_of u' = lock_of u" by (auto simp: start_enrolment_def Let_def lock_of_def)
  have "quiet d (set_user u' d)" by (rule quiet_set_user[of d u' u]) (simp_all add: same u)
  moreover have "quiet (set_user u' d) (audit ''mfa_enroll_started'' (Some u') None None None (rq_ip rq) now (set_user u' d))"
    by (rule quiet_audit) (simp_all add: WRONG_def)
  ultimately have "quiet d (audit ''mfa_enroll_started'' (Some u') None None None (rq_ip rq) now (set_user u' d))"
    by (rule quiet_trans)
  with Inr st show ?thesis by (simp add: mfa_enroll_start_def enroll_start_body_def guarded_def effect_same effect_quiet)
qed (simp add: mfa_enroll_start_def enroll_start_body_def guarded_def effect_same)

lemma enroll_confirm_effect: "effect cfg i now d (snd (mfa_enroll_confirm cfg cr tok code rs rq now d))"
proof (cases "get_mfa_user cr d tok now")
  case (Inl e)
  then show ?thesis by (simp add: mfa_enroll_confirm_def enroll_confirm_body_def guarded_def effect_same)
next
  case (Inr u)
  note u = get_mfa_user_of[OF Inr]
  note go = Inr mfa_enroll_confirm_def enroll_confirm_body_def guarded_def
  consider (linked) "u_totp_confirmed_at u \<noteq> None"
    | (shut) "u_totp_confirmed_at u = None" "is_locked u now \<or> \<not> truthy (u_totp_secret_enc u)"
    | (ready) "u_totp_confirmed_at u = None" "\<not> is_locked u now" "truthy (u_totp_secret_enc u)" by blast
  then show ?thesis
  proof cases
    case linked
    then show ?thesis by (simp add: go effect_same)
  next
    case shut
    have "quiet d (audit ''mfa_failed'' (Some u) None (Some ''enrol: locked or not started'') None (rq_ip rq) now d)"
      by (rule quiet_audit) (simp_all add: WRONG_def)
    with shut show ?thesis by (auto simp: go effect_quiet)
  next
    case ready
    show ?thesis
    proof (cases "verify_totp cr u code now")
      case (Inl e)
      with ready show ?thesis by (simp add: go effect_same)
    next
      case vt: (Inr r)
      obtain b u' where r: "r = (b, u')" by (cases r)
      have w: "(''mfa_failed'', Some ''enrol: wrong code'') \<in> set WRONG" by (simp add: WRONG_def)
      show ?thesis
      proof (cases b)
        case False
        with vt r ready refuse_code_effect[OF u ready(2) w] show ?thesis by (simp add: go)
      next
        case True
        define v where "v = register_success now (u'\<lparr>u_totp_confirmed_at := Some now\<rparr>)"
        obtain codes d1 where nb: "new_backup_codes cr v rs now (set_user v d) = (codes, d1)"
          by (cases "new_backup_codes cr v rs now (set_user v d)")
        from new_backup_codes_frame[OF nb] have q1: "quiet (set_user v d) d1" by (auto intro: quiet_frame)
        let ?d2 = "audit ''mfa_enrolled'' (Some v) None None None (rq_ip rq) now d1"
        let ?d3 = "audit ''login_ok'' (Some v) None (Some ''enrolment'') None (rq_ip rq) now ?d2"
        have "quiet d1 ?d2" by (rule quiet_audit) (simp_all add: WRONG_def)
        with q1 have q2: "quiet (set_user v d) ?d2" by (rule quiet_trans)
        then have ids: "map u_id (db_users ?d3) = map u_id (db_users d)" by (simp add: quiet_def)
        have same: "wrong_times j ?d2 = wrong_times j d" "sign_in_times j ?d2 = sign_in_times j d"
          "map_option lock_of (user_of ?d2 j) = map_option lock_of (user_of (set_user v d) j)" for j
          using q2 by (simp_all add: quiet_def untouched_def times_others)
        have "effect cfg i now d ?d3"
        proof (cases "u_id v = i")
          case True
          then show ?thesis using same[of i] ids by (auto simp: effect_def signed_in_def times_audit)
        next
          case False
          then show ?thesis using same[of i] ids
            by (auto simp: effect_def untouched_def times_audit user_of_set_user WRONG_def)
        qed
        with vt r True ready nb show ?thesis by (simp add: go Let_def flip: v_def)
      qed
    qed
  qed
qed

lemma setup_effect: "effect cfg i now d (snd (setup_account cfg cr raw pw salt rq now d))"
proof (cases "find_setup_token cr d raw now")
  case None
  have "quiet d (audit ''setup_failed'' None None (Some ''invalid, used or expired link'') None (rq_ip rq) now d)"
    by (rule quiet_audit) (simp_all add: WRONG_def)
  with None show ?thesis by (simp add: setup_account_def effect_quiet)
next
  case (Some t)
  note tok = Some
  show ?thesis
  proof (cases "password_problem pw = None \<and> (\<exists>u. user_of d (stk_user_id t) = Some u \<and> u_is_active u)")
    case False
    with tok show ?thesis by (auto simp: setup_account_def effect_same split: option.splits)
  next
    case True
    then obtain u where u: "password_problem pw = None" "user_of d (stk_user_id t) = Some u" "u_is_active u" by blast
    define v where "v = u\<lparr>u_password_hash := Some (cr_hash cr pw salt)\<rparr>"
    have v: "u_id v = u_id u" "lock_of v = lock_of u" by (simp_all add: v_def lock_of_def)
    from u(2) user_of_id[OF u(2)] have "user_of d (u_id v) = Some u" by (simp add: v)
    then have "quiet d (set_user v d)" by (rule quiet_set_user) (rule v(2))
    moreover have "quiet (set_user v d) (use_token (stk_id t) now (set_user v d))"
      by (rule quiet_frame) (simp_all add: use_token_def)
    moreover have "quiet (use_token (stk_id t) now (set_user v d))
        (audit ''setup_completed'' (Some v) None None None (rq_ip rq) now (use_token (stk_id t) now (set_user v d)))"
      by (rule quiet_audit) (simp_all add: WRONG_def)
    ultimately have "quiet d (audit ''setup_completed'' (Some v) None None None (rq_ip rq) now (use_token (stk_id t) now (set_user v d)))"
      by (blast intro: quiet_trans)
    with tok u show ?thesis by (simp add: setup_account_def Let_def effect_quiet flip: v_def)
  qed
qed

lemma attempt_effect:
  assumes "distinct (map u_id (db_users d))"
  shows "effect cfg i now d (attempt_step cfg cr (now, rq, a) d)"
  by (cases a) (simp_all add: login_effect[OF assms] mfa_verify_effect enroll_start_effect enroll_confirm_effect setup_effect)

section \<open>The bound\<close>

definition in_window :: "dtime \<Rightarrow> tdelta \<Rightarrow> dtime list \<Rightarrow> nat" where
  "in_window a w ts = length (filter (\<lambda>t. a \<le> t \<and> t < a + w) ts)"

text \<open>The account's state beside the guesses \<open>ws\<close> already counted, at time \<open>now\<close>: the guesses in
  the window fit the counter, or the account is locked past the window, or the window is over.\<close>

definition fits :: "settings \<Rightarrow> dtime \<Rightarrow> dtime \<Rightarrow> dtime list \<Rightarrow> user \<Rightarrow> bool" where
  "fits cfg a now ws u \<longleftrightarrow>
     (let w = minutes (cfg_lockout_minutes cfg); n = int (in_window a w ws)
      in 0 \<le> u_failed_count u \<and> u_failed_count u < cfg_lockout_threshold cfg \<and> n \<le> cfg_lockout_threshold cfg
       \<and> (a + w \<le> now \<or> n \<le> u_failed_count u \<or> (\<exists>t. u_locked_until u = Some t \<and> a + w \<le> t)))"

lemma fits_later: "fits cfg a t0 ws u \<Longrightarrow> t0 \<le> now \<Longrightarrow> fits cfg a now ws u"
  by (auto simp: fits_def Let_def)

lemma fits_same: "fits cfg a now ws u \<Longrightarrow> lock_of v = lock_of u \<Longrightarrow> fits cfg a now ws v"
  by (auto simp: fits_def Let_def lock_of_def)

lemma fits_wrong:
  assumes "fits cfg a now ws u" "\<not> is_locked u now" "1 \<le> cfg_lockout_threshold cfg"
    and "\<forall>t \<in> set ws. t \<le> now"
  shows "fits cfg a now (ws @ [now]) (count_failure cfg now u)"
proof -
  let ?w = "minutes (cfg_lockout_minutes cfg)"
  have n: "in_window a ?w (ws @ [now]) = in_window a ?w ws + (if a \<le> now \<and> now < a + ?w then 1 else 0)"
    by (simp add: in_window_def)
  have early: "now < a \<Longrightarrow> in_window a ?w ws = 0"
    using assms(4) by (force simp: in_window_def filter_empty_conv)
  consider (before) "now < a" | (after) "a + ?w \<le> now" | (inside) "a \<le> now" "now < a + ?w" by linarith
  then show ?thesis
  proof cases
    case before
    with early n assms(1,3) show ?thesis by (auto simp: fits_def Let_def count_failure_def)
  next
    case after
    with n assms(1,3) show ?thesis by (auto simp: fits_def Let_def count_failure_def)
  next
    case inside
    with assms(1,2) have "int (in_window a ?w ws) \<le> u_failed_count u"
      by (auto simp: fits_def Let_def is_locked_def split: option.splits)
    with inside n assms(1,3) show ?thesis by (auto simp: fits_def Let_def count_failure_def)
  qed
qed

definition times_of :: "(dtime \<times> request \<times> 't attempt) list \<Rightarrow> dtime list" where
  "times_of es = map fst es"

lemma run_simps:
  "attempts_run cfg cr [] d = d"
  "attempts_run cfg cr (e # es) d = attempts_run cfg cr es (attempt_step cfg cr e d)"
  by (simp_all add: attempts_run_def)

lemma sign_ins_grow:
  assumes "distinct (map u_id (db_users d))"
  shows "length (sign_in_times i d) \<le> length (sign_in_times i (attempts_run cfg cr es d))"
  using assms
proof (induction es arbitrary: d)
  case (Cons e es)
  obtain now rq a where e: "e = (now, rq, a)" by (cases e)
  let ?d1 = "attempt_step cfg cr e d"
  from attempt_effect[OF Cons.prems] have "effect cfg i now d ?d1" by (simp add: e)
  then have "distinct (map u_id (db_users ?d1))" "length (sign_in_times i d) \<le> length (sign_in_times i ?d1)"
    using Cons.prems by (auto simp: effect_def untouched_def guessed_wrong_def signed_in_def)
  with Cons.IH[of ?d1] show ?case by (simp add: run_simps)
qed (simp add: run_simps)

lemma guesses_fit:
  assumes "distinct (map u_id (db_users d))" and "user_of d i = Some u"
    and "1 \<le> cfg_lockout_threshold cfg"
    and "fits cfg a t0 ws u" and "\<forall>t \<in> set ws. t \<le> t0" and "wrong_times i d = base @ ws"
    and "sorted (t0 # times_of es)"
    and "sign_in_times i (attempts_run cfg cr es d) = sign_in_times i d"
  shows "\<exists>ws'. wrong_times i (attempts_run cfg cr es d) = base @ ws'
    \<and> int (in_window a (minutes (cfg_lockout_minutes cfg)) ws') \<le> cfg_lockout_threshold cfg"
  using assms(1,2,4-8)
proof (induction es arbitrary: d u t0 ws)
  case Nil
  then show ?case by (auto simp: run_simps fits_def Let_def)
next
  case (Cons e es)
  obtain now rq at1 where e: "e = (now, rq, at1)" by (cases e)
  let ?d1 = "attempt_step cfg cr e d"
  from attempt_effect[OF Cons.prems(1)] have eff: "effect cfg i now d ?d1" by (simp add: e)
  then have dis: "distinct (map u_id (db_users ?d1))" using Cons.prems(1) by (simp add: effect_def)
  from Cons.prems(6) e have t: "t0 \<le> now" "sorted (now # times_of es)" by (auto simp: times_of_def)
  have old: "\<forall>t \<in> set ws. t \<le> now" using Cons.prems(4) t(1) by auto
  have final: "sign_in_times i (attempts_run cfg cr es ?d1) = sign_in_times i d"
    using Cons.prems(7) by (simp add: run_simps)
  with sign_ins_grow[OF dis, of i cfg cr es] have "\<not> signed_in i d ?d1" by (simp add: signed_in_def)
  with eff consider (quiet) "untouched i d ?d1" | (wrong) "guessed_wrong cfg i now d ?d1" by (auto simp: effect_def)
  then show ?case
  proof cases
    case quiet
    with Cons.prems(2) obtain v where v: "user_of ?d1 i = Some v" "lock_of v = lock_of u"
      by (auto simp: untouched_def)
    from fits_same[OF fits_later[OF Cons.prems(3) t(1)] v(2)] have "fits cfg a now ws v" .
    with Cons.IH[OF dis v(1), of now ws] quiet old t(2) final Cons.prems(5) show ?thesis
      by (simp add: run_simps untouched_def)
  next
    case wrong
    with Cons.prems(2) obtain v where v: "user_of ?d1 i = Some v" "lock_of v = lock_of (count_failure cfg now u)"
      and nl: "\<not> is_locked u now" by (auto simp: guessed_wrong_def)
    from fits_wrong[OF fits_later[OF Cons.prems(3) t(1)] nl assms(3) old]
    have "fits cfg a now (ws @ [now]) v" by (rule fits_same) (rule v(2))
    moreover from wrong Cons.prems(5) have "wrong_times i ?d1 = base @ ws @ [now]" "sign_in_times i ?d1 = sign_in_times i d"
      by (auto simp: guessed_wrong_def)
    ultimately show ?thesis
      using Cons.IH[OF dis v(1), of now "ws @ [now]"] old t(2) final by (simp add: run_simps)
  qed
qed

text \<open>C29. However the five endpoints that need no full token are called, by anyone and in any
  order, between two sign-ins of an account at most \<open>lockout_threshold\<close> wrong passwords and codes
  are checked against it in any stretch of \<open>lockout_minutes\<close>: each checked guess is a row of
  \<open>auth_audit\<close>, and the rows of one stretch are never more.\<close>

theorem guesses_are_bounded:
  assumes "distinct (map u_id (db_users d))" and "user_of d i = Some u"
    and "0 \<le> u_failed_count u" and "u_failed_count u < cfg_lockout_threshold cfg"
    and "sorted (times_of es)"
    and "sign_in_times i (attempts_run cfg cr es d) = sign_in_times i d"
  shows "\<exists>ws. wrong_times i (attempts_run cfg cr es d) = wrong_times i d @ ws
    \<and> int (in_window a (minutes (cfg_lockout_minutes cfg)) ws) \<le> cfg_lockout_threshold cfg"
proof -
  obtain t0 where t0: "sorted (t0 # times_of es)"
    using assms(5) by (cases "times_of es") (auto intro: that[of 0])
  have "fits cfg a t0 [] u" using assms(3,4) by (simp add: fits_def Let_def in_window_def)
  with guesses_fit[of d i u cfg a t0 "[]" "wrong_times i d" es cr] assms t0 show ?thesis by simp
qed

section \<open>Concrete attempts\<close>

definition sample_request :: request where
  "sample_request = \<lparr>rq_ip = Some ''10.0.0.9'', rq_method = ''POST'', rq_path = ''/api/auth/login'', rq_user_agent = []\<rparr>"

text \<open>Six guesses in six seconds, by password and by code: the sixth is not checked.\<close>

definition six_guesses :: "(dtime \<times> request \<times> claims attempt) list" where
  "six_guesses = [(seconds 121, sample_request, Password ''a@b.hr'' ''guess''), (seconds 122, sample_request, Code sample_mfa ''111111''),
     (seconds 123, sample_request, Password ''a@b.hr'' ''guess''), (seconds 124, sample_request, Code sample_mfa ''222222''),
     (seconds 125, sample_request, Code sample_mfa ''333333''), (seconds 126, sample_request, Password ''a@b.hr'' ''correct horse'')]"

theorem guesses_are_bounded_witness:
  "\<exists>ws. wrong_times 1 (attempts_run default_settings sample_crypto six_guesses account_db) = wrong_times 1 account_db @ ws
     \<and> length ws = 5 \<and> int (in_window (minutes 2) (minutes 15) ws) \<le> 5"
proof -
  let ?d = "attempts_run default_settings sample_crypto six_guesses account_db"
  have five: "wrong_times 1 account_db = []" "wrong_times 1 ?d = map seconds [121, 122, 123, 124, 125]"
    and none: "sign_in_times 1 ?d = sign_in_times 1 account_db" and srt: "sorted (times_of six_guesses)"
    by code_simp+
  have dis: "distinct (map u_id (db_users account_db))" and usr: "user_of account_db 1 = Some sample_user"
    and cnt: "0 \<le> u_failed_count sample_user" "u_failed_count sample_user < cfg_lockout_threshold default_settings"
    by (simp_all add: account_db_def user_of_def sample_user_def default_settings_def)
  from guesses_are_bounded[OF dis usr cnt srt none, of "minutes 2"] five show ?thesis
    by (simp add: default_settings_def)
qed

text \<open>
  \<open>POST /mfa/backup-codes\<close> is the sixth place that checks a code, and it does not look at the
  lock: an account that is locked still has its codes tried there.
\<close>

lemma backup_codes_ignore_the_lock:
  assumes "get_current_user cr d tok now = Inr u" and "verify_totp cr u code now = Inr (True, u')"
  shows "\<exists>codes d'. regenerate_backup_codes cfg cr tok code rs rq now d = (Inr codes, d')"
  using assms by (simp add: regenerate_backup_codes_def regenerate_body_def guarded_def split: prod.splits)

lemma backup_codes_ignore_the_lock_witness:
  "is_locked (sample_user\<lparr>u_locked_until := Some (minutes 16)\<rparr>) (minutes 2)
   \<and> (\<exists>codes d'. regenerate_backup_codes default_settings sample_crypto sample_full ''000004'' [] sample_request (minutes 2)
        (account_db\<lparr>db_users := [sample_user\<lparr>u_locked_until := Some (minutes 16)\<rparr>]\<rparr>) = (Inr codes, d'))"
proof
  let ?u = "sample_user\<lparr>u_locked_until := Some (minutes 16)\<rparr>"
  show "is_locked ?u (minutes 2)" by code_simp
  have "case get_current_user sample_crypto (account_db\<lparr>db_users := [?u]\<rparr>) sample_full (minutes 2) of
      Inr v \<Rightarrow> v = ?u | Inl _ \<Rightarrow> False" by code_simp
  then have g: "get_current_user sample_crypto (account_db\<lparr>db_users := [?u]\<rparr>) sample_full (minutes 2) = Inr ?u"
    by (simp split: sum.splits)
  have "case verify_totp sample_crypto ?u ''000004'' (minutes 2) of Inr (b, _) \<Rightarrow> b | Inl _ \<Rightarrow> False" by code_simp
  then obtain u' where v: "verify_totp sample_crypto ?u ''000004'' (minutes 2) = Inr (True, u')"
    by (auto split: sum.splits prod.splits)
  show "\<exists>codes d'. regenerate_backup_codes default_settings sample_crypto sample_full ''000004'' [] sample_request (minutes 2)
        (account_db\<lparr>db_users := [?u]\<rparr>) = (Inr codes, d')"
    by (rule backup_codes_ignore_the_lock[OF g v])
qed

end
