(* ===== verification/Sign_In.thy ===== *)
theory Sign_In
  imports Lockout
begin

text \<open>
  What a signed-in session proves: codes are never accepted twice, and a full token exists only
  for an account whose second factor was checked. The sign-in is a step relation over the
  database and the tokens handed out so far.
\<close>

section \<open>A code is accepted once\<close>

text \<open>The steps accepted by a run of attempts against one account's secret.\<close>

fun accepted_steps :: "'t crypto \<Rightarrow> user \<Rightarrow> (string \<times> dtime) list \<Rightarrow> int list" where
  "accepted_steps cr u [] = []"
| "accepted_steps cr u ((code, now) # as) =
     (case verify_totp cr u code now of
        Inr (True, u') \<Rightarrow> the (u_totp_last_step u') # accepted_steps cr u' as
      | _ \<Rightarrow> accepted_steps cr u as)"

lemma verify_totp_accepts:
  assumes "verify_totp cr u code now = Inr (True, u')"
  obtains s secret key where "u_totp_last_step u' = Some s" "u_totp_secret_enc u' = u_totp_secret_enc u"
    "\<forall>l. u_totp_last_step u = Some l \<longrightarrow> l < s" "step_at now - 1 \<le> s" "s \<le> step_at now + 1"
    "cr_decrypt cr (the (u_totp_secret_enc u)) = Some secret" "totp_key secret = Inr key"
    "hotp (cr_mac cr) key s DIGITS = Inr (clean_code code)"
proof -
  from assms obtain secret s where
    "cr_decrypt cr (the (u_totp_secret_enc u)) = Some secret"
    "verify (cr_mac cr) secret code (u_totp_last_step u) now = Inr (Some s)"
    "u' = u\<lparr>u_totp_last_step := Some s\<rparr>"
    by (auto simp: verify_totp_def split: if_splits option.splits sum.splits)
  with verify_sound[OF this(2)] that[of s secret] show ?thesis by (auto simp: WINDOW_def)
qed

text \<open>C30. Whatever codes are tried, at whatever times, against one secret: the 30 s steps whose
  codes are accepted strictly increase and are newer than the last one stored, so no step's code
  is accepted twice.\<close>

theorem accepted_steps_increase:
  "sorted_wrt (<) (accepted_steps cr u as)
   \<and> (\<forall>l s. u_totp_last_step u = Some l \<and> s \<in> set (accepted_steps cr u as) \<longrightarrow> l < s)"
proof (induction as arbitrary: u)
  case (Cons a as)
  obtain code now where a: "a = (code, now)" by (cases a)
  show ?case
  proof (cases "\<exists>u'. verify_totp cr u code now = Inr (True, u')")
    case True
    then obtain u' where v: "verify_totp cr u code now = Inr (True, u')" by blast
    from v obtain s where s: "u_totp_last_step u' = Some s" "\<forall>l. u_totp_last_step u = Some l \<longrightarrow> l < s"
      by (rule verify_totp_accepts)
    with Cons.IH[of u'] v show ?thesis by (auto simp: a)
  next
    case False
    then have "accepted_steps cr u (a # as) = accepted_steps cr u as"
      by (auto simp: a split: sum.splits prod.splits bool.splits)
    with Cons.IH[of u] show ?thesis by simp
  qed
qed simp

theorem accepted_steps_increase_witness:
  "sorted_wrt (<) (accepted_steps sample_crypto (sample_user\<lparr>u_totp_last_step := Some 3\<rparr>)
       [(''000004'', minutes 2), (''000004'', minutes 2), (''000003'', minutes 2), (''000005'', minutes 2)])
   \<and> accepted_steps sample_crypto (sample_user\<lparr>u_totp_last_step := Some 3\<rparr>)
       [(''000004'', minutes 2), (''000004'', minutes 2), (''000003'', minutes 2), (''000005'', minutes 2)] = [4, 5]
   \<and> (3::int) < 4"
proof -
  let ?u = "sample_user\<lparr>u_totp_last_step := Some 3\<rparr>"
  let ?as = "[(''000004'', minutes 2), (''000004'', minutes 2), (''000003'', minutes 2), (''000005'', minutes 2)]"
  have e: "accepted_steps sample_crypto ?u ?as = [4, 5]" by code_simp
  from accepted_steps_increase[of sample_crypto ?u ?as] show ?thesis unfolding e by simp
qed

section \<open>Tokens in circulation\<close>

text \<open>What the JWT library promises: a token decodes to the claims it was made of. And nobody
  else can make one: a token that decodes was handed out.\<close>

definition jwt_round_trip :: "'t crypto \<Rightarrow> bool" where
  "jwt_round_trip cr \<longleftrightarrow> (\<forall>now p q. cr_decode cr now (cr_encode cr p) = Some q \<longrightarrow> q = p)"

definition genuine :: "'t crypto \<Rightarrow> 't list \<Rightarrow> dtime \<Rightarrow> 't \<Rightarrow> bool" where
  "genuine cr issued now tok \<longleftrightarrow> cr_decode cr now tok = None \<or> tok \<in> set issued"

text \<open>Everything that hands out a token, and everything else: any operation that only adds to
  \<open>auth_audit\<close> (whatever it does to the other tables, to users or to their second factor).\<close>

inductive reach :: "settings \<Rightarrow> 't crypto \<Rightarrow> db \<Rightarrow> 't list \<Rightarrow> bool" for cfg cr where
  start: "reach cfg cr d []"
| password: "reach cfg cr d ts \<Longrightarrow> login cfg cr email pw rq now d = (Inr ch, d') \<Longrightarrow>
    reach cfg cr d' (ch_mfa_token ch # ts)"
| link: "reach cfg cr d ts \<Longrightarrow> setup_account cfg cr raw pw salt rq now d = (Inr ch, d') \<Longrightarrow>
    reach cfg cr d' (ch_mfa_token ch # ts)"
| code: "reach cfg cr d ts \<Longrightarrow> genuine cr ts now tok \<Longrightarrow>
    mfa_verify cfg cr tok c rq now d = (Inr t, d') \<Longrightarrow> reach cfg cr d' (t # ts)"
| enrol: "reach cfg cr d ts \<Longrightarrow> genuine cr ts now tok \<Longrightarrow>
    mfa_enroll_confirm cfg cr tok c rs rq now d = (Inr (t, codes), d') \<Longrightarrow> reach cfg cr d' (t # ts)"
| again: "reach cfg cr d ts \<Longrightarrow> genuine cr ts now tok \<Longrightarrow>
    refresh cfg cr tok now d = Inr t \<Longrightarrow> reach cfg cr d (t # ts)"
| other: "reach cfg cr d ts \<Longrightarrow> db_auth_audit d' = db_auth_audit d @ rows \<Longrightarrow> reach cfg cr d' ts"

definition signed_in_before :: "db \<Rightarrow> nat \<Rightarrow> bool" where
  "signed_in_before d i \<longleftrightarrow> (\<exists>r \<in> set (db_auth_audit d). aa_user_id r = Some i \<and> aa_event r = ''login_ok'')"

text \<open>A token's provenance: a step token, or a full token of an account whose sign-in was completed.\<close>

definition accounted :: "'t crypto \<Rightarrow> db \<Rightarrow> 't \<Rightarrow> bool" where
  "accounted cr d t \<longleftrightarrow> (\<exists>p. t = cr_encode cr p
     \<and> (jget p ''scope'' = JStr SCOPE_FULL \<longrightarrow> (\<exists>i. subject p = Some i \<and> signed_in_before d i)))"

section \<open>Reading back the subject\<close>

lemma claims_read:
  "jget (full_claims cfg d u now) ''scope'' = JStr SCOPE_FULL" "subject (full_claims cfg d u now) = Some (u_id u)"
  "jget (mfa_claims cfg u now) ''scope'' = JStr SCOPE_MFA" "subject (mfa_claims cfg u now) = Some (u_id u)"
  by (simp_all only: full_claims_def mfa_claims_def subject_def jget_def)
    (simp_all add: all_digits_nat_str[simplified] read_nat_str)

lemma scopes_differ: "SCOPE_MFA \<noteq> SCOPE_FULL"
  by (simp add: SCOPE_MFA_def SCOPE_FULL_def)

section \<open>Every token is accounted for\<close>

lemma accounted_later:
  "accounted cr d t \<Longrightarrow> db_auth_audit d' = db_auth_audit d @ rows \<Longrightarrow> accounted cr d' t"
  by (force simp: accounted_def signed_in_before_def)

lemma accounted_mfa: "accounted cr d (mfa_token cfg cr u now)"
  unfolding accounted_def mfa_token_def
  by (rule exI[of _ "mfa_claims cfg u now"]) (simp add: claims_read scopes_differ)

lemma accounted_full: "signed_in_before d (u_id u) \<Longrightarrow> accounted cr d (access_token cfg cr d0 u now)"
  unfolding accounted_def access_token_def
  by (rule exI[of _ "full_claims cfg d0 u now"]) (simp add: claims_read)

lemma audit_grows: "\<exists>rows. db_auth_audit (audit ev u em det act ip now d) = db_auth_audit d @ rows"
  by (simp add: audit_def)

lemma login_ok:
  "login cfg cr email pw rq now d = (Inr ch, d') \<Longrightarrow>
     (\<exists>u. ch_mfa_token ch = mfa_token cfg cr u now) \<and> (\<exists>rows. db_auth_audit d' = db_auth_audit d @ rows)"
  by (auto simp: login_def Let_def audit_grows split: option.splits)

lemma setup_ok:
  "setup_account cfg cr raw pw salt rq now d = (Inr ch, d') \<Longrightarrow>
     (\<exists>u. ch_mfa_token ch = mfa_token cfg cr u now) \<and> (\<exists>rows. db_auth_audit d' = db_auth_audit d @ rows)"
  by (auto simp: setup_account_def Let_def audit_def use_token_def set_user_def split: option.splits if_splits)

lemma sign_in_ok:
  "sign_in cfg cr u how ip now d = (Inr t, d') \<Longrightarrow>
     (\<exists>d0. t = access_token cfg cr d0 (register_success now u) now) \<and> signed_in_before d' (u_id u)
     \<and> (\<exists>rows. db_auth_audit d' = db_auth_audit d @ rows)"
  by (auto simp: sign_in_def Let_def audit_def set_user_def signed_in_before_def)

lemma verify_ok:
  assumes "mfa_verify cfg cr tok c rq now d = (Inr t, d')"
  shows "accounted cr d' t \<and> (\<exists>rows. db_auth_audit d' = db_auth_audit d @ rows)"
proof -
  obtain u where g: "get_mfa_user cr d tok now = Inr u" and b: "verify_body cfg cr c rq now d u = (Inr t, d')"
    using assms by (auto simp: mfa_verify_def guarded_def split: sum.splits)
  from b obtain v how d0 where s: "sign_in cfg cr v how (rq_ip rq) now d0 = (Inr t, d')"
    and d0: "db_auth_audit d0 = db_auth_audit d"
    by (auto simp: verify_body_def refuse_code_def split: if_splits sum.splits prod.splits bool.splits
        dest: use_backup_code_frame)
  from sign_in_ok[OF s] d0 accounted_full[of d' "register_success now v"] show ?thesis by auto
qed

lemma enrol_ok:
  assumes "mfa_enroll_confirm cfg cr tok c rs rq now d = (Inr (t, codes), d')"
  shows "accounted cr d' t \<and> (\<exists>rows. db_auth_audit d' = db_auth_audit d @ rows)"
proof -
  obtain u where g: "get_mfa_user cr d tok now = Inr u"
    and b: "enroll_confirm_body cfg cr c rs rq now d u = (Inr (t, codes), d')"
    using assms by (auto simp: mfa_enroll_confirm_def guarded_def split: sum.splits)
  from b obtain v d1 where t: "t = access_token cfg cr d' v now" and nb: "new_backup_codes cr v rs now (set_user v d) = (codes, d1)"
    and d': "d' = audit ''login_ok'' (Some v) None (Some ''enrolment'') None (rq_ip rq) now
       (audit ''mfa_enrolled'' (Some v) None None None (rq_ip rq) now d1)"
    by (auto simp: enroll_confirm_body_def refuse_code_def Let_def split: if_splits sum.splits prod.splits bool.splits)
  from new_backup_codes_frame[OF nb] have a: "db_auth_audit d1 = db_auth_audit d" by (simp add: set_user_def)
  then have "\<exists>rows. db_auth_audit d' = db_auth_audit d @ rows" by (simp add: d' audit_def)
  moreover have "signed_in_before d' (u_id v)" by (simp add: d' audit_def signed_in_before_def)
  ultimately show ?thesis by (simp add: t accounted_full)
qed

lemma current_user_claims:
  assumes "get_current_user cr d tok now = Inr u"
  obtains p where "cr_decode cr now tok = Some p" "jget p ''scope'' = JStr SCOPE_FULL"
    "subject p = Some (u_id u)" "u_is_active u" "full_token_matches u p"
  using assms by (auto simp: get_current_user_def split: option.splits if_splits dest: user_of_id)

lemma genuine_full:
  assumes "jwt_round_trip cr" and "genuine cr ts now tok" and "\<forall>t \<in> set ts. accounted cr d t"
    and "get_current_user cr d tok now = Inr u"
  shows "signed_in_before d (u_id u)"
proof -
  from assms(4) obtain p where p: "cr_decode cr now tok = Some p" "jget p ''scope'' = JStr SCOPE_FULL"
    "subject p = Some (u_id u)" by (rule current_user_claims)
  from p(1) assms(2,3) have "accounted cr d tok" by (auto simp: genuine_def)
  then obtain q where q: "tok = cr_encode cr q"
    "jget q ''scope'' = JStr SCOPE_FULL \<longrightarrow> (\<exists>i. subject q = Some i \<and> signed_in_before d i)"
    by (auto simp: accounted_def)
  from p(1) q(1) assms(1) have "p = q" by (auto simp: jwt_round_trip_def)
  with p q(2) show ?thesis by auto
qed

lemma reach_accounted:
  assumes "jwt_round_trip cr"
  shows "reach cfg cr d ts \<Longrightarrow> \<forall>t \<in> set ts. accounted cr d t"
proof (induction rule: reach.induct)
  case (password d ts email pw rq now ch d')
  then show ?case using login_ok[OF password.hyps(2)] accounted_mfa accounted_later by (metis set_ConsD)
next
  case (link d ts raw pw salt rq now ch d')
  then show ?case using setup_ok[OF link.hyps(2)] accounted_mfa accounted_later by (metis set_ConsD)
next
  case (code d ts now tok c rq t d')
  then show ?case using verify_ok[OF code.hyps(3)] accounted_later by (metis set_ConsD)
next
  case (enrol d ts now tok c rs rq t codes d')
  then show ?case using enrol_ok[OF enrol.hyps(3)] accounted_later by (metis set_ConsD)
next
  case (again d ts now tok t)
  from again.hyps(3) obtain u where u: "get_current_user cr d tok now = Inr u" "t = access_token cfg cr d u now"
    by (auto simp: refresh_def sbind_Inr)
  from genuine_full[OF assms again.hyps(2) again.IH u(1)] u(2) again.IH show ?case by (auto simp: accounted_full)
next
  case (other d ts d' rows)
  then show ?case using accounted_later by metis
qed simp

text \<open>C31. Behind every request a full token opens stands a completed sign-in: in every reachable
  state, a genuine token accepted by \<open>get_current_user\<close> names an active account with a linked
  second factor whose stamp it carries, and \<open>auth_audit\<close> holds that account's \<open>login_ok\<close>; a token
  of the password step opens nothing there.\<close>

theorem full_token_means_signed_in:
  assumes "jwt_round_trip cr" and "reach cfg cr d ts" and "genuine cr ts now tok"
    and "get_current_user cr d tok now = Inr u"
  shows "signed_in_before d (u_id u) \<and> u_is_active u \<and> u_totp_confirmed_at u \<noteq> None
    \<and> (\<exists>p. cr_decode cr now tok = Some p \<and> jget p ''mfa_at'' = mfa_stamp u \<and> jget p ''scope'' \<noteq> JStr SCOPE_MFA)"
proof -
  from assms(4) obtain p where p: "cr_decode cr now tok = Some p" "jget p ''scope'' = JStr SCOPE_FULL"
    "u_is_active u" "full_token_matches u p" by (rule current_user_claims)
  from genuine_full[OF assms(1,3) reach_accounted[OF assms(1,2)] assms(4)] p scopes_differ show ?thesis
    by (auto simp: full_token_matches_def)
qed

definition sample_run :: "(db \<times> claims list \<times> user) option" where
  "sample_run =
     (case login default_settings sample_crypto ''a@b.hr'' ''correct horse'' sample_request (minutes 2) account_db of
        (Inr ch, d1) \<Rightarrow>
          (case mfa_verify default_settings sample_crypto (ch_mfa_token ch) ''000004'' sample_request (minutes 2) d1 of
             (Inr t, d2) \<Rightarrow>
               (case get_current_user sample_crypto d2 t (minutes 3) of
                  Inr u \<Rightarrow> Some (d2, [t, ch_mfa_token ch], u) | Inl _ \<Rightarrow> None)
           | _ \<Rightarrow> None)
      | _ \<Rightarrow> None)"

lemma sample_crypto_round_trip: "jwt_round_trip sample_crypto"
  by (auto simp: jwt_round_trip_def sample_crypto_def split: json.splits if_splits)

theorem full_token_means_signed_in_witness:
  "\<exists>d t t1 u. reach default_settings sample_crypto d [t, t1]
     \<and> get_current_user sample_crypto d t (minutes 3) = Inr u \<and> signed_in_before d (u_id u) \<and> u_is_active u"
proof -
  have "sample_run \<noteq> None" by code_simp
  then obtain ch d1 t d2 u where
    l: "login default_settings sample_crypto ''a@b.hr'' ''correct horse'' sample_request (minutes 2) account_db = (Inr ch, d1)"
    and v: "mfa_verify default_settings sample_crypto (ch_mfa_token ch) ''000004'' sample_request (minutes 2) d1 = (Inr t, d2)"
    and g: "get_current_user sample_crypto d2 t (minutes 3) = Inr u"
    by (auto simp: sample_run_def split: prod.splits sum.splits)
  have r1: "reach default_settings sample_crypto d1 [ch_mfa_token ch]"
    by (rule reach.password[OF reach.start l])
  have r2: "reach default_settings sample_crypto d2 [t, ch_mfa_token ch]"
    by (rule reach.code[OF r1 _ v]) (simp add: genuine_def)
  have "genuine sample_crypto [t, ch_mfa_token ch] (minutes 3) t" by (simp add: genuine_def)
  from full_token_means_signed_in[OF sample_crypto_round_trip r2 this g] r2 g show ?thesis by blast
qed

end
