(* ===== verification/Users.thy ===== *)
theory Users
  imports Sign_In
begin

text \<open>
  \<open>routers/users.py\<close> and \<open>setup_admin.py\<close>: what an Admin does to accounts, and the first admin
  from the command line. Refusals raised before the commit leave the database as it was.
\<close>

section \<open>Requests\<close>

record user_create =
  uc_email :: string
  uc_full_name :: "string option"
  uc_role :: string
  uc_marina_ids :: "int list"

record user_update =
  uu_full_name :: "string option"
  uu_role :: "string option"
  uu_is_active :: "bool option"
  uu_marina_ids :: "int list option"

record user_out =
  uo_id :: nat
  uo_email :: string
  uo_full_name :: "string option"
  uo_role :: string
  uo_is_active :: bool
  uo_marina_ids :: "nat list"
  uo_password_set :: bool
  uo_mfa_enrolled :: bool
  uo_locked_until :: "dtime option"
  uo_last_login :: "dtime option"
  uo_created_at :: dtime

definition user_out_of :: "db \<Rightarrow> user \<Rightarrow> dtime \<Rightarrow> user_out" where
  "user_out_of d u now = \<lparr>uo_id = u_id u, uo_email = u_email u, uo_full_name = u_full_name u, uo_role = u_role u,
     uo_is_active = u_is_active u, uo_marina_ids = marina_ids d u, uo_password_set = (u_password_hash u \<noteq> None),
     uo_mfa_enrolled = (u_totp_confirmed_at u \<noteq> None),
     uo_locked_until = (if is_locked u now then u_locked_until u else None),
     uo_last_login = u_last_login u, uo_created_at = u_created_at u\<rparr>"

definition get_user :: "db \<Rightarrow> nat \<Rightarrow> http_error + user" where
  "get_user d i = (case user_of d i of None \<Rightarrow> Inl (Http 404 ''User not found'') | Some u \<Rightarrow> Inr u)"

text \<open>\<open>str\<close> of a list of integers.\<close>

definition ints_str :: "int list \<Rightarrow> string" where
  "ints_str is = ''['' @ join_with '', '' (map int_str is) @ '']''"

definition known_marina :: "db \<Rightarrow> int \<Rightarrow> bool" where
  "known_marina d i \<longleftrightarrow> list_ex (\<lambda>m. int (mar_id m) = i) (db_marinas d)"

definition drop_access :: "nat \<Rightarrow> db \<Rightarrow> db" where
  "drop_access i d = d\<lparr>db_access := filter (\<lambda>a. uma_user_id a \<noteq> i) (db_access d)\<rparr>"

definition set_marinas :: "user \<Rightarrow> int list \<Rightarrow> user \<Rightarrow> dtime \<Rightarrow> db \<Rightarrow> http_error + db" where
  "set_marinas u mids admin now d =
     (let unknown = sort (remdups (filter (\<lambda>i. \<not> known_marina d i) mids))
      in if unknown \<noteq> [] then Inl (Http 422 (''Unknown marina ids: '' @ ints_str unknown))
         else Inr ((drop_access (u_id u) d)\<lparr>db_access := db_access (drop_access (u_id u) d) @
                map (\<lambda>i. \<lparr>uma_user_id = u_id u, uma_marina_id = nat i, uma_granted_at = now,
                           uma_granted_by = Some (u_id admin)\<rparr>) (sort (remdups mids))\<rparr>))"

definition other_active_admins :: "db \<Rightarrow> user \<Rightarrow> nat" where
  "other_active_admins d u =
     length (filter (\<lambda>x. u_role x = ''admin'' \<and> u_is_active x \<and> u_id x \<noteq> u_id u) (db_users d))"

definition new_user :: "db \<Rightarrow> string \<Rightarrow> string option \<Rightarrow> string \<Rightarrow> dtime \<Rightarrow> user" where
  "new_user d email name role now =
     \<lparr>u_id = next_id u_id (db_users d), u_email = email, u_password_hash = None, u_full_name = name,
      u_role = role, u_is_active = True, u_created_at = now, u_last_login = None, u_totp_secret_enc = None,
      u_totp_confirmed_at = None, u_totp_last_step = None, u_failed_count = 0, u_locked_until = None\<rparr>"

definition grant_if_manager :: "string \<Rightarrow> user \<Rightarrow> int list \<Rightarrow> user \<Rightarrow> dtime \<Rightarrow> db \<Rightarrow> http_error + db" where
  "grant_if_manager role u mids admin now d =
     (if role = ''marina_manager'' then set_marinas u mids admin now d else Inr d)"

section \<open>Operations\<close>

definition create_body ::
  "settings \<Rightarrow> 't crypto \<Rightarrow> user_create \<Rightarrow> string \<Rightarrow> request \<Rightarrow> dtime \<Rightarrow> db \<Rightarrow> user \<Rightarrow>
     (http_error + user_out \<times> string \<times> dtime) \<times> db" where
  "create_body cfg cr body raw rq now d admin =
     (let email = lower_str (strip (uc_email body));
          u = new_user d email (uc_full_name body) (uc_role body) now;
          d1 = d\<lparr>db_users := db_users d @ [u]\<rparr>
      in if list_ex (\<lambda>x. u_email x = email) (db_users d) then (Inl (Http 409 ''E-mail already in use''), d)
         else (case grant_if_manager (uc_role body) u (uc_marina_ids body) admin now d1 of
             Inl e \<Rightarrow> (Inl e, d)
           | Inr d2 \<Rightarrow>
               (case issue_setup_link cfg cr u (cfg_invite_link_hours cfg * 60) (Some admin) raw now d2 of
                  ((link, till), d3) \<Rightarrow>
                    (let d4 = audit ''setup_link_issued'' (Some u) None None (Some admin) (rq_ip rq) now
                                (audit ''user_created'' (Some u) None (Some (''role='' @ uc_role body)) (Some admin)
                                   (rq_ip rq) now d3)
                     in (Inr (user_out_of d4 u now, link, till), d4)))))"

text \<open>The changed user and the list of what changed, in the order the code writes it.\<close>

definition bool_str :: "bool \<Rightarrow> string" where
  "bool_str b = (if b then ''True'' else ''False'')"

definition changed_user :: "user_update \<Rightarrow> user \<Rightarrow> user" where
  "changed_user body u = u\<lparr>u_full_name := (case uu_full_name body of Some n \<Rightarrow> Some n | None \<Rightarrow> u_full_name u),
     u_role := or_else (uu_role body) (u_role u), u_is_active := or_else (uu_is_active body) (u_is_active u)\<rparr>"

definition user_changes :: "user_update \<Rightarrow> user \<Rightarrow> string list" where
  "user_changes body u =
     (if uu_full_name body \<noteq> None \<and> uu_full_name body \<noteq> u_full_name u then [''full_name''] else [])
   @ (case uu_role body of Some r \<Rightarrow> if r \<noteq> u_role u then [''role '' @ u_role u @ ''->'' @ r] else [] | None \<Rightarrow> [])
   @ (case uu_is_active body of
        Some b \<Rightarrow> if b \<noteq> u_is_active u then [''active '' @ bool_str (u_is_active u) @ ''->'' @ bool_str b] else []
      | None \<Rightarrow> [])
   @ (case uu_marina_ids body of Some mids \<Rightarrow> [''marinas='' @ ints_str (sort (remdups mids))] | None \<Rightarrow> [])"

definition update_body ::
  "nat \<Rightarrow> user_update \<Rightarrow> request \<Rightarrow> dtime \<Rightarrow> db \<Rightarrow> user \<Rightarrow> (http_error + user_out) \<times> db" where
  "update_body i body rq now d admin =
     (case get_user d i of
        Inl e \<Rightarrow> (Inl e, d)
      | Inr u \<Rightarrow>
          if u_id u = u_id admin \<and>
             ((truthy (uu_role body) \<and> uu_role body \<noteq> Some (u_role u)) \<or> uu_is_active body = Some False)
          then (Inl (Http 409 ''An admin cannot change their own role or disable themselves''), d)
          else if u_role u = ''admin'' \<and> (uu_role body = Some ''marina_manager'' \<or> uu_is_active body = Some False)
             \<and> other_active_admins d u = 0
          then (Inl (Http 409 ''The last active admin cannot be removed''), d)
          else (let u' = changed_user body u; d1 = set_user u' d
                in case (case uu_marina_ids body of None \<Rightarrow> Inr d1 | Some mids \<Rightarrow> set_marinas u' mids admin now d1) of
                     Inl e \<Rightarrow> (Inl e, d)
                   | Inr d2 \<Rightarrow>
                       (let d3 = (if u_role u' = ''admin'' then drop_access (u_id u') d2 else d2);
                            d4 = (if user_changes body u = [] then d3
                                  else audit ''user_updated'' (Some u') None (Some (join_with ''; '' (user_changes body u)))
                                         (Some admin) (rq_ip rq) now d3)
                        in (Inr (user_out_of d4 u' now), d4))))"

definition link_body ::
  "settings \<Rightarrow> 't crypto \<Rightarrow> nat \<Rightarrow> string \<Rightarrow> request \<Rightarrow> dtime \<Rightarrow> db \<Rightarrow> user \<Rightarrow> (http_error + string \<times> dtime) \<times> db" where
  "link_body cfg cr i raw rq now d admin =
     (case get_user d i of
        Inl e \<Rightarrow> (Inl e, d)
      | Inr u \<Rightarrow>
          (case issue_setup_link cfg cr u (cfg_invite_link_hours cfg * 60) (Some admin) raw now d of
             (r, d1) \<Rightarrow> (Inr r, audit ''setup_link_issued'' (Some u) None None (Some admin) (rq_ip rq) now d1)))"

definition mfa_reset_body ::
  "nat \<Rightarrow> string \<Rightarrow> request \<Rightarrow> dtime \<Rightarrow> db \<Rightarrow> user \<Rightarrow> (http_error + user_out) \<times> db" where
  "mfa_reset_body i reason rq now d admin =
     (case get_user d i of
        Inl e \<Rightarrow> (Inl e, d)
      | Inr u \<Rightarrow>
          if u_id u = u_id admin
          then (Inl (Http 409 ''An admin cannot reset their own 2FA; another admin can''), d)
          else (let d1 = audit ''mfa_reset'' (Some u) None (Some reason) (Some admin) (rq_ip rq) now (reset_mfa u d)
                in (Inr (user_out_of d1 (clear_mfa u) now), d1)))"

definition unlock_body ::
  "nat \<Rightarrow> string \<Rightarrow> request \<Rightarrow> dtime \<Rightarrow> db \<Rightarrow> user \<Rightarrow> (http_error + user_out) \<times> db" where
  "unlock_body i reason rq now d admin =
     (case get_user d i of
        Inl e \<Rightarrow> (Inl e, d)
      | Inr u \<Rightarrow>
          (let u' = u\<lparr>u_locked_until := None, u_failed_count := 0\<rparr>;
               d1 = audit ''unlocked'' (Some u') None (Some reason) (Some admin) (rq_ip rq) now (set_user u' d)
           in (Inr (user_out_of d1 u' now), d1)))"

datatype user_op =
    CreateUser user_create string
  | UpdateUser nat user_update
  | NewSetupLink nat string
  | ResetMfa nat string
  | Unlock nat string

text \<open>What the request schemas accept (\<open>schemas/auth.py\<close>).\<close>

definition at_most :: "nat \<Rightarrow> string option \<Rightarrow> bool" where
  "at_most n s \<longleftrightarrow> (case s of None \<Rightarrow> True | Some x \<Rightarrow> char_count x \<le> n)"

definition reason_ok :: "string \<Rightarrow> bool" where
  "reason_ok r \<longleftrightarrow> 3 \<le> char_count r \<and> char_count r \<le> 500"

fun schema_ok :: "user_op \<Rightarrow> bool" where
  "schema_ok (CreateUser body raw) \<longleftrightarrow> 3 \<le> char_count (uc_email body) \<and> char_count (uc_email body) \<le> 320
     \<and> at_most 200 (uc_full_name body) \<and> uc_role body \<in> set ROLES"
| "schema_ok (UpdateUser i body) \<longleftrightarrow> at_most 200 (uu_full_name body)
     \<and> (uu_role body = None \<or> uu_role body \<in> Some ` set ROLES)"
| "schema_ok (NewSetupLink i raw) \<longleftrightarrow> True"
| "schema_ok (ResetMfa i reason) \<longleftrightarrow> reason_ok reason"
| "schema_ok (Unlock i reason) \<longleftrightarrow> reason_ok reason"

text \<open>What a request to \<open>/api/users\<close> leaves behind, and whether it was answered 2xx.\<close>

definition answered :: "(http_error + 'a) \<times> db \<Rightarrow> (http_error + unit) \<times> db" where
  "answered r = (case r of (Inl e, d) \<Rightarrow> (Inl e, d) | (Inr _, d) \<Rightarrow> (Inr (), d))"

fun user_op_body :: "settings \<Rightarrow> 't crypto \<Rightarrow> user_op \<Rightarrow> request \<Rightarrow> dtime \<Rightarrow> db \<Rightarrow> user \<Rightarrow> (http_error + unit) \<times> db" where
  "user_op_body cfg cr (CreateUser body raw) rq now d admin = answered (create_body cfg cr body raw rq now d admin)"
| "user_op_body cfg cr (UpdateUser i body) rq now d admin = answered (update_body i body rq now d admin)"
| "user_op_body cfg cr (NewSetupLink i raw) rq now d admin = answered (link_body cfg cr i raw rq now d admin)"
| "user_op_body cfg cr (ResetMfa i reason) rq now d admin = answered (mfa_reset_body i reason rq now d admin)"
| "user_op_body cfg cr (Unlock i reason) rq now d admin = answered (unlock_body i reason rq now d admin)"

definition checked_op :: "settings \<Rightarrow> 't crypto \<Rightarrow> user_op \<Rightarrow> request \<Rightarrow> dtime \<Rightarrow> db \<Rightarrow> user \<Rightarrow> (http_error + unit) \<times> db" where
  "checked_op cfg cr op rq now d admin =
     (if schema_ok op then user_op_body cfg cr op rq now d admin else (Inl (Http 422 ''validation error''), d))"

definition user_op_request :: "settings \<Rightarrow> 't crypto \<Rightarrow> 't \<Rightarrow> user_op \<Rightarrow> request \<Rightarrow> dtime \<Rightarrow> db \<Rightarrow> (http_error + unit) \<times> db" where
  "user_op_request cfg cr tok op rq now d = guarded (require_admin cr d tok now) d (checked_op cfg cr op rq now d)"

section \<open>The first admin\<close>

definition setup_admin ::
  "settings \<Rightarrow> 't crypto \<Rightarrow> string \<Rightarrow> string option \<Rightarrow> string \<Rightarrow> dtime \<Rightarrow> db \<Rightarrow> int \<times> (string \<times> dtime) option \<times> db" where
  "setup_admin cfg cr email0 name raw now d =
     (let email = lower_str (strip email0);
          known = find (\<lambda>u. u_email u = email) (db_users d);
          fresh = new_user d email name ''admin'' now;
          u = or_else known fresh;
          d1 = (if known \<noteq> None then d
                else audit ''user_created'' (Some fresh) None (Some ''role=admin; cli'') None None now
                       (d\<lparr>db_users := db_users d @ [fresh]\<rparr>))
      in if known \<noteq> None \<and> u_role u \<noteq> ''admin'' then (2, None, d)
         else (case issue_setup_link cfg cr u (cfg_setup_link_minutes cfg) None raw now d1 of
             (r, d2) \<Rightarrow> (0, Some r, audit ''setup_link_issued'' (Some u) None (Some ''cli'') None None now d2)))"

section \<open>What the operations keep\<close>

definition active_admin :: "db \<Rightarrow> bool" where
  "active_admin d \<longleftrightarrow> (\<exists>u \<in> set (db_users d). u_role u = ''admin'' \<and> u_is_active u)"

text \<open>What changed in the users table, and the row of the audit that says so.\<close>

definition audited_by :: "user \<Rightarrow> db \<Rightarrow> db \<Rightarrow> bool" where
  "audited_by admin d d' \<longleftrightarrow> (\<exists>rows. db_auth_audit d' = db_auth_audit d @ rows
     \<and> (\<forall>r \<in> set rows. aa_actor_id r = Some (u_id admin))
     \<and> (db_users d' \<noteq> db_users d \<longrightarrow> rows \<noteq> []))"

lemma issue_frame:
  "issue_setup_link cfg cr u m by1 raw now d = (r, d') \<Longrightarrow>
     db_users d' = db_users d \<and> db_auth_audit d' = db_auth_audit d"
  by (auto simp: issue_setup_link_def Let_def)

lemma set_marinas_frame:
  "set_marinas u mids admin now d = Inr d' \<Longrightarrow> db_users d' = db_users d \<and> db_auth_audit d' = db_auth_audit d"
  by (auto simp: set_marinas_def Let_def drop_access_def split: if_splits)

lemma drop_access_frame [simp]:
  "db_users (drop_access i d) = db_users d" "db_auth_audit (drop_access i d) = db_auth_audit d"
  by (simp_all add: drop_access_def)

lemma drop_codes_frame [simp]:
  "db_users (drop_backup_codes i d) = db_users d" "db_auth_audit (drop_backup_codes i d) = db_auth_audit d"
  by (simp_all add: drop_backup_codes_def)

lemma set_user_audit [simp]: "db_auth_audit (set_user u d) = db_auth_audit d"
  by (simp add: set_user_def)

lemma require_admin_is:
  assumes "require_admin cr d tok now = Inr admin"
  shows "user_of d (u_id admin) = Some admin \<and> u_role admin = ''admin'' \<and> u_is_active admin"
proof -
  from assms have g: "get_current_user cr d tok now = Inr admin" "u_role admin = ''admin''"
    by (auto simp: require_admin_def sbind_Inr split: if_splits)
  from g(1) have "u_is_active admin" by (rule current_user_claims)
  with g get_current_user_of[OF g(1)] show ?thesis by simp
qed

lemma set_user_keeps_other:
  "a \<in> set (db_users d) \<Longrightarrow> u_id v \<noteq> u_id a \<Longrightarrow> a \<in> set (db_users (set_user v d))"
  by (force simp: set_user_def set_update_where)

text \<open>The acting admin's own row after a change of another row, or of its own harmless columns.\<close>

lemma admin_kept:
  assumes "admin \<in> set (db_users d)" "u_role admin = ''admin''" "u_is_active admin"
    and "u_id v = u_id admin \<Longrightarrow> u_role v = ''admin'' \<and> u_is_active v"
  shows "active_admin (set_user v d)"
proof (cases "u_id v = u_id admin")
  case True
  then have "v \<in> set (db_users (set_user v d))" using assms(1) by (force simp: set_user_def set_update_where)
  with True assms(4) show ?thesis by (auto simp: active_admin_def)
next
  case False
  from set_user_keeps_other[OF assms(1) False] assms(2,3) show ?thesis by (auto simp: active_admin_def)
qed

lemma active_admin_frame: "db_users d' = db_users d \<Longrightarrow> active_admin d' = active_admin d"
  by (simp add: active_admin_def)

lemma set_user_same:
  assumes "distinct (map u_id (db_users d))" and "user_of d (u_id u) = Some u"
  shows "set_user u d = d"
proof -
  have "update_where (\<lambda>x. u_id x = u_id u) (\<lambda>_. u) (db_users d) = db_users d"
    using assms(2) user_of_member[OF assms(1)] by (intro update_where_id) (metis option.inject)
  then show ?thesis by (simp add: set_user_def)
qed

lemma no_changes_same: "user_changes body u = [] \<Longrightarrow> changed_user body u = u"
  by (auto simp: user_changes_def changed_user_def or_else_def split: option.splits if_splits)

lemma u_id_changed [simp]: "u_id (changed_user body u) = u_id u"
  by (simp add: changed_user_def)

lemma get_user_of: "get_user d i = Inr u \<Longrightarrow> user_of d (u_id u) = Some u"
  by (auto simp: get_user_def split: option.splits dest: user_of_id)

definition op_keeps :: "user \<Rightarrow> db \<Rightarrow> (http_error + 'a) \<Rightarrow> db \<Rightarrow> bool" where
  "op_keeps admin d r d' \<longleftrightarrow> active_admin d' \<and> audited_by admin d d' \<and> ((\<exists>e. r = Inl e) \<longrightarrow> d' = d)"

definition acting :: "user \<Rightarrow> db \<Rightarrow> bool" where
  "acting admin d \<longleftrightarrow> user_of d (u_id admin) = Some admin \<and> u_role admin = ''admin'' \<and> u_is_active admin
     \<and> distinct (map u_id (db_users d))"

lemma actingD:
  assumes "acting admin d"
  shows "admin \<in> set (db_users d)" "u_role admin = ''admin''" "u_is_active admin"
    "user_of d (u_id admin) = Some admin" "distinct (map u_id (db_users d))"
  using assms user_of_id[of d "u_id admin" admin] by (auto simp: acting_def)

lemma acting_same:
  assumes "acting admin d" and "get_user d i = Inr u" and "u_id u = u_id admin"
  shows "u = admin"
  using get_user_of[OF assms(2)] actingD(4)[OF assms(1)] assms(3) by (metis option.inject)

lemma keeps_same: "acting admin d \<Longrightarrow> d' = d \<Longrightarrow> op_keeps admin d r d'"
  using actingD by (fastforce simp: op_keeps_def active_admin_def audited_by_def)

lemma create_keeps:
  assumes act: "acting admin d" and body: "create_body cfg cr body raw rq now d admin = (r, d')"
  shows "op_keeps admin d r d'"
proof (cases r)
  case (Inl e)
  with body have "d' = d" by (auto simp: create_body_def Let_def split: if_splits sum.splits prod.splits)
  with act show ?thesis by (rule keeps_same)
next
  case (Inr x)
  define u where "u = new_user d (lower_str (strip (uc_email body))) (uc_full_name body) (uc_role body) now"
  define d1 where "d1 = d\<lparr>db_users := db_users d @ [u]\<rparr>"
  have d1: "db_users d1 = db_users d @ [u]" "db_auth_audit d1 = db_auth_audit d" by (simp_all add: d1_def)
  obtain d2 where d2: "grant_if_manager (uc_role body) u (uc_marina_ids body) admin now d1 = Inr d2"
    using body Inr
    by (cases "grant_if_manager (uc_role body) u (uc_marina_ids body) admin now d1")
      (simp_all add: create_body_def Let_def flip: u_def d1_def split: if_splits)
  then have f2: "db_users d2 = db_users d1" "db_auth_audit d2 = db_auth_audit d1"
    by (auto simp: grant_if_manager_def split: if_splits dest: set_marinas_frame)
  obtain lk till d3 where d3: "issue_setup_link cfg cr u (cfg_invite_link_hours cfg * 60) (Some admin) raw now d2 = ((lk, till), d3)"
    by (metis surj_pair)
  have d': "d' = audit ''setup_link_issued'' (Some u) None None (Some admin) (rq_ip rq) now
      (audit ''user_created'' (Some u) None (Some (''role='' @ uc_role body)) (Some admin) (rq_ip rq) now d3)"
    using body Inr d2 d3 by (simp add: create_body_def Let_def flip: u_def d1_def split: if_splits)
  from issue_frame[OF d3] d1 f2 have "db_users d' = db_users d @ [u]" by (simp add: d')
  then have "active_admin d'" using actingD[OF act] by (auto simp: active_admin_def)
  moreover from issue_frame[OF d3] d1 f2 have "audited_by admin d d'" by (simp add: d' audited_by_def audit_def)
  ultimately show ?thesis using Inr by (simp add: op_keeps_def)
qed

lemma update_keeps:
  assumes act: "acting admin d" and body: "update_body i body rq now d admin = (r, d')"
    and role: "uu_role body \<noteq> Some []"
  shows "op_keeps admin d r d'"
proof (cases r)
  case (Inl e)
  with body have "d' = d" by (auto simp: update_body_def Let_def split: if_splits sum.splits option.splits)
  with act show ?thesis by (rule keeps_same)
next
  case (Inr x)
  with body obtain u where u: "get_user d i = Inr u" by (auto simp: update_body_def split: sum.splits)
  let ?v = "changed_user body u"
  let ?d1 = "set_user ?v d"
  note mine = get_user_of[OF u]
  have not_self: "\<not> (u_id u = u_id admin \<and>
      ((truthy (uu_role body) \<and> uu_role body \<noteq> Some (u_role u)) \<or> uu_is_active body = Some False))"
  proof
    assume "u_id u = u_id admin \<and>
      ((truthy (uu_role body) \<and> uu_role body \<noteq> Some (u_role u)) \<or> uu_is_active body = Some False)"
    then have "update_body i body rq now d admin = (Inl (Http 409 ''An admin cannot change their own role or disable themselves''), d)"
      unfolding update_body_def u by (simp del: not_None_eq)
    with body Inr show False by simp
  qed
  have v: "u_role ?v = ''admin'' \<and> u_is_active ?v" if "u_id ?v = u_id admin"
  proof -
    from that have self: "u_id u = u_id admin" by simp
    with not_self role have "uu_role body = None \<or> uu_role body = Some (u_role u)"
      and "uu_is_active body = None \<or> uu_is_active body = Some True"
      by (cases "uu_role body"; cases "uu_is_active body"; simp add: truthy_def)+
    with acting_same[OF act u self] actingD(2,3)[OF act] show ?thesis
      by (elim disjE) (simp_all add: changed_user_def)
  qed
  obtain d3 where d3: "db_users d3 = db_users ?d1" "db_auth_audit d3 = db_auth_audit ?d1"
    and d': "d' = (if user_changes body u = [] then d3
        else audit ''user_updated'' (Some ?v) None (Some (join_with ''; '' (user_changes body u))) (Some admin) (rq_ip rq) now d3)"
  proof -
    have "\<exists>d2. (case uu_marina_ids body of None \<Rightarrow> Inr ?d1 | Some mids \<Rightarrow> set_marinas ?v mids admin now ?d1) = Inr d2"
      using body Inr u by (simp add: update_body_def Let_def split: if_splits sum.splits)
    then obtain d2 where d2: "(case uu_marina_ids body of None \<Rightarrow> Inr ?d1 | Some mids \<Rightarrow> set_marinas ?v mids admin now ?d1) = Inr d2"
      by blast
    then have f2: "db_users d2 = db_users ?d1" "db_auth_audit d2 = db_auth_audit ?d1"
      by (cases "uu_marina_ids body"; auto dest: set_marinas_frame)+
    from body Inr u d2 have "d' = (let d3 = (if u_role ?v = ''admin'' then drop_access (u_id ?v) d2 else d2)
       in if user_changes body u = [] then d3
        else audit ''user_updated'' (Some ?v) None (Some (join_with ''; '' (user_changes body u))) (Some admin) (rq_ip rq) now d3)"
      by (simp add: update_body_def Let_def split: if_splits)
    with f2 show ?thesis by (intro that[of "if u_role ?v = ''admin'' then drop_access (u_id ?v) d2 else d2"]) (simp_all add: Let_def)
  qed
  have users: "db_users d' = db_users ?d1" by (simp add: d' d3)
  then have "active_admin d'" using admin_kept[OF actingD(1-3)[OF act] v] active_admin_frame by blast
  moreover have "audited_by admin d d'"
  proof (cases "user_changes body u = []")
    case True
    with no_changes_same[OF True] mine actingD(5)[OF act] have "set_user ?v d = d" by (simp add: set_user_same)
    with True users d3 show ?thesis by (simp add: audited_by_def d')
  next
    case False
    then show ?thesis by (simp add: audited_by_def d' d3 audit_def)
  qed
  ultimately show ?thesis using Inr by (simp add: op_keeps_def)
qed

lemma link_keeps:
  assumes act: "acting admin d" and body: "link_body cfg cr i raw rq now d admin = (r, d')"
  shows "op_keeps admin d r d'"
proof (cases "get_user d i")
  case (Inl e)
  with body have "d' = d" by (simp add: link_body_def)
  with act show ?thesis by (rule keeps_same)
next
  case (Inr u)
  obtain x d1 where d1: "issue_setup_link cfg cr u (cfg_invite_link_hours cfg * 60) (Some admin) raw now d = (x, d1)"
    by (metis surj_pair)
  with body Inr have r: "r = Inr x" "d' = audit ''setup_link_issued'' (Some u) None None (Some admin) (rq_ip rq) now d1"
    by (auto simp: link_body_def)
  from issue_frame[OF d1] keeps_same[OF act refl, of r] show ?thesis
    by (auto simp: op_keeps_def r active_admin_def audited_by_def audit_def)
qed

lemma reset_keeps:
  assumes act: "acting admin d" and body: "mfa_reset_body i reason rq now d admin = (r, d')"
  shows "op_keeps admin d r d'"
proof (cases "\<exists>u. get_user d i = Inr u \<and> u_id u \<noteq> u_id admin")
  case False
  with body have "d' = d" by (auto simp: mfa_reset_body_def split: sum.splits if_splits)
  with act show ?thesis by (rule keeps_same)
next
  case True
  then obtain u where u: "get_user d i = Inr u" "u_id u \<noteq> u_id admin" by blast
  let ?d1 = "audit ''mfa_reset'' (Some u) None (Some reason) (Some admin) (rq_ip rq) now (reset_mfa u d)"
  from body u have d': "d' = ?d1" and r: "\<exists>x. r = Inr x" by (auto simp: mfa_reset_body_def Let_def)
  have "active_admin (set_user (clear_mfa u) d)"
    by (rule admin_kept[OF actingD(1-3)[OF act]]) (use u in simp)
  then have "active_admin d'" by (simp add: d' reset_mfa_def active_admin_def)
  moreover have "audited_by admin d d'" by (simp add: d' reset_mfa_def audited_by_def audit_def)
  ultimately show ?thesis using r by (auto simp: op_keeps_def)
qed

lemma unlock_keeps:
  assumes act: "acting admin d" and body: "unlock_body i reason rq now d admin = (r, d')"
  shows "op_keeps admin d r d'"
proof (cases "get_user d i")
  case (Inl e)
  with body have "d' = d" by (simp add: unlock_body_def)
  with act show ?thesis by (rule keeps_same)
next
  case (Inr u)
  let ?v = "u\<lparr>u_locked_until := None, u_failed_count := 0\<rparr>"
  from body Inr have r: "\<exists>x. r = Inr x"
    and d': "d' = audit ''unlocked'' (Some ?v) None (Some reason) (Some admin) (rq_ip rq) now (set_user ?v d)"
    by (auto simp: unlock_body_def Let_def)
  have "u_role ?v = ''admin'' \<and> u_is_active ?v" if "u_id ?v = u_id admin"
  proof -
    from that have "u = admin" by (intro acting_same[OF act Inr]) simp
    with actingD(2,3)[OF act] show ?thesis by simp
  qed
  from admin_kept[OF actingD(1-3)[OF act] this] have "active_admin d'" by (simp add: d' active_admin_def)
  moreover have "audited_by admin d d'" by (simp add: d' audited_by_def audit_def)
  ultimately show ?thesis using r by (auto simp: op_keeps_def)
qed

lemma answered_keeps: "op_keeps admin d (fst x) (snd x) \<Longrightarrow> op_keeps admin d (fst (answered x)) (snd (answered x))"
  by (auto simp: answered_def op_keeps_def split: prod.splits sum.splits)

lemma checked_op_keeps:
  assumes "acting admin d"
  shows "op_keeps admin d (fst (checked_op cfg cr op rq now d admin)) (snd (checked_op cfg cr op rq now d admin))"
proof (cases "schema_ok op")
  case False
  with keeps_same[OF assms refl] show ?thesis by (simp add: checked_op_def)
next
  case True
  have "op_keeps admin d (fst (user_op_body cfg cr op rq now d admin)) (snd (user_op_body cfg cr op rq now d admin))"
  proof (cases op)
    case (CreateUser body raw)
    then show ?thesis using answered_keeps[OF create_keeps[OF assms surjective_pairing]] by simp
  next
    case (UpdateUser i body)
    with True have "uu_role body \<noteq> Some []" by (auto simp: ROLES_def)
    with UpdateUser answered_keeps[OF update_keeps[OF assms surjective_pairing]] show ?thesis by simp
  next
    case (NewSetupLink i raw)
    then show ?thesis using answered_keeps[OF link_keeps[OF assms surjective_pairing]] by simp
  next
    case (ResetMfa i reason)
    then show ?thesis using answered_keeps[OF reset_keeps[OF assms surjective_pairing]] by simp
  next
    case (Unlock i reason)
    then show ?thesis using answered_keeps[OF unlock_keeps[OF assms surjective_pairing]] by simp
  qed
  with True show ?thesis by (simp add: checked_op_def)
qed


text \<open>An Admin's reset of someone's second factor ends that person's sessions: until they enrol
  again no token opens anything for them, and afterwards only tokens with the new stamp do.\<close>

lemma mfa_reset_ends_sessions:
  assumes "mfa_reset_body i reason rq now d admin = (Inr out, d')"
    and "get_current_user cr d' tok later = Inr v"
  shows "u_id v \<noteq> i"
proof
  assume v: "u_id v = i"
  from assms(1) obtain u where u: "get_user d i = Inr u"
    and d': "d' = audit ''mfa_reset'' (Some u) None (Some reason) (Some admin) (rq_ip rq) now (reset_mfa u d)"
    by (auto simp: mfa_reset_body_def Let_def split: sum.splits if_splits)
  have frame: "user_of (drop_backup_codes j e) k = user_of e k" for j e k
    by (simp add: user_of_def)
  from get_user_of[OF u] u have i: "u_id u = i" "user_of d i = Some u"
    by (auto simp: get_user_def split: option.splits dest: user_of_id)
  then have "user_of d' i = Some (clear_mfa u)" by (simp add: d' reset_mfa_def frame user_of_set_user)
  moreover from get_current_user_of[OF assms(2)] v have "user_of d' i = Some v" by simp
  ultimately have "u_totp_confirmed_at v = None" by (auto simp: clear_mfa_def)
  moreover from assms(2) obtain p where "full_token_matches v p" by (rule current_user_claims)
  ultimately show False by (simp add: full_token_matches_def)
qed

section \<open>A concrete change\<close>

definition two_users_db :: db where
  "two_users_db = account_db\<lparr>db_users := [sample_user,
     sample_user\<lparr>u_id := 2, u_email := ''m@b.hr'', u_role := ''marina_manager'', u_totp_confirmed_at := None\<rparr>]\<rparr>"

definition disable_second :: user_op where
  "disable_second = UpdateUser 2 \<lparr>uu_full_name = None, uu_role = None, uu_is_active = Some False, uu_marina_ids = None\<rparr>"


end
