(* ===== verification/Webhooks.thy ===== *)
theory Webhooks
  imports Cabinet_Client Auth
begin

text \<open>
  \<open>routers/webhooks.py\<close>: what cabinets send. The receiver per cabinet checks its key (and its
  signature, where switched on) before it looks at the body, refuses shapes it does not know,
  and writes sessions through the same function as the pull, but never as final. The older
  receiver per marina is signed with the marina's secret. A handler maps the database to the
  answer, the database after its commits and the messages broadcast.

  \<open>json.loads\<close>, \<open>float(str)\<close>, \<open>str(value)\<close>, the HMAC hex digest and what the database makes of
  a JSON value bound to an INTEGER column are an environment; every theorem holds for any of
  them. The sockets behind a broadcast are not modelled.
\<close>

record hook_env =
  he_loads :: "string \<Rightarrow> json option"
  he_hmac :: "string \<Rightarrow> string \<Rightarrow> string"
  he_int_column :: "json \<Rightarrow> int option"
  he_float :: "string \<Rightarrow> rat option"
  he_str :: "json \<Rightarrow> string"

record hook_request =
  hq_request :: request
  hq_content_length :: "string option"
  hq_body :: string
  hq_api_key :: string
  hq_signature :: string

type_synonym broadcast = "nat \<times> json"
type_synonym hook_result = "(http_error + json) \<times> db \<times> broadcast list"

section \<open>Who may write\<close>

text \<open>\<open>_capped_body\<close>. A header of superscript digits is a digit string for \<open>isdigit\<close> but not
  for \<open>int\<close>.\<close>

definition too_large :: http_error where "too_large = Http 413 ''Webhook body too large''"

definition capped_body :: "settings \<Rightarrow> hook_request \<Rightarrow> http_error + string" where
  "capped_body cfg rq =
     (let cap = cfg_webhook_max_body_bytes cfg; declared = or_else (hq_content_length rq) [] in
      if py_isdigit declared \<and> \<not> all_digits declared then Inl http_error.Crash
      else if py_isdigit declared \<and> cap < int (read_nat declared) then Inl too_large
      else if cap < int (length (hq_body rq)) then Inl too_large
      else Inr (hq_body rq))"

definition verify_signature :: "hook_env \<Rightarrow> string \<Rightarrow> string \<Rightarrow> string \<Rightarrow> http_error + bool" where
  "verify_signature env secret body sig =
     (case compare_digest (''sha256='' @ he_hmac env secret body) sig of
        Inl _ \<Rightarrow> Inl http_error.Crash | Inr same \<Rightarrow> Inr same)"

definition REFUSED :: string where "REFUSED = ''Invalid or missing webhook credentials''"
definition NO_KEY :: string where "NO_KEY = CHR 0x00 # ''no-key'' @ [CHR 0x00]"

definition refused :: http_error where "refused = Http 401 REFUSED"

definition cabinet_at :: "db \<Rightarrow> nat \<Rightarrow> cabinet option" where
  "cabinet_at d i = find (\<lambda>c. cab_id c = i) (db_cabinets d)"

definition decrypted :: "'t crypto \<Rightarrow> string option \<Rightarrow> string option" where
  "decrypted cr enc = Option.bind enc (cr_decrypt cr)"

definition expected_key :: "'t crypto \<Rightarrow> cabinet option \<Rightarrow> string option" where
  "expected_key cr cab = (case cab of
     None \<Rightarrow> None
   | Some c \<Rightarrow> if truthy (cab_webhook_key_enc c) then decrypted cr (cab_webhook_key_enc c) else None)"

definition signature_ok :: "'t crypto \<Rightarrow> hook_env \<Rightarrow> cabinet \<Rightarrow> string \<Rightarrow> string \<Rightarrow> http_error + unit" where
  "signature_ok cr env cab sig body =
     (if \<not> cab_webhook_hmac cab then Inr ()
      else case decrypted cr (cab_webhook_secret_enc cab) of
        None \<Rightarrow> Inl refused
      | Some secret \<Rightarrow>
          if secret = [] \<or> sig = [] then Inl refused
          else sbind (verify_signature env secret body sig)
                 (\<lambda>same. if same then Inr () else Inl refused))"

definition cabinet_authenticated ::
    "'t crypto \<Rightarrow> hook_env \<Rightarrow> db \<Rightarrow> nat \<Rightarrow> string \<Rightarrow> string \<Rightarrow> string \<Rightarrow> http_error + cabinet" where
  "cabinet_authenticated cr env d cid api_key sig body =
     (let cab = cabinet_at d cid; expected = expected_key cr cab;
          same = ((case expected of None \<Rightarrow> NO_KEY | Some k \<Rightarrow> if k = [] then NO_KEY else k) = api_key)
      in if \<not> same \<or> api_key = [] \<or> expected = None then Inl refused
         else (case cab of
                 None \<Rightarrow> Inl refused
               | Some c \<Rightarrow> sbind (signature_ok cr env c sig body) (\<lambda>_. Inr c)))"

section \<open>The receiver per marina\<close>

definition is_pedestal :: "nat \<Rightarrow> int \<Rightarrow> pedestal_cache \<Rightarrow> bool" where
  "is_pedestal mid pid r \<longleftrightarrow> pc_marina_id r = mid \<and> pc_pedestal_id r = Some pid"

definition blank_pedestal :: "nat \<Rightarrow> int \<Rightarrow> db \<Rightarrow> pedestal_cache" where
  "blank_pedestal mid pid d = \<lparr>pc_id = next_id pc_id (db_cache d), pc_marina_id = mid,
     pc_pedestal_id = Some pid, pc_cache_key = None, pc_last_seen_data = JNull, pc_last_synced_at = None,
     pc_is_stale = False, pc_last_temperature = None, pc_last_temperature_alarm = None,
     pc_last_temperature_at = None, pc_last_readings = None\<rparr>"

text \<open>The row of a pedestal changed, or a new one with the change made on it.\<close>

definition put_pedestal :: "nat \<Rightarrow> int \<Rightarrow> (pedestal_cache \<Rightarrow> pedestal_cache) \<Rightarrow> db \<Rightarrow> db" where
  "put_pedestal mid pid f d =
     (if list_ex (is_pedestal mid pid) (db_cache d)
      then d\<lparr>db_cache := update_first (is_pedestal mid pid) f (db_cache d)\<rparr>
      else d\<lparr>db_cache := db_cache d @ [f (blank_pedestal mid pid d)]\<rparr>)"

text \<open>A write the database refuses is logged and undone.\<close>

definition put_column :: "hook_env \<Rightarrow> json \<Rightarrow> (int \<Rightarrow> db \<Rightarrow> db) \<Rightarrow> db \<Rightarrow> db" where
  "put_column env v f d = (case he_int_column env v of None \<Rightarrow> d | Some i \<Rightarrow> f i d)"

text \<open>\<open>pedestal_id or 0\<close>.\<close>

definition or_zero :: "json \<Rightarrow> json" where
  "or_zero v = (if jtrue v then v else JInt 0)"

definition seen_now :: "json \<Rightarrow> dtime \<Rightarrow> pedestal_cache \<Rightarrow> pedestal_cache" where
  "seen_now payload now r = r\<lparr>pc_last_seen_data := payload, pc_last_synced_at := Some now, pc_is_stale := False\<rparr>"

definition hook_update_cache :: "hook_env \<Rightarrow> nat \<Rightarrow> json \<Rightarrow> json \<Rightarrow> dtime \<Rightarrow> db \<Rightarrow> db" where
  "hook_update_cache env mid pj payload now d =
     (if \<not> jtrue pj then d
      else put_column env pj (\<lambda>pid. put_pedestal mid pid (seen_now payload now)) d)"

definition item_or :: "(string \<times> json) list \<Rightarrow> string \<Rightarrow> json \<Rightarrow> json" where
  "item_or ob k v = (if has_key ob k then jget ob k else v)"

text \<open>\<open>float(v)\<close>; \<open>None\<close> is a \<open>TypeError\<close> or a \<open>ValueError\<close>.\<close>

definition py_float :: "hook_env \<Rightarrow> json \<Rightarrow> rat option" where
  "py_float env v = (case v of
     JInt i \<Rightarrow> Some (fl (of_int i)) | JBool b \<Rightarrow> Some (if b then 1 else 0) | JFloat x \<Rightarrow> Some x
   | JStr s \<Rightarrow> he_float env s | _ \<Rightarrow> None)"

definition warm_now :: "rat \<Rightarrow> bool \<Rightarrow> dtime \<Rightarrow> pedestal_cache \<Rightarrow> pedestal_cache" where
  "warm_now value alarm now r = r\<lparr>pc_last_temperature := Some value,
     pc_last_temperature_alarm := Some alarm, pc_last_temperature_at := Some now\<rparr>"

definition hook_update_temperature ::
    "hook_env \<Rightarrow> nat \<Rightarrow> json \<Rightarrow> (string \<times> json) list \<Rightarrow> dtime \<Rightarrow> db \<Rightarrow> http_error + db" where
  "hook_update_temperature env mid pj payload now d =
     (case item_or payload ''data'' (JObj payload) of
        JObj data \<Rightarrow>
          (case py_float env (item_or data ''value'' (item_or data ''temperature'' (JInt 0))) of
             None \<Rightarrow> Inr d
           | Some value \<Rightarrow> Inr (put_column env (or_zero pj)
               (\<lambda>pid. put_pedestal mid pid (warm_now value (jtrue (jget data ''alarm'')) now)) d))
      | _ \<Rightarrow> Inl http_error.Crash)"

text \<open>\<open>ob[k] = v\<close>.\<close>

fun put_item :: "string \<Rightarrow> json \<Rightarrow> (string \<times> json) list \<Rightarrow> (string \<times> json) list" where
  "put_item k v [] = [(k, v)]"
| "put_item k v ((k', v') # ob) = (if k' = k then (k, v) # ob else (k', v') # put_item k v ob)"

definition SENSOR_EVENTS :: "string list" where
  "SENSOR_EVENTS = [''power_reading'', ''water_reading'', ''moisture_reading'', ''temperature_reading'',
     ''heartbeat'', ''pedestal_health_updated'']"

definition hook_reading :: "string \<Rightarrow> (string \<times> json) list \<Rightarrow> dtime \<Rightarrow> json" where
  "hook_reading ev data now =
     (let at1 = (''at'', JStr (iso_str now)); item = (\<lambda>k. (k, jget data k));
          alarm = (''alarm'', item_or data ''alarm'' (JBool False))
      in if ev = ''power_reading''
         then JObj [item ''watts'', item ''kwh_total'', item ''socket_id'', at1]
         else if ev = ''water_reading'' then JObj [item ''lpm'', item ''total_liters'', at1]
         else if ev = ''moisture_reading'' \<or> ev = ''temperature_reading''
         then JObj [item ''value'', alarm, at1]
         else JObj (foldl (\<lambda>ob (k, v). put_item k v ob) [at1] (filter (\<lambda>(k, _). k \<noteq> ''pedestal_id'') data)))"

definition read_now :: "string \<Rightarrow> json \<Rightarrow> pedestal_cache \<Rightarrow> pedestal_cache" where
  "read_now ev reading r =
     r\<lparr>pc_last_readings := Some (put_item ev reading (or_else (pc_last_readings r) []))\<rparr>"

definition hook_update_readings ::
    "hook_env \<Rightarrow> nat \<Rightarrow> json \<Rightarrow> string \<Rightarrow> (string \<times> json) list \<Rightarrow> dtime \<Rightarrow> db \<Rightarrow> http_error + db" where
  "hook_update_readings env mid pj ev payload now d =
     (case item_or payload ''data'' (JObj payload) of
        JObj data \<Rightarrow> Inr (put_column env (or_zero pj)
          (\<lambda>pid. put_pedestal mid pid (read_now ev (hook_reading ev data now))) d)
      | _ \<Rightarrow> Inl http_error.Crash)"

definition add_alarm ::
    "nat \<Rightarrow> int \<Rightarrow> json \<Rightarrow> dtime \<Rightarrow> nat option \<Rightarrow> int option \<Rightarrow> string option \<Rightarrow> db \<Rightarrow> db" where
  "add_alarm mid pid data now cid aid source d = d\<lparr>db_alarm_log := db_alarm_log d @
     [\<lparr>al_id = next_id al_id (db_alarm_log d), al_marina_id = mid, al_pedestal_id = pid,
       al_alarm_data = data, al_received_at = now, al_acknowledged_at = None, al_acknowledged_by = None,
       al_cabinet_id = cid, al_cabinet_alarm_id = aid, al_source = source\<rparr>]\<rparr>"

definition add_session_log :: "nat \<Rightarrow> int \<Rightarrow> json \<Rightarrow> dtime \<Rightarrow> db \<Rightarrow> db" where
  "add_session_log mid pid data now d = d\<lparr>db_session_log := db_session_log d @
     [\<lparr>sl_id = next_id sl_id (db_session_log d), sl_marina_id = mid, sl_pedestal_id = pid,
       sl_session_data = data, sl_recorded_at = now\<rparr>]\<rparr>"

definition write_alarm_log :: "hook_env \<Rightarrow> nat \<Rightarrow> json \<Rightarrow> json \<Rightarrow> dtime \<Rightarrow> db \<Rightarrow> db" where
  "write_alarm_log env mid pj payload now =
     put_column env (or_zero pj) (\<lambda>pid. add_alarm mid pid payload now None None None)"

definition write_session_log :: "hook_env \<Rightarrow> nat \<Rightarrow> json \<Rightarrow> json \<Rightarrow> dtime \<Rightarrow> db \<Rightarrow> db" where
  "write_session_log env mid pj payload now =
     put_column env (or_zero pj) (\<lambda>pid. add_session_log mid pid payload now)"

text \<open>The event: its name (anything but a string has no \<open>lower\<close>) and what it leaves in the
  database, step by step; a step that raises keeps what was committed before it.\<close>

definition event_logs :: "hook_env \<Rightarrow> nat \<Rightarrow> json \<Rightarrow> string \<Rightarrow> json \<Rightarrow> dtime \<Rightarrow> db \<Rightarrow> db" where
  "event_logs env mid pj ev payload now d =
     (let d1 = (if contains (lower_str ev) ''alarm'' then write_alarm_log env mid pj payload now d else d)
      in if contains (lower_str ev) ''session'' then write_session_log env mid pj payload now d1 else d1)"

definition event_temperature ::
    "hook_env \<Rightarrow> nat \<Rightarrow> json \<Rightarrow> string \<Rightarrow> (string \<times> json) list \<Rightarrow> dtime \<Rightarrow> db \<Rightarrow> http_error + db" where
  "event_temperature env mid pj ev p now d =
     (if ev = ''temperature_reading'' then hook_update_temperature env mid pj p now d else Inr d)"

definition event_readings ::
    "hook_env \<Rightarrow> nat \<Rightarrow> json \<Rightarrow> string \<Rightarrow> (string \<times> json) list \<Rightarrow> dtime \<Rightarrow> db \<Rightarrow> http_error + db" where
  "event_readings env mid pj ev p now d =
     (if ev \<in> set SENSOR_EVENTS then hook_update_readings env mid pj ev p now d else Inr d)"

definition marina_event :: "hook_env \<Rightarrow> nat \<Rightarrow> (string \<times> json) list \<Rightarrow> dtime \<Rightarrow> db \<Rightarrow> (http_error + string) \<times> db" where
  "marina_event env mid p now d =
     (let ev = item_or p ''event_type'' (item_or p ''event'' (JStr ''unknown''));
          pj = item_or p ''pedestal_id'' (JInt 0);
          d1 = hook_update_cache env mid pj (JObj p) now d
      in case ev of
           JStr e \<Rightarrow>
             (let d2 = event_logs env mid pj e (JObj p) now d1 in
              case event_temperature env mid pj e p now d2 of
                Inl x \<Rightarrow> (Inl x, d2)
              | Inr d3 \<Rightarrow> (case event_readings env mid pj e p now d3 of
                             Inl x \<Rightarrow> (Inl x, d3) | Inr d4 \<Rightarrow> (Inr e, d4)))
         | _ \<Rightarrow> (Inl http_error.Crash, d1))"

definition marina_row :: "db \<Rightarrow> nat \<Rightarrow> marina option" where
  "marina_row d i = find (\<lambda>m. mar_id m = i) (db_marinas d)"

definition marina_authenticated ::
    "hook_env \<Rightarrow> db \<Rightarrow> nat \<Rightarrow> string \<Rightarrow> string \<Rightarrow> http_error + unit" where
  "marina_authenticated env d mid sig body = (case marina_row d mid of
     None \<Rightarrow> Inl (Http 404 ''Marina not found'')
   | Some m \<Rightarrow>
       if \<not> truthy (mar_webhook_secret m) then Inl (Http 401 ''Webhook not configured for this marina'')
       else if sig = [] then Inl (Http 401 ''Missing X-Webhook-Signature header'')
       else sbind (verify_signature env (or_else (mar_webhook_secret m) []) body sig)
              (\<lambda>same. if same then Inr () else Inl (Http 401 ''Invalid webhook signature'')))"

definition webhook_message :: "nat \<Rightarrow> (string \<times> json) list \<Rightarrow> string \<Rightarrow> json \<Rightarrow> dtime \<Rightarrow> broadcast" where
  "webhook_message mid extra ev payload now =
     (mid, JObj [(''event'', JStr ''webhook_event''),
       (''data'', JObj ([(''marina_id'', JInt (int mid))] @ extra @ [(''event_type'', JStr ev),
         (''payload'', payload), (''timestamp'', JStr (iso_str now))]))])"

definition receive_webhook ::
    "settings \<Rightarrow> hook_env \<Rightarrow> nat \<Rightarrow> hook_request \<Rightarrow> dtime \<Rightarrow> db \<Rightarrow> hook_result" where
  "receive_webhook cfg env mid rq now d =
     (case sbind (capped_body cfg rq) (\<lambda>body.
             sbind (marina_authenticated env d mid (hq_signature rq) body) (\<lambda>_. Inr body)) of
        Inl e \<Rightarrow> (Inl e, d, [])
      | Inr body \<Rightarrow>
          (case he_loads env body of
             None \<Rightarrow> (Inl (Http 400 ''Invalid JSON payload''), d, [])
           | Some (JObj p) \<Rightarrow>
               (case marina_event env mid p now d of
                  (Inl e, d1) \<Rightarrow> (Inl e, d1, [])
                | (Inr ev, d1) \<Rightarrow>
                    (Inr (JObj [(''received'', JBool True), (''event_type'', JStr ev)]), d1,
                     [webhook_message mid [] ev (JObj p) now]))
           | Some _ \<Rightarrow> (Inl http_error.Crash, d, [])))"

section \<open>The receiver per cabinet\<close>

definition SESSION_EVENTS :: "string list" where
  "SESSION_EVENTS = [''session_activated'', ''telemetry'', ''session_ended'']"

definition ALARM_EVENTS :: "string list" where
  "ALARM_EVENTS = [''hardware_alarm'', ''breaker_alarm'', ''meter_load_auto_stop'',
     ''meter_load_critical'', ''valve_flow_warning'', ''marina_door'']"

text \<open>\<open>repr\<close> of a string: single quotes unless it holds one and no double quote.\<close>

definition hex_digit :: "nat \<Rightarrow> char" where
  "hex_digit n = ''0123456789abcdef'' ! n"

definition repr_char :: "char \<Rightarrow> char \<Rightarrow> string" where
  "repr_char q c = (let n = (of_char c :: nat) in
     if c = q \<or> n = 92 then [CHR 0x5C, c]
     else if n = 10 then [CHR 0x5C, CHR ''n''] else if n = 13 then [CHR 0x5C, CHR ''r'']
     else if n = 9 then [CHR 0x5C, CHR ''t'']
     else if n < 32 \<or> n = 127 then [CHR 0x5C, CHR ''x'', hex_digit (n div 16), hex_digit (n mod 16)]
     else [c])"

definition repr_str :: "string \<Rightarrow> string" where
  "repr_str s =
     (let q = (if CHR 0x27 \<in> set s \<and> CHR 0x22 \<notin> set s then CHR 0x22 else CHR 0x27)
      in [q] @ concat (map (repr_char q) s) @ [q])"

definition shape_of :: "hook_env \<Rightarrow> string \<Rightarrow> json \<Rightarrow> string" where
  "shape_of env why payload =
     (let event = (case payload of JObj ob \<Rightarrow> jget ob ''event'' | _ \<Rightarrow> JNull);
          keys = (case payload of JObj ob \<Rightarrow> take 20 (sort (map (\<lambda>(k, _). cut 40 k) ob)) | _ \<Rightarrow> [])
      in why @ ''; event='' @ repr_str (cut 60 (he_str env event)) @ ''; keys=['' @
         join_with '', '' (map repr_str keys) @ '']'')"

definition refuse_shape :: "hook_env \<Rightarrow> cabinet \<Rightarrow> string \<Rightarrow> json \<Rightarrow> dtime \<Rightarrow> db \<Rightarrow> hook_result" where
  "refuse_shape env cab why payload now d =
     (Inl (Http 422 why),
      or_else (write_sync_log (Some d) (cab_marina_id cab) ''webhook.cabinet'' ''error'' now now
                 (Some (cut 500 (shape_of env why payload)))) d, [])"

text \<open>The session of the payload, then one commit: the database refuses two sessions of one
  cabinet under one number.\<close>

definition take_session :: "cabinet \<Rightarrow> json \<Rightarrow> json \<Rightarrow> dtime \<Rightarrow> db \<Rightarrow> http_error + string \<times> db" where
  "take_session cab payload data now d =
     (case apply_session (add_session_log (cab_marina_id cab) (cab_pedestal_pk cab) payload now d)
             cab data False now of
        Inl _ \<Rightarrow> Inl http_error.Crash
      | Inr (answer, d1) \<Rightarrow>
          if sorted_wrt session_apart (db_sessions d1)
          then Inr (''session_log; erp session: '' @ answer, d1) else Inl http_error.Crash)"

definition known_alarm :: "nat \<Rightarrow> int \<Rightarrow> alarm_log \<Rightarrow> bool" where
  "known_alarm cid aid a \<longleftrightarrow> al_cabinet_id a = Some cid \<and> al_cabinet_alarm_id a = Some aid"

text \<open>\<open>isinstance(v, int)\<close>; a \<open>bool\<close> is one.\<close>

fun is_int_json :: "json \<Rightarrow> bool" where
  "is_int_json (JInt _) = True"
| "is_int_json (JBool _) = True"
| "is_int_json _ = False"

definition take_alarm :: "hook_env \<Rightarrow> cabinet \<Rightarrow> json \<Rightarrow> (string \<times> json) list \<Rightarrow> dtime \<Rightarrow> db \<Rightarrow> http_error + string \<times> db" where
  "take_alarm env cab payload data now d =
     (let add = (\<lambda>aid. Inr (''alarm_log'', add_alarm (cab_marina_id cab) (cab_pedestal_pk cab) payload now
                  (Some (cab_id cab)) aid (Some ''webhook'') d))
      in if \<not> is_int_json (jget data ''id'') then add None
         else (case he_int_column env (jget data ''id'') of
                 None \<Rightarrow> Inl http_error.Crash
               | Some aid \<Rightarrow>
                   if list_ex (known_alarm (cab_id cab) aid) (db_alarm_log d)
                   then Inr (''alarm_log: already known'', d) else add (Some aid)))"

definition take_event ::
    "hook_env \<Rightarrow> cabinet \<Rightarrow> string \<Rightarrow> json \<Rightarrow> (string \<times> json) list \<Rightarrow> dtime \<Rightarrow> db \<Rightarrow> hook_result" where
  "take_event env cab ev payload data now d =
     (case (if ev \<in> set SESSION_EVENTS then take_session cab payload (JObj data) now d
            else take_alarm env cab payload data now d) of
        Inl e \<Rightarrow> (Inl e, d, [])
      | Inr (stored, d1) \<Rightarrow>
          (Inr (JObj [(''received'', JBool True), (''event'', JStr ev), (''stored'', JStr stored)]), d1,
           [webhook_message (cab_marina_id cab) [(''cabinet_id'', JInt (int (cab_id cab)))] ev payload now]))"

definition cabinet_event :: "hook_env \<Rightarrow> cabinet \<Rightarrow> json \<Rightarrow> dtime \<Rightarrow> db \<Rightarrow> hook_result" where
  "cabinet_event env cab payload now d = (case payload of
     JObj ob \<Rightarrow>
       (case jget ob ''event'' of
          JStr ev \<Rightarrow>
            if ev \<notin> set (SESSION_EVENTS @ ALARM_EVENTS) then refuse_shape env cab ''unknown event'' payload now d
            else (case jget ob ''data'' of
                    JObj data \<Rightarrow>
                      if ev \<in> set SESSION_EVENTS \<and> \<not> has_key data ''session_id''
                      then refuse_shape env cab ''session event without session_id in data'' payload now d
                      else take_event env cab ev payload data now d
                  | _ \<Rightarrow> refuse_shape env cab ''no data object'' payload now d)
        | _ \<Rightarrow> refuse_shape env cab ''no event'' payload now d)
   | _ \<Rightarrow> refuse_shape env cab ''no event'' payload now d)"

definition note_decoy :: "settings \<Rightarrow> hook_request \<Rightarrow> dtime \<Rightarrow> db \<Rightarrow> db" where
  "note_decoy cfg rq now d = (case decoy_key_name cfg (hq_api_key rq) of
     None \<Rightarrow> d | Some name \<Rightarrow> decoy_record ''api_key'' name (hq_request rq) now d)"

definition receive_cabinet_webhook ::
    "settings \<Rightarrow> 't crypto \<Rightarrow> hook_env \<Rightarrow> nat \<Rightarrow> hook_request \<Rightarrow> dtime \<Rightarrow> db \<Rightarrow> hook_result" where
  "receive_cabinet_webhook cfg cr env cid rq now d =
     (case capped_body cfg rq of
        Inl e \<Rightarrow> (Inl e, d, [])
      | Inr body \<Rightarrow>
          (let d1 = note_decoy cfg rq now d in
           case cabinet_authenticated cr env d1 cid (hq_api_key rq) (hq_signature rq) body of
             Inl e \<Rightarrow> (Inl e, d1, [])
           | Inr cab \<Rightarrow>
               (case he_loads env body of
                  None \<Rightarrow> (Inl (Http 400 ''Invalid JSON payload''), d1, [])
                | Some payload \<Rightarrow> cabinet_event env cab payload now d1)))"


section \<open>What a webhook can change\<close>

text \<open>The caller knows this cabinet's key and, where the cabinet signs, its secret. A stored key
  that decrypts to the empty string stands for \<open>NO_KEY\<close>, which the code compares against then.\<close>

definition genuine_hook :: "'t crypto \<Rightarrow> hook_env \<Rightarrow> db \<Rightarrow> nat \<Rightarrow> hook_request \<Rightarrow> bool" where
  "genuine_hook cr env d cid rq \<longleftrightarrow> (case cabinet_at d cid of
     None \<Rightarrow> False
   | Some cab \<Rightarrow>
       (case expected_key cr (Some cab) of
          None \<Rightarrow> False
        | Some k \<Rightarrow> hq_api_key rq \<noteq> [] \<and> hq_api_key rq = (if k = [] then NO_KEY else k))
     \<and> (cab_webhook_hmac cab \<longrightarrow>
         (case decrypted cr (cab_webhook_secret_enc cab) of
            None \<Rightarrow> False
          | Some s \<Rightarrow> s \<noteq> [] \<and> hq_signature rq = ''sha256='' @ he_hmac env s (hq_body rq))))"

lemma verify_signature_Inr: "verify_signature env s body sig = Inr True \<longleftrightarrow>
    is_ascii sig \<and> is_ascii (he_hmac env s body) \<and> sig = ''sha256='' @ he_hmac env s body"
  by (auto simp: verify_signature_def compare_digest_def is_ascii_def)

lemma authenticated_genuine_hook:
  assumes "cabinet_authenticated cr env d cid (hq_api_key rq) (hq_signature rq) (hq_body rq) = Inr cab"
  shows "genuine_hook cr env d cid rq \<and> cabinet_at d cid = Some cab"
  using assms
  by (auto simp: cabinet_authenticated_def genuine_hook_def signature_ok_def Let_def sbind_Inr verify_signature_Inr
      expected_key_def split: option.splits if_splits)

lemma refused_unless_crash:
  "cabinet_authenticated cr env d cid k sig body = Inl e \<Longrightarrow> e = refused \<or> e = http_error.Crash \<and> \<not> (is_ascii sig
     \<and> (\<forall>s. is_ascii (he_hmac env s body)))"
  by (auto simp: cabinet_authenticated_def signature_ok_def verify_signature_def compare_digest_def is_ascii_def
      sbind_def Let_def split: option.splits if_splits sum.splits)

lemma capped_body_Inr: "capped_body cfg rq = Inr body \<Longrightarrow> body = hq_body rq
    \<and> int (length body) \<le> cfg_webhook_max_body_bytes cfg"
  by (auto simp: capped_body_def Let_def split: if_splits)

definition hook_frame :: "db \<Rightarrow> db \<Rightarrow> bool" where
  "hook_frame d d' \<longleftrightarrow> (\<exists>h y l a s. d' = d\<lparr>db_decoy_hits := h, db_sync_log := y, db_session_log := l,
     db_alarm_log := a, db_sessions := s\<rparr>)"

lemma hook_frameI:
  "d' = d\<lparr>db_decoy_hits := h, db_sync_log := y, db_session_log := l, db_alarm_log := a, db_sessions := s\<rparr>
    \<Longrightarrow> hook_frame d d'"
  unfolding hook_frame_def by blast

lemma hook_frame_trans:
  assumes "hook_frame d d1" and "hook_frame d1 d'"
  shows "hook_frame d d'"
proof -
  obtain h y l a s where "d1 = d\<lparr>db_decoy_hits := h, db_sync_log := y, db_session_log := l,
     db_alarm_log := a, db_sessions := s\<rparr>" using assms(1) unfolding hook_frame_def by blast
  moreover obtain h' y' l' a' s' where "d' = d1\<lparr>db_decoy_hits := h', db_sync_log := y', db_session_log := l',
     db_alarm_log := a', db_sessions := s'\<rparr>" using assms(2) unfolding hook_frame_def by blast
  ultimately have "d' = d\<lparr>db_decoy_hits := h', db_sync_log := y', db_session_log := l',
     db_alarm_log := a', db_sessions := s'\<rparr>" by simp
  then show ?thesis by (rule hook_frameI)
qed

lemma hook_frame_steps [simp]:
  "hook_frame d d"
  "hook_frame d (d\<lparr>db_decoy_hits := x1\<rparr>)" "hook_frame d (d\<lparr>db_sync_log := x2\<rparr>)"
  "hook_frame d (d\<lparr>db_session_log := x3\<rparr>)" "hook_frame d (d\<lparr>db_alarm_log := x4\<rparr>)"
  "hook_frame d (d\<lparr>db_sessions := x5\<rparr>)"
proof -
  have same: "hook_frame d (d\<lparr>db_decoy_hits := h, db_sync_log := y, db_session_log := l, db_alarm_log := a, db_sessions := s\<rparr>)" for h y l a s by (rule hook_frameI[OF refl])
  show "hook_frame d d" using same[of "db_sessions d" "db_alarm_log d" "db_session_log d" "db_sync_log d" "db_decoy_hits d"] by simp
  show "hook_frame d (d\<lparr>db_decoy_hits := x1\<rparr>)"
    using same[of "db_sessions d" "db_alarm_log d" "db_session_log d" "db_sync_log d" x1] by simp
  show "hook_frame d (d\<lparr>db_sync_log := x2\<rparr>)"
    using same[of "db_sessions d" "db_alarm_log d" "db_session_log d" x2 "db_decoy_hits d"] by simp
  show "hook_frame d (d\<lparr>db_session_log := x3\<rparr>)"
    using same[of "db_sessions d" "db_alarm_log d" x3 "db_sync_log d" "db_decoy_hits d"] by simp
  show "hook_frame d (d\<lparr>db_alarm_log := x4\<rparr>)"
    using same[of "db_sessions d" x4 "db_session_log d" "db_sync_log d" "db_decoy_hits d"] by simp
  show "hook_frame d (d\<lparr>db_sessions := x5\<rparr>)"
    using same[of x5 "db_alarm_log d" "db_session_log d" "db_sync_log d" "db_decoy_hits d"] by simp
qed

text \<open>A session that is billed stays as it is, none becomes billed, none is marked reconciled.\<close>

definition unsettled :: "db \<Rightarrow> db \<Rightarrow> bool" where
  "unsettled d d' \<longleftrightarrow> list_all2 (\<lambda>s s'. ses_reconciled_at s' = ses_reconciled_at s
      \<and> (ses_billing_state s = ''billed'' \<longrightarrow> s' = s)
      \<and> (ses_billing_state s' = ''billed'' \<longrightarrow> ses_billing_state s = ''billed'')) (db_sessions d) (db_sessions d')"


lemma unsettled_same: "db_sessions d' = db_sessions d \<Longrightarrow> unsettled d d'"
  by (simp add: unsettled_def list_all2_same)

text \<open>The two things every step of a webhook is shown to keep.\<close>

definition hook_safe :: "db \<Rightarrow> db \<Rightarrow> bool" where
  "hook_safe d d' \<longleftrightarrow> hook_frame d d' \<and> (distinct (map ses_id (db_sessions d)) \<longrightarrow> unsettled d d')"

lemma hook_safe_same: "hook_frame d d' \<Longrightarrow> db_sessions d' = db_sessions d \<Longrightarrow> hook_safe d d'"
  by (simp add: hook_safe_def unsettled_same)

lemma unsettled_apply:
  assumes "apply_session d cab raw False now = Inr (answer, d')" and "distinct (map ses_id (db_sessions d))"
  shows "unsettled d d'"
  using assms(1)
proof (cases rule: apply_cases)
  case left
  then show ?thesis by (simp add: unsettled_same)
next
  case (updated ps s review activated)
  have s: "s \<in> set (db_sessions d)" using find_session_member[OF updated(2)] by simp
  have same: "r = s" if "r \<in> set (db_sessions d)" "ses_id r = ses_id s" for r
    using that s assms(2) by (auto simp: distinct_map dest: inj_onD)
  have row: "ses_reconciled_at (write_session ps review activated False now s) = ses_reconciled_at s"
    "ses_billing_state (write_session ps review activated False now s) \<noteq> ''billed''"
    using updated(3) by (simp_all add: write_session_fields)
  have ids: "ses_id r = ses_id s \<longleftrightarrow> r = s" if "r \<in> set (db_sessions d)" for r
    using same[OF that] by blast
  show ?thesis
    unfolding unsettled_def updated(7) update_where_def db.select_convs db.update_convs
    by (simp add: list_all2_map2 list_all2_same ids row updated(3) split: if_split)
qed

lemma take_session_safe:
  assumes "take_session cab payload data now d = Inr (stored, d')"
  shows "hook_safe d d'"
proof -
  let ?d0 = "add_session_log (cab_marina_id cab) (cab_pedestal_pk cab) payload now d"
  obtain answer where ap: "apply_session ?d0 cab data False now = Inr (answer, d')"
    using assms by (auto simp: take_session_def split: sum.splits prod.splits if_splits)
  have ses: "db_sessions ?d0 = db_sessions d" by (simp add: add_session_log_def)
  have "hook_frame ?d0 d'" using ap by (cases rule: apply_cases) simp_all
  moreover have "hook_frame d ?d0" by (simp add: add_session_log_def)
  ultimately have "hook_frame d d'" by (rule hook_frame_trans[rotated])
  with unsettled_apply[OF ap] ses show ?thesis by (simp add: hook_safe_def unsettled_def)
qed

lemma take_alarm_safe:
  "take_alarm env cab payload data now d = Inr (stored, d') \<Longrightarrow> hook_safe d d'"
  by (rule hook_safe_same) (auto simp: take_alarm_def add_alarm_def Let_def split: if_splits option.splits)

lemma take_event_safe: "take_event env cab ev payload data now d = (res, d', msgs) \<Longrightarrow> hook_safe d d'"
  by (auto simp: take_event_def hook_safe_same dest: take_session_safe take_alarm_safe
      split: sum.splits prod.splits if_splits)

lemma refuse_shape_safe: "refuse_shape env cab why payload now d = (res, d', msgs) \<Longrightarrow> hook_safe d d'"
  by (rule hook_safe_same) (auto simp: refuse_shape_def write_sync_log_def)

lemma cabinet_event_safe: "cabinet_event env cab payload now d = (res, d', msgs) \<Longrightarrow> hook_safe d d'"
  unfolding cabinet_event_def
  by (auto split: json.splits if_splits dest: take_event_safe refuse_shape_safe)

lemma note_decoy_frame: "hook_frame d (note_decoy cfg rq now d)"
  and note_decoy_tables [simp]: "db_sessions (note_decoy cfg rq now d) = db_sessions d"
    "db_cabinets (note_decoy cfg rq now d) = db_cabinets d"
    "db_alarm_log (note_decoy cfg rq now d) = db_alarm_log d"
  by (simp_all add: note_decoy_def decoy_record_def split: option.splits)

lemma genuine_note_decoy [simp]: "genuine_hook cr env (note_decoy cfg rq now d) = genuine_hook cr env d"
  by (intro ext) (simp add: genuine_hook_def cabinet_at_def)

text \<open>The steps of the receiver: a body too large, credentials refused, or an event.\<close>

lemma cabinet_webhook_cases:
  assumes "receive_cabinet_webhook cfg cr env cid rq now d = (res, d', msgs)"
  obtains (size) e where "capped_body cfg rq = Inl e" "res = Inl e" "d' = d" "msgs = []"
  | (refusal) e where "capped_body cfg rq = Inr (hq_body rq)" "res = Inl e" "d' = note_decoy cfg rq now d" "msgs = []"
      "cabinet_authenticated cr env d' cid (hq_api_key rq) (hq_signature rq) (hq_body rq) = Inl e"
  | (unread) "genuine_hook cr env d cid rq" "res = Inl (Http 400 ''Invalid JSON payload'')"
      "d' = note_decoy cfg rq now d" "msgs = []"
  | (event) cab payload where "genuine_hook cr env d cid rq" "cabinet_at d cid = Some cab"
      "cabinet_event env cab payload now (note_decoy cfg rq now d) = (res, d', msgs)"
proof (cases "capped_body cfg rq")
  case (Inl e)
  with assms show ?thesis by (auto simp: receive_cabinet_webhook_def intro: size)
next
  case (Inr body)
  with capped_body_Inr[OF Inr] have c: "capped_body cfg rq = Inr (hq_body rq)" by simp
  let ?d1 = "note_decoy cfg rq now d"
  show ?thesis
  proof (cases "cabinet_authenticated cr env ?d1 cid (hq_api_key rq) (hq_signature rq) (hq_body rq)")
    case (Inl e)
    with assms c show ?thesis by (auto simp: receive_cabinet_webhook_def Let_def intro: refusal)
  next
    case (Inr cab)
    from authenticated_genuine_hook[OF Inr] have g: "genuine_hook cr env d cid rq" "cabinet_at d cid = Some cab"
      by (simp_all add: cabinet_at_def)
    with assms c Inr show ?thesis
      by (auto simp: receive_cabinet_webhook_def Let_def split: option.splits intro: unread event)
  qed
qed


section \<open>A concrete cabinet\<close>

definition hooked_db :: db where
  "hooked_db = sample_db\<lparr>db_cabinets := [sample_cabinet\<lparr>cab_webhook_key_enc := Some ''key''\<rparr>]\<rparr>"

definition sample_hooks :: hook_env where
  "sample_hooks = \<lparr>he_loads = (\<lambda>_. Some (JObj [(''event'', JStr ''session_ended''), (''data'', sample_payload)])),
     he_hmac = (\<lambda>_ _. ''00''), he_int_column = (\<lambda>v. case v of JInt i \<Rightarrow> Some i | _ \<Rightarrow> None),
     he_float = (\<lambda>_. None), he_str = (\<lambda>_. [])\<rparr>"

definition hook_call :: "string \<Rightarrow> hook_request" where
  "hook_call key = \<lparr>hq_request = \<lparr>rq_ip = None, rq_method = ''POST'', rq_path = ''/'', rq_user_agent = []\<rparr>, hq_content_length = Some ''2'', hq_body = ''{}'',
     hq_api_key = key, hq_signature = []\<rparr>"


end
