(* ===== verification/Client_Factory.thy ===== *)
theory Client_Factory
  imports Webhooks
begin

text \<open>
  \<open>services/pedestal_api_factory.py\<close>: one client per cabinet server and service account, kept
  between requests so that its token is reused, and replaced when the credentials or the
  marina behind it change. \<open>decrypt\<close> is \<open>decrypt_password\<close>; \<open>None\<close> is its \<open>ValueError\<close>.
\<close>

type_synonym account_key = "string \<times> string"
type_synonym clients = "account_key \<Rightarrow> client option"

definition client_key :: "string \<Rightarrow> string \<Rightarrow> account_key" where
  "client_key url email = (rstrip_slash url, email)"

definition reusable :: "nat \<Rightarrow> string \<Rightarrow> client \<Rightarrow> bool" where
  "reusable mid pw cl \<longleftrightarrow> cl_service_password cl = pw \<and> cl_marina_id cl = mid"

definition factory_client ::
    "nat \<Rightarrow> string \<Rightarrow> string \<Rightarrow> string \<Rightarrow> string option \<Rightarrow> clients \<Rightarrow> account_key \<times> clients" where
  "factory_client mid url email pw erp_key cs =
     (let k = client_key url email in
      (k, cs(k \<mapsto> (case cs k of
             Some cl \<Rightarrow> if reusable mid pw cl then cl\<lparr>cl_erp_api_key := erp_key\<rparr>
                       else new_client mid url email pw erp_key
           | None \<Rightarrow> new_client mid url email pw erp_key))))"

definition for_cabinet ::
    "(string \<Rightarrow> string option) \<Rightarrow> cabinet \<Rightarrow> clients \<Rightarrow> (account_key \<times> clients) option" where
  "for_cabinet decrypt cab cs =
     (case decrypt (cab_service_pw_enc cab) of
        None \<Rightarrow> None
      | Some pw \<Rightarrow>
          (if truthy (cab_erp_api_key_enc cab)
           then map_option (\<lambda>key. factory_client (cab_marina_id cab) (cab_base_url cab) (cab_service_email cab) pw (Some key) cs)
                  (Option.bind (cab_erp_api_key_enc cab) decrypt)
           else Some (factory_client (cab_marina_id cab) (cab_base_url cab) (cab_service_email cab) pw None cs)))"

text \<open>The marina's first cabinet, or the marina's own account before it has one. \<open>Inl\<close> is
  the text of the \<open>ValueError\<close>.\<close>

definition get_client ::
    "(string \<Rightarrow> string option) \<Rightarrow> nat \<Rightarrow> db \<Rightarrow> clients \<Rightarrow> string + account_key \<times> clients" where
  "get_client decrypt mid d cs =
     (case marina_row d mid of
        None \<Rightarrow> Inl ''Marina not found''
      | Some m \<Rightarrow>
          (case filter (\<lambda>c. cab_marina_id c = mid) (db_cabinets d) of
             cab # _ \<Rightarrow> (case for_cabinet decrypt cab cs of
                 None \<Rightarrow> Inl ''Could not decrypt credentials'' | Some r \<Rightarrow> Inr r)
           | [] \<Rightarrow>
               if \<not> truthy (mar_pedestal_service_email m) then Inl ''no pedestal_service_email configured''
               else if \<not> truthy (mar_pedestal_service_password_enc m)
               then Inl ''no pedestal_service_password_encrypted configured''
               else if mar_pedestal_api_base_url m = [] then Inl ''no pedestal_api_base_url configured''
               else (case Option.bind (mar_pedestal_service_password_enc m) decrypt of
                       None \<Rightarrow> Inl ''Could not decrypt service account password''
                     | Some pw \<Rightarrow> Inr (factory_client mid (mar_pedestal_api_base_url m)
                         (or_else (mar_pedestal_service_email m) []) pw None cs))))"

definition invalidate_clients :: "nat \<Rightarrow> clients \<Rightarrow> clients" where
  "invalidate_clients mid cs = (\<lambda>k. case cs k of
     Some cl \<Rightarrow> if cl_marina_id cl = mid then None else Some cl | None \<Rightarrow> None)"

section \<open>The client handed out is the one asked for\<close>

definition clients_ok :: "clients \<Rightarrow> bool" where
  "clients_ok cs \<longleftrightarrow> (\<forall>k cl. cs k = Some cl \<longrightarrow> k = (cl_base_url cl, cl_service_email cl))"

lemma new_client_sel [simp]:
  "cl_base_url (new_client m u e p k) = rstrip_slash u" "cl_service_email (new_client m u e p k) = e"
  "cl_marina_id (new_client m u e p k) = m" "cl_service_password (new_client m u e p k) = p"
  "cl_erp_api_key (new_client m u e p k) = k"
  by (simp_all add: new_client_def)

lemma factory_client_ok:
  assumes "factory_client mid url email pw key cs = (k, cs')" and "clients_ok cs"
  shows "clients_ok cs' \<and> (\<exists>cl. cs' k = Some cl \<and> cl_base_url cl = rstrip_slash url \<and> cl_service_email cl = email
    \<and> cl_service_password cl = pw \<and> cl_marina_id cl = mid \<and> cl_erp_api_key cl = key)"
  using assms by (auto simp: factory_client_def clients_ok_def client_key_def reusable_def Let_def split: option.splits if_splits)

lemma for_cabinet_ok:
  assumes "for_cabinet decrypt cab cs = Some (k, cs')" and "clients_ok cs"
  shows "clients_ok cs' \<and> (\<exists>cl. cs' k = Some cl \<and> cl_base_url cl = rstrip_slash (cab_base_url cab)
    \<and> cl_service_email cl = cab_service_email cab \<and> cl_marina_id cl = cab_marina_id cab
    \<and> decrypt (cab_service_pw_enc cab) = Some (cl_service_password cl))"
proof -
  obtain pw where pw: "decrypt (cab_service_pw_enc cab) = Some pw"
    using assms(1) by (auto simp: for_cabinet_def split: option.splits)
  then obtain key where "factory_client (cab_marina_id cab) (cab_base_url cab) (cab_service_email cab) pw key cs = (k, cs')"
    using assms(1) by (auto simp: for_cabinet_def split: if_splits)
  from factory_client_ok[OF this assms(2)] pw show ?thesis by auto
qed

section \<open>What a call to a cabinet writes\<close>

text \<open>Only the cache and the sync log.\<close>

definition cache_frame :: "db \<Rightarrow> db \<Rightarrow> bool" where
  "cache_frame d d' \<longleftrightarrow> (\<exists>c y. d' = d\<lparr>db_cache := c, db_sync_log := y\<rparr>)"

lemma cache_frame_refl [simp]: "cache_frame d d"
  unfolding cache_frame_def by (intro exI[of _ "db_cache d"] exI[of _ "db_sync_log d"]) simp

lemma cache_frame_cache [simp]: "cache_frame d (d\<lparr>db_cache := c\<rparr>)"
  unfolding cache_frame_def by (intro exI[of _ c] exI[of _ "db_sync_log d"]) simp

lemma cache_frame_log [simp]: "cache_frame d (d\<lparr>db_sync_log := y\<rparr>)"
  unfolding cache_frame_def by (intro exI[of _ "db_cache d"] exI[of _ y]) simp

lemma cache_frame_trans: "cache_frame d d1 \<Longrightarrow> cache_frame d1 d' \<Longrightarrow> cache_frame d d'"
  unfolding cache_frame_def by (elim exE) (simp, blast)

definition cache_framed :: "db \<Rightarrow> db option \<Rightarrow> bool" where
  "cache_framed d dbo \<longleftrightarrow> (\<exists>d'. dbo = Some d' \<and> cache_frame d d')"

lemma cache_framed_self [simp]: "cache_framed d (Some d)"
  by (simp add: cache_framed_def)

lemma framed_map: "cache_framed d dbo \<Longrightarrow> (\<And>d1. cache_frame d1 (f d1)) \<Longrightarrow> cache_framed d (map_option f dbo)"
  unfolding cache_framed_def by (elim exE conjE) (auto intro: cache_frame_trans)

lemma framed_sync_log: "cache_framed d dbo \<Longrightarrow> cache_framed d (write_sync_log dbo mid ty st a b e)"
  unfolding write_sync_log_def by (rule framed_map) simp_all

lemma framed_update_cache: "cache_framed d dbo \<Longrightarrow> cache_framed d (update_cache dbo mid k j now)"
  unfolding update_cache_def by (rule framed_map) simp_all

lemma framed_give_up: "give_up env ca err cl dbo w = (oc, cl', d') \<Longrightarrow> cache_framed d dbo \<Longrightarrow> cache_framed d d'"
  by (auto simp: give_up_def Let_def log_error_def framed_sync_log split: if_splits option.splits)

lemma framed_success: "on_success env ca cl dbo w r = Done res cl' d' \<Longrightarrow> cache_framed d dbo \<Longrightarrow> cache_framed d d'"
  by (auto simp: on_success_def Let_def framed_sync_log framed_update_cache split: if_splits sum.splits payload.splits)

lemma framed_response:
  "on_response env ca retried cl dbo w r = Done res cl' d' \<Longrightarrow> cache_framed d dbo \<Longrightarrow> cache_framed d d'"
  unfolding on_response_def Let_def log_error_def
  by (auto simp: framed_sync_log dest: framed_success split: if_splits)

lemma framed_call_loop:
  assumes "call_loop env ca attempt retried err cl dbo w = (res, cl', d', w')" and "cache_framed d dbo"
  shows "cache_framed d d'"
  using assms
proof (induction env ca attempt retried err cl dbo w arbitrary: res cl' d' w' rule: call_loop.induct)
  case (1 env ca attempt retried err cl dbo w)
  note run = trans[OF call_loop.simps[symmetric] 1(5)]
  show ?case
  proof (cases "attempt < ATTEMPTS")
    case False
    with run 1(6) show ?thesis by (auto intro: framed_give_up split: prod.splits)
  next
    case True
    obtain t cl1 w1 where tok: "token_now env cl w = (t, cl1, w1)" by (metis prod_cases3)
    show ?thesis
    proof (cases t)
      case (Token tk)
      obtain x w2 where http: "env_http env (send_request ca tk) w1 = (x, w2)" by (metis surj_pair)
      note run1 = run[simplified True tok Token, simplified]
      show ?thesis
      proof (cases x)
        case (Lost e)
        with 1(3,6) True tok Token http run1 show ?thesis by simp
      next
        case Failed
        with run1 http 1(6) show ?thesis by simp
      next
        case (Responded r)
        show ?thesis
        proof (cases "on_response env ca retried cl1 dbo w2 r")
          case (Done res2 cl2 d2)
          with run1 http Responded framed_response[OF Done 1(6)] show ?thesis by simp
        next
          case (Again e)
          with 1(1,6) True tok Token http Responded run1 show ?thesis by simp
        next
          case (Relogin cl2)
          with 1(2,6) True tok Token http Responded run1 show ?thesis by (simp split: if_splits)
        qed
      qed
    next
      case Refused
      with run True tok 1(6) show ?thesis by (auto simp: log_error_def framed_sync_log)
    next
      case (TokenLost e)
      with 1(4,6) True tok run show ?thesis by simp
    next
      case TokenCrash
      with run True tok 1(6) show ?thesis by simp
    qed
  qed
qed

lemma call_frame:
  assumes "call env key params query body cl (Some d) w = (res, cl', dbo, w')"
  shows "cache_framed d dbo"
proof (cases "build_path key params")
  case (Inl e)
  with assms show ?thesis by (auto simp: call_def)
next
  case (Inr path)
  with assms show ?thesis
    by (cases "is_known_not_enabled cl key (env_now env w)")
       (auto simp: call_def intro: framed_call_loop[OF _ cache_framed_self])
qed

end
