(* ===== verification/Collector.thy ===== *)
theory Collector
  imports Client_Factory Retention Reconciler
begin

text \<open>
  The scheduler of \<open>services/collector.py\<close>: which task of which server or cabinet is due at a
  tick, what each task asks and stores, and the tick itself. The steps that read a meter are
  in theory Metering, the reconciliation in Reconciler, retention in Retention, the calls in
  Cabinet_Client. A step ends normally, with an exception (the server's remaining steps are
  skipped, what was committed stays), or never, when a reconciliation never ends.

  Servers are served one after the other, which is the program's own order on SQLite; on
  PostgreSQL up to eight of them interleave. The thread, the leader's lock and the texts of
  exceptions are not modelled.
\<close>

definition EVERY :: "string \<Rightarrow> int" where
  "EVERY name = or_else (map_of [(''health'', 60), (''sessions'', 60), (''load_active'', 60),
     (''load_idle'', 300), (''status'', 120), (''alarms'', 120), (''berths'', 300), (''reconcile'', 900),
     (''retention'', 86400)] name) 0"

definition NIGHTLY_HOUR_UTC :: int where "NIGHTLY_HOUR_UTC = 2"

datatype task = HealthT string | SessionsT string | AlarmsT string | BerthsT string
  | LoadT nat | StatusT nat | ReconcileT nat | RetentionT

record 'w col_env =
  ce_cab :: "'w cab_env"
  ce_decrypt :: "string \<Rightarrow> string option"
  ce_int_column :: "json \<Rightarrow> int option"

record 'w col =
  co_last :: "task \<Rightarrow> dtime option"
  co_busy_sessions :: "nat \<Rightarrow> bool"
  co_busy_load :: "nat \<Rightarrow> bool"
  co_last_nightly :: "dtime option"
  co_clients :: clients
  co_db :: db
  co_world :: 'w
  co_counts :: "string \<Rightarrow> nat"
  co_last_error :: "string option"
  co_cycles :: nat
  co_last_tick :: "dtime option"

datatype 'w step_result = Ok "'w col" | Broke "'w col" | Hangs

definition then_do :: "'w step_result \<Rightarrow> ('w col \<Rightarrow> 'w step_result) \<Rightarrow> 'w step_result" where
  "then_do r f = (case r of Ok s \<Rightarrow> f s | Broke s \<Rightarrow> Broke s | Hangs \<Rightarrow> Hangs)"

section \<open>When a task is due\<close>

definition due :: "dtime option \<Rightarrow> int \<Rightarrow> dtime \<Rightarrow> bool" where
  "due last1 every now = (case last1 of None \<Rightarrow> True | Some l \<Rightarrow> \<not> now - l < seconds every)"

definition is_due :: "task \<Rightarrow> int \<Rightarrow> dtime \<Rightarrow> 'w col \<Rightarrow> bool \<times> 'w col" where
  "is_due t every now s =
     (if due (co_last s t) every now then (True, s\<lparr>co_last := (co_last s)(t \<mapsto> now)\<rparr>) else (False, s))"

definition when_due :: "task \<Rightarrow> int \<Rightarrow> dtime \<Rightarrow> ('w col \<Rightarrow> 'w step_result) \<Rightarrow> 'w col \<Rightarrow> 'w step_result" where
  "when_due t every now f s = (case is_due t every now s of (b, s') \<Rightarrow> if b then f s' else Ok s')"

definition nightly_due :: "dtime \<Rightarrow> 'w col \<Rightarrow> bool \<times> 'w col" where
  "nightly_due now s =
     (if hour_of now \<noteq> NIGHTLY_HOUR_UTC then (False, s)
      else if map_option day_number (co_last_nightly s) = Some (day_number now) then (False, s)
      else (True, s\<lparr>co_last_nightly := Some now\<rparr>))"

section \<open>Asking a server\<close>

definition bump :: "string \<Rightarrow> nat \<Rightarrow> 'w col \<Rightarrow> 'w col" where
  "bump k n s = s\<lparr>co_counts := (co_counts s)(k := co_counts s k + n)\<rparr>"

definition poll :: "'w reading \<Rightarrow> account_key \<Rightarrow> 'w col \<Rightarrow> (sync_error + Outcome) \<times> 'w col" where
  "poll rd k s = (case co_clients s k of
     None \<Rightarrow> (Inl sync_error.Crash, s)
   | Some cl \<Rightarrow>
       (case rd cl (Some (co_db s)) (co_world s) of
          (r, cl', dbo, w') \<Rightarrow>
            (r, s\<lparr>co_clients := (co_clients s)(k \<mapsto> cl'), co_db := or_else dbo (co_db s), co_world := w'\<rparr>)))"

definition object_of :: "Outcome \<Rightarrow> (string \<times> json) list option" where
  "object_of out = (if oc_ok out then (case oc_data out of Json (JObj ob) \<Rightarrow> Some ob | _ \<Rightarrow> None) else None)"

definition list_of :: "Outcome \<Rightarrow> json list option" where
  "list_of out = (if oc_ok out then (case oc_data out of Json (JList l) \<Rightarrow> Some l | _ \<Rightarrow> None) else None)"

definition beat :: "(string \<times> json) list \<Rightarrow> dtime option \<Rightarrow> dtime \<Rightarrow> cabinet \<Rightarrow> cabinet" where
  "beat h hb now c = c\<lparr>cab_smart_mode := (case jget h ''smart_mode'' of JBool b \<Rightarrow> Some b | _ \<Rightarrow> None),
     cab_last_heartbeat_at := hb, cab_last_polled_at := Some now\<rparr>"

definition health_row :: "dtime \<Rightarrow> (string \<times> json) list \<Rightarrow> nat \<Rightarrow> db \<Rightarrow> sync_error + db" where
  "health_row now ob cid d =
     (case map_option (\<lambda>c. jget ob (int_str (cab_pedestal_pk c))) (cabinet_at d cid) of
        Some (JObj h) \<Rightarrow>
          sbind (parse_utc_json (jget h ''last_heartbeat'')) (\<lambda>hb.
            Inr (d\<lparr>db_cabinets := update_where (\<lambda>c. cab_id c = cid) (beat h hb now) (db_cabinets d)\<rparr>))
      | _ \<Rightarrow> Inr d)"

fun health_rows :: "dtime \<Rightarrow> (string \<times> json) list \<Rightarrow> nat list \<Rightarrow> db \<Rightarrow> sync_error + db" where
  "health_rows now ob [] d = Inr d"
| "health_rows now ob (i # is) d = sbind (health_row now ob i d) (health_rows now ob is)"

definition health_task :: "'w col_env \<Rightarrow> account_key \<Rightarrow> nat list \<Rightarrow> dtime \<Rightarrow> 'w col \<Rightarrow> 'w step_result" where
  "health_task env k ids now s =
     (case poll (health (ce_cab env)) k s of
        (Inl _, s') \<Rightarrow> Broke s'
      | (Inr out, s') \<Rightarrow>
          (case object_of out of
             None \<Rightarrow> Ok (bump ''health'' 1 s')
           | Some ob \<Rightarrow>
               (case health_rows now ob ids (co_db s') of
                  Inl _ \<Rightarrow> Broke s'
                | Inr d \<Rightarrow> Ok (bump ''health'' 1 (s'\<lparr>co_db := d\<rparr>)))))"

definition running_pks :: "json list \<Rightarrow> json list" where
  "running_pks rows = List.map_filter (\<lambda>r. map_option (\<lambda>ob. jget ob ''pedestal_id'') (jobj r)) rows"

definition runs_here :: "db \<Rightarrow> json list \<Rightarrow> nat \<Rightarrow> bool" where
  "runs_here d running cid = (case cabinet_at d cid of
     None \<Rightarrow> False | Some c \<Rightarrow> list_ex (jint_eq (cab_pedestal_pk c)) running)"

definition sessions_task :: "'w col_env \<Rightarrow> account_key \<Rightarrow> nat list \<Rightarrow> 'w col \<Rightarrow> 'w step_result" where
  "sessions_task env k ids s =
     (case poll (active_sessions (ce_cab env)) k s of
        (Inl _, s') \<Rightarrow> Broke s'
      | (Inr out, s') \<Rightarrow>
          (case list_of out of
             None \<Rightarrow> Ok (bump ''sessions'' 1 s')
           | Some rows \<Rightarrow>
               if \<not> list_all hashable (running_pks rows) then Broke s'
               else Ok (bump ''sessions'' 1 (s'\<lparr>co_busy_sessions :=
                 (\<lambda>i. if i \<in> set ids then runs_here (co_db s') (running_pks rows) i else co_busy_sessions s' i)\<rparr>))))"

definition store_alarm :: "'w col_env \<Rightarrow> cabinet list \<Rightarrow> dtime \<Rightarrow> json \<Rightarrow> db \<Rightarrow> (sync_error + nat) \<times> db" where
  "store_alarm env cabs now a d = (case a of
     JObj ob \<Rightarrow>
       if \<not> is_int_json (jget ob ''id'') then (Inr 0, d)
       else if \<not> hashable (jget ob ''pedestal_id'') then (Inl sync_error.Crash, d)
       else (case find (\<lambda>c. jint_eq (cab_pedestal_pk c) (jget ob ''pedestal_id'')) (rev cabs) of
               None \<Rightarrow> (Inr 0, d)
             | Some cab \<Rightarrow>
                 (case ce_int_column env (jget ob ''id'') of
                    None \<Rightarrow> (Inl sync_error.Crash, d)
                  | Some aid \<Rightarrow>
                      if list_ex (known_alarm (cab_id cab) aid) (db_alarm_log d) then (Inr 0, d)
                      else (Inr 1, add_alarm (cab_marina_id cab) (cab_pedestal_pk cab) a now (Some (cab_id cab))
                              (Some aid) (Some ''poll'') d)))
   | _ \<Rightarrow> (Inr 0, d))"

fun store_alarms :: "'w col_env \<Rightarrow> cabinet list \<Rightarrow> dtime \<Rightarrow> json list \<Rightarrow> db \<Rightarrow> (sync_error + nat) \<times> db" where
  "store_alarms env cabs now [] d = (Inr 0, d)"
| "store_alarms env cabs now (a # as) d =
     (case store_alarm env cabs now a d of
        (Inl e, d1) \<Rightarrow> (Inl e, d1)
      | (Inr n, d1) \<Rightarrow>
          (case store_alarms env cabs now as d1 of
             (Inl e, d2) \<Rightarrow> (Inl e, d2) | (Inr m, d2) \<Rightarrow> (Inr (n + m), d2)))"

definition cabinets_in :: "db \<Rightarrow> nat list \<Rightarrow> cabinet list" where
  "cabinets_in d ids = List.map_filter (cabinet_at d) ids"

definition alarms_task :: "'w col_env \<Rightarrow> account_key \<Rightarrow> nat list \<Rightarrow> dtime \<Rightarrow> 'w col \<Rightarrow> 'w step_result" where
  "alarms_task env k ids now s =
     (case poll (active_alarms (ce_cab env)) k s of
        (Inl _, s') \<Rightarrow> Broke s'
      | (Inr out, s') \<Rightarrow>
          (case list_of out of
             None \<Rightarrow> Ok s'
           | Some as \<Rightarrow>
               (case store_alarms env (cabinets_in (co_db s') ids) now as (co_db s') of
                  (Inl _, d) \<Rightarrow> Broke (s'\<lparr>co_db := d\<rparr>)
                | (Inr n, d) \<Rightarrow> Ok (bump ''alarms_new'' n (s'\<lparr>co_db := d\<rparr>)))))"

definition just_ask :: "'w reading \<Rightarrow> account_key \<Rightarrow> 'w col \<Rightarrow> 'w step_result" where
  "just_ask rd k s = (case poll rd k s of (Inl _, s') \<Rightarrow> Broke s' | (Inr _, s') \<Rightarrow> Ok s')"

definition server_tasks ::
    "'w col_env \<Rightarrow> string \<Rightarrow> account_key \<Rightarrow> nat list \<Rightarrow> dtime \<Rightarrow> 'w col \<Rightarrow> 'w step_result" where
  "server_tasks env url k ids now s =
     then_do (then_do (then_do
       (when_due (HealthT url) (EVERY ''health'') now (health_task env k ids now) s)
       (when_due (SessionsT url) (EVERY ''sessions'') now (sessions_task env k ids)))
       (when_due (AlarmsT url) (EVERY ''alarms'') now (alarms_task env k ids now)))
       (when_due (BerthsT url) (EVERY ''berths'') now (just_ask (list_berths (ce_cab env)) k))"

section \<open>Asking a cabinet\<close>

definition erp_session_open :: "db \<Rightarrow> nat \<Rightarrow> bool" where
  "erp_session_open d cid \<longleftrightarrow>
     list_ex (\<lambda>s. ses_cabinet_id s = cid \<and> ses_status s \<in> {''reserved'', ''active''}) (db_sessions d)"

definition load_every :: "cabinet \<Rightarrow> 'w col \<Rightarrow> int" where
  "load_every cab s =
     (let i = cab_id cab;
          busy = (co_busy_sessions s i \<or> co_busy_load s i \<or> erp_session_open (co_db s) i)
      in if cab_is_simulated cab then EVERY ''load_idle''
         else if busy then EVERY ''load_active'' else EVERY ''load_idle'')"

definition count_readings :: "string list \<Rightarrow> 'w col \<Rightarrow> 'w col" where
  "count_readings rs s = foldl (\<lambda>s r. bump (''readings_'' @ r) 1 s) s rs"

definition load_task :: "'w col_env \<Rightarrow> account_key \<Rightarrow> cabinet \<Rightarrow> dtime \<Rightarrow> 'w col \<Rightarrow> 'w step_result" where
  "load_task env k cab now s =
     (case poll (pedestal_load (ce_cab env) (cab_pedestal_pk cab)) k s of
        (Inl _, s') \<Rightarrow> Broke s'
      | (Inr out, s') \<Rightarrow>
          (case object_of out of
             None \<Rightarrow> Ok s'
           | Some ob \<Rightarrow>
               (case store_load (co_db s') cab (jget ob ''sockets'') now of
                  Inl _ \<Rightarrow> Broke s'
                | Inr (answers, busy, d) \<Rightarrow>
                    Ok (count_readings answers (s'\<lparr>co_db := d,
                      co_busy_load := (co_busy_load s')(cab_id cab := busy)\<rparr>)))))"

definition reconcile_task :: "'w col_env \<Rightarrow> account_key \<Rightarrow> cabinet \<Rightarrow> dtime \<Rightarrow> bool \<Rightarrow> 'w col \<Rightarrow> 'w step_result" where
  "reconcile_task env k cab now nightly s =
     (case co_clients s k of
        None \<Rightarrow> Broke s
      | Some cl \<Rightarrow>
          (case reconcile (channel_b (ce_cab env) cl) (co_db s) cab now nightly (co_world s) of
             None \<Rightarrow> Hangs
           | Some (run, d, w) \<Rightarrow>
               (let s' = bump ''reconcile_runs'' 1 (s\<lparr>co_db := d, co_world := w\<rparr>) in
                Ok (if run_ok run then s'
                    else s'\<lparr>co_last_error := Some (cab_display_id cab @ '': '' @ or_else (run_error run) ''None'')\<rparr>))))"

text \<open>The nightly pass does not count as the cabinet's quarter-hourly one.\<close>

definition reconcile_due ::
    "'w col_env \<Rightarrow> account_key \<Rightarrow> cabinet \<Rightarrow> dtime \<Rightarrow> bool \<Rightarrow> 'w col \<Rightarrow> 'w step_result" where
  "reconcile_due env k cab now nightly s =
     (if cab_is_simulated cab then Ok s
      else if nightly then reconcile_task env k cab now nightly s
      else when_due (ReconcileT (cab_id cab)) (EVERY ''reconcile'') now (reconcile_task env k cab now nightly) s)"

definition cabinet_tasks ::
    "'w col_env \<Rightarrow> account_key \<Rightarrow> nat \<Rightarrow> dtime \<Rightarrow> bool \<Rightarrow> 'w col \<Rightarrow> 'w step_result" where
  "cabinet_tasks env k cid now nightly s =
     (case cabinet_at (co_db s) cid of
        None \<Rightarrow> Ok s
      | Some cab \<Rightarrow>
          then_do (then_do
            (when_due (LoadT cid) (load_every cab s) now (load_task env k cab now) s)
            (when_due (StatusT cid) (EVERY ''status'') now
               (just_ask (pedestal_status (ce_cab env) (PInt (cab_pedestal_pk cab))) k)))
            (reconcile_due env k cab now nightly))"

section \<open>A tick\<close>

definition with_client :: "'w col_env \<Rightarrow> nat \<Rightarrow> (account_key \<Rightarrow> 'w col \<Rightarrow> 'w step_result) \<Rightarrow> 'w col \<Rightarrow> 'w step_result" where
  "with_client env cid f s =
     (case Option.bind (cabinet_at (co_db s) cid) (\<lambda>cab. for_cabinet (ce_decrypt env) cab (co_clients s)) of
        None \<Rightarrow> Broke s
      | Some (k, cs) \<Rightarrow> f k (s\<lparr>co_clients := cs\<rparr>))"

definition tasks_of_cabinet :: "'w col_env \<Rightarrow> nat \<Rightarrow> dtime \<Rightarrow> bool \<Rightarrow> 'w col \<Rightarrow> 'w step_result" where
  "tasks_of_cabinet env cid now nightly =
     with_client env cid (\<lambda>k. cabinet_tasks env k cid now nightly)"

fun cabinets_loop :: "'w col_env \<Rightarrow> dtime \<Rightarrow> bool \<Rightarrow> nat list \<Rightarrow> 'w col \<Rightarrow> 'w step_result" where
  "cabinets_loop env now nightly [] s = Ok s"
| "cabinets_loop env now nightly (i # is) s =
     then_do (tasks_of_cabinet env i now nightly s) (cabinets_loop env now nightly is)"

text \<open>One server; an exception ends its turn and is noted. \<open>None\<close>: it never ends.\<close>

definition one_server ::
    "'w col_env \<Rightarrow> dtime \<Rightarrow> bool \<Rightarrow> (string \<times> string) \<times> nat list \<Rightarrow> 'w col \<Rightarrow> 'w col option" where
  "one_server env now nightly srv s = (case srv of ((url, _), ids) \<Rightarrow>
     (case then_do (with_client env (hd ids) (\<lambda>k. server_tasks env url k ids now) s)
             (cabinets_loop env now nightly ids) of
        Ok s' \<Rightarrow> Some s'
      | Broke s' \<Rightarrow> Some (s'\<lparr>co_last_error := Some (cut 500 (url @ '': exception''))\<rparr>)
      | Hangs \<Rightarrow> None))"

fun add_to_server :: "(string \<times> string) \<Rightarrow> nat \<Rightarrow> ((string \<times> string) \<times> nat list) list
    \<Rightarrow> ((string \<times> string) \<times> nat list) list" where
  "add_to_server k i [] = [(k, [i])]"
| "add_to_server k i ((k', ids) # rest) =
     (if k' = k then (k', ids @ [i]) # rest else (k', ids) # add_to_server k i rest)"

definition servers_of :: "db \<Rightarrow> ((string \<times> string) \<times> nat list) list" where
  "servers_of d = foldl (\<lambda>ss c. add_to_server (cab_base_url c, cab_service_email c) (cab_id c) ss) []
     (sort_key cab_id (db_cabinets d))"

fun servers_loop :: "'w col_env \<Rightarrow> dtime \<Rightarrow> bool \<Rightarrow> ((string \<times> string) \<times> nat list) list \<Rightarrow> 'w col \<Rightarrow> 'w col option" where
  "servers_loop env now nightly [] s = Some s"
| "servers_loop env now nightly (srv # ss) s =
     Option.bind (one_server env now nightly srv s) (servers_loop env now nightly ss)"

definition retention_task :: "dtime \<Rightarrow> 'w col \<Rightarrow> 'w col" where
  "retention_task now s = (case is_due RetentionT (EVERY ''retention'') now s of
     (b, s') \<Rightarrow> if b then s'\<lparr>co_db := snd (run_retention now (co_db s'))\<rparr> else s')"

definition tick :: "'w col_env \<Rightarrow> bool \<Rightarrow> dtime \<Rightarrow> 'w col \<Rightarrow> 'w col option" where
  "tick env force_nightly now s =
     (let s0 = s\<lparr>co_counts := (\<lambda>_. 0)\<rparr>;
          (nightly, s1) = (if force_nightly then (True, s0) else nightly_due now s0)
      in map_option (\<lambda>s2. (retention_task now s2)\<lparr>co_cycles := co_cycles s2 + 1, co_last_tick := Some now\<rparr>)
           (servers_loop env now nightly (servers_of (co_db s)) s1))"

definition run_all_once :: "'w col_env \<Rightarrow> dtime \<Rightarrow> 'w col \<Rightarrow> 'w col option" where
  "run_all_once env now s = tick env False now (s\<lparr>co_last := (\<lambda>_. None)\<rparr>)"


section \<open>Nothing is left overdue\<close>

text \<open>What every step of a tick keeps: a task's time is the old one or this tick's, and the
  cabinets are still there, with their addresses and credentials.\<close>

definition address :: "cabinet \<Rightarrow> nat \<times> nat \<times> string \<times> string \<times> string \<times> string option" where
  "address c = (cab_id c, cab_marina_id c, cab_base_url c, cab_service_email c, cab_service_pw_enc c, cab_erp_api_key_enc c)"

definition same_cabinets :: "db \<Rightarrow> db \<Rightarrow> bool" where
  "same_cabinets d d' \<longleftrightarrow> map address (db_cabinets d') = map address (db_cabinets d)"

definition step_keeps :: "dtime \<Rightarrow> 'w col \<Rightarrow> 'w col \<Rightarrow> bool" where
  "step_keeps now s s' \<longleftrightarrow> (\<forall>t. co_last s' t = co_last s t \<or> co_last s' t = Some now)
     \<and> same_cabinets (co_db s) (co_db s')"

definition result_keeps :: "dtime \<Rightarrow> 'w col \<Rightarrow> 'w step_result \<Rightarrow> bool" where
  "result_keeps now s r \<longleftrightarrow> (case r of Ok s' \<Rightarrow> step_keeps now s s' | Broke s' \<Rightarrow> step_keeps now s s' | Hangs \<Rightarrow> True)"

lemma result_keeps_simps [simp]:
  "result_keeps now s (Ok s') = step_keeps now s s'" "result_keeps now s (Broke s') = step_keeps now s s'"
  "result_keeps now s Hangs"
  by (simp_all add: result_keeps_def)

lemma step_keeps_refl [simp]: "step_keeps now s s"
  by (simp add: step_keeps_def same_cabinets_def)

lemma step_keeps_trans: "step_keeps now s s1 \<Longrightarrow> step_keeps now s1 s2 \<Longrightarrow> step_keeps now s s2"
  unfolding step_keeps_def same_cabinets_def by metis

lemma result_keeps_trans: "step_keeps now s s1 \<Longrightarrow> result_keeps now s1 r \<Longrightarrow> result_keeps now s r"
  by (cases r) (auto intro: step_keeps_trans)

lemma then_do_keeps: "result_keeps now s r \<Longrightarrow> (\<And>s'. result_keeps now s' (f s')) \<Longrightarrow> result_keeps now s (then_do r f)"
  by (cases r) (auto simp: then_do_def intro: result_keeps_trans)

lemma same_db_keeps: "co_last s' = co_last s \<Longrightarrow> same_cabinets (co_db s) (co_db s') \<Longrightarrow> step_keeps now s s'"
  by (simp add: step_keeps_def)

lemma is_due_keeps: "is_due t every now s = (b, s') \<Longrightarrow> step_keeps now s s'"
  by (auto simp: is_due_def step_keeps_def same_cabinets_def split: if_splits)

lemma when_due_keeps: "(\<And>s'. result_keeps now s' (f s')) \<Longrightarrow> result_keeps now s (when_due t every now f s)"
  unfolding when_due_def by (auto split: prod.split dest!: is_due_keeps intro: result_keeps_trans)

lemma bump_sel [simp]: "co_last (bump k n s) = co_last s" "co_db (bump k n s) = co_db s"
  by (simp_all add: bump_def)

lemma count_readings_sel [simp]:
  "co_last (count_readings rs s) = co_last s" "co_db (count_readings rs s) = co_db s"
  by (induction rs arbitrary: s) (simp_all add: count_readings_def)

lemma cache_same_cabinets: "cache_frame d d' \<Longrightarrow> same_cabinets d d'"
  by (auto simp: cache_frame_def same_cabinets_def)

lemma same_cabinets_trans: "same_cabinets d d1 \<Longrightarrow> same_cabinets d1 d' \<Longrightarrow> same_cabinets d d'"
  by (simp add: same_cabinets_def)

text \<open>A call asks for no more than its endpoint: any reading that is a \<open>call\<close> keeps all this.\<close>

definition is_call :: "'w cab_env \<Rightarrow> 'w reading \<Rightarrow> bool" where
  "is_call env rd \<longleftrightarrow> (\<exists>key params query body. rd = call env key params query body)"

lemma named_calls [simp]:
  "is_call env (health env)" "is_call env (active_sessions env)" "is_call env (active_alarms env)"
  "is_call env (list_berths env)" "is_call env (pedestal_load env i)" "is_call env (pedestal_status env p)"
  unfolding is_call_def health_def active_sessions_def active_alarms_def list_berths_def get_plain_def
    pedestal_load_def pedestal_status_def of_pedestal_def by blast+

lemma poll_keeps:
  assumes "poll rd k s = (r, s')" and "is_call env rd"
  shows "co_last s' = co_last s \<and> cache_frame (co_db s) (co_db s')"
proof (cases "co_clients s k")
  case None
  with assms(1) show ?thesis by (auto simp: poll_def)
next
  case (Some cl)
  obtain r1 cl' dbo w' where c: "rd cl (Some (co_db s)) (co_world s) = (r1, cl', dbo, w')" by (metis prod_cases4)
  from assms(2) c have "cache_framed (co_db s) dbo" unfolding is_call_def by (auto dest: call_frame)
  with assms(1) Some c show ?thesis by (auto simp: poll_def cache_framed_def)
qed

lemma poll_step: "poll rd k s = (r, s') \<Longrightarrow> is_call env rd \<Longrightarrow> step_keeps now s s'"
  by (auto dest: poll_keeps intro: same_db_keeps cache_same_cabinets)

lemma health_row_keeps: "health_row now ob cid d = Inr d' \<Longrightarrow> same_cabinets d d'"
  by (auto simp: health_row_def same_cabinets_def sbind_Inr beat_def address_def
      intro!: map_update_where_same split: option.splits json.splits)

lemma health_rows_keeps: "health_rows now ob ids d = Inr d' \<Longrightarrow> same_cabinets d d'"
  by (induction ids arbitrary: d)
     (auto simp: sbind_Inr same_cabinets_def dest!: health_row_keeps)

lemma health_task_keeps: "result_keeps now' s (health_task env k ids now s)"
proof -
  obtain r s' where p: "poll (health (ce_cab env)) k s = (r, s')" by fastforce
  note q = poll_step[OF p named_calls(1), of now']
  show ?thesis
  proof (cases "r")
    case (Inl e)
    with p q show ?thesis by (simp add: health_task_def)
  next
    case (Inr out)
    have "step_keeps now' s (bump ''health'' 1 (s'\<lparr>co_db := d\<rparr>))" if "health_rows now ob ids (co_db s') = Inr d" for ob d
      using that by (auto intro!: step_keeps_trans[OF q] same_db_keeps dest: health_rows_keeps)
    moreover have "step_keeps now' s (bump ''health'' 1 s')"
      by (rule step_keeps_trans[OF q]) (auto intro: same_db_keeps simp: same_cabinets_def)
    ultimately show ?thesis using p q Inr
      by (auto simp: health_task_def split: option.splits sum.splits)
  qed
qed

lemma sessions_task_keeps: "result_keeps now' s (sessions_task env k ids s)"
proof -
  obtain r s' where p: "poll (active_sessions (ce_cab env)) k s = (r, s')" by fastforce
  note q = poll_step[OF p named_calls(2), of now']
  have "step_keeps now' s (bump ''sessions'' 1 (s'\<lparr>co_busy_sessions := f\<rparr>))" "step_keeps now' s (bump ''sessions'' 1 s')" for f
    by (auto intro!: step_keeps_trans[OF q] same_db_keeps simp: same_cabinets_def)
  with p q show ?thesis by (auto simp: sessions_task_def split: sum.splits option.splits)
qed

definition appends :: "db \<Rightarrow> sync_error + nat \<Rightarrow> db \<Rightarrow> bool" where
  "appends d r d' \<longleftrightarrow> (\<exists>xs. d' = d\<lparr>db_alarm_log := db_alarm_log d @ xs\<rparr> \<and> (\<forall>n. r = Inr n \<longrightarrow> length xs = n))"

lemma appends_none [simp]: "appends d (Inl e) d" "appends d (Inr 0) d"
  unfolding appends_def by (auto intro: exI[of _ "[]"])

lemma appends_add [simp]: "appends d (Inr (Suc 0)) (add_alarm mid pid data now cid aid source d)"
  by (auto simp: appends_def add_alarm_def)

lemma store_alarm_appends: "store_alarm env cabs now a d = (r, d') \<Longrightarrow> appends d r d'"
  by (auto simp: store_alarm_def split: json.splits if_splits option.splits)

lemma appends_trans:
  assumes "appends d (Inr n) d1" and "appends d1 r2 d'"
  shows "appends d (case r2 of Inl e \<Rightarrow> Inl e | Inr m \<Rightarrow> Inr (n + m)) d'"
proof -
  obtain xs where xs: "d1 = d\<lparr>db_alarm_log := db_alarm_log d @ xs\<rparr>" "length xs = n"
    using assms(1) unfolding appends_def by blast
  obtain ys where ys: "d' = d1\<lparr>db_alarm_log := db_alarm_log d1 @ ys\<rparr>" "\<forall>m. r2 = Inr m \<longrightarrow> length ys = m"
    using assms(2) unfolding appends_def by blast
  have "d' = d\<lparr>db_alarm_log := db_alarm_log d @ (xs @ ys)\<rparr>" using xs(1) ys(1) by simp
  moreover have "\<forall>m. (case r2 of Inl e \<Rightarrow> Inl e | Inr m \<Rightarrow> Inr (n + m)) = Inr m \<longrightarrow> length (xs @ ys) = m"
    using xs(2) ys(2) by (cases r2) simp_all
  ultimately show ?thesis unfolding appends_def by blast
qed

lemma store_alarms_appends: "store_alarms env cabs now as d = (r, d') \<Longrightarrow> appends d r d'"
proof (induction as arbitrary: d r)
  case (Cons a as)
  obtain r1 d1 where a: "store_alarm env cabs now a d = (r1, d1)" by fastforce
  note first = store_alarm_appends[OF a]
  show ?case
  proof (cases r1)
    case (Inl e)
    with Cons.prems a first show ?thesis by auto
  next
    case (Inr n)
    with Cons.prems a obtain r2 where r2: "store_alarms env cabs now as d1 = (r2, d')"
      "r = (case r2 of Inl e \<Rightarrow> Inl e | Inr m \<Rightarrow> Inr (n + m))"
      by (auto split: prod.splits sum.splits)
    with appends_trans[OF first[unfolded Inr] Cons.IH[OF r2(1)]] show ?thesis by simp
  qed
qed simp

lemma store_alarms_cabinets: "store_alarms env cabs now as d = (r, d') \<Longrightarrow> same_cabinets d d'"
  by (auto simp: same_cabinets_def appends_def dest!: store_alarms_appends)

lemma alarms_task_keeps: "result_keeps now' s (alarms_task env k ids now s)"
proof -
  obtain r s' where p: "poll (active_alarms (ce_cab env)) k s = (r, s')" by fastforce
  note q = poll_step[OF p named_calls(3), of now']
  have "step_keeps now' s (s'\<lparr>co_db := d\<rparr>)" "step_keeps now' s (bump ''alarms_new'' n (s'\<lparr>co_db := d\<rparr>))"
    if "store_alarms env cabs now as (co_db s') = (r2, d)" for cabs as r2 d n
    using store_alarms_cabinets[OF that] by (auto intro!: step_keeps_trans[OF q] same_db_keeps)
  with p q show ?thesis by (auto simp: alarms_task_def split: sum.splits option.splits prod.splits)
qed

lemma just_ask_keeps: "is_call env rd \<Longrightarrow> result_keeps now s (just_ask rd k s)"
  by (auto simp: just_ask_def split: prod.split sum.split intro: poll_step)

lemma server_tasks_keeps: "result_keeps now s (server_tasks env url k ids now s)"
  unfolding server_tasks_def
  by (intro then_do_keeps when_due_keeps health_task_keeps sessions_task_keeps alarms_task_keeps
      just_ask_keeps[of "ce_cab env"] named_calls)

lemma reading_cabinets: "db_cabinets (snd (record_reading d cab o1 reg at')) = db_cabinets d"
  by (simp add: record_reading_def set_meter_def Let_def split: option.split)

lemma store_socket_cabinets:
  "store_socket cab now v (as, b, d) = Inr (as', b', d') \<Longrightarrow> db_cabinets d' = db_cabinets d"
  using reading_cabinets
  by (auto simp: store_socket_def sbind_Inr case_prod_beta split: json.splits option.splits)

lemma store_sockets_cabinets:
  "store_sockets cab now vs (as, b, d) = Inr (as', b', d') \<Longrightarrow> db_cabinets d' = db_cabinets d"
proof (induction vs arbitrary: as b d)
  case (Cons v vs)
  then obtain as1 b1 d1 where "store_socket cab now v (as, b, d) = Inr (as1, b1, d1)"
    "store_sockets cab now vs (as1, b1, d1) = Inr (as', b', d')" by (auto simp: sbind_Inr)
  with Cons.IH store_socket_cabinets show ?case by metis
qed simp

lemma load_task_keeps: "result_keeps now' s (load_task env k cab now s)"
proof -
  obtain r s' where p: "poll (pedestal_load (ce_cab env) (cab_pedestal_pk cab)) k s = (r, s')" by fastforce
  note q = poll_step[OF p named_calls(5), of now']
  have "step_keeps now' s (count_readings as (s'\<lparr>co_db := d, co_busy_load := f\<rparr>))"
    if "store_load (co_db s') cab j now = Inr (as, b, d)" for j as b d f
    using that by (auto simp: store_load_def sbind_Inr same_cabinets_def dest!: store_sockets_cabinets
        intro!: step_keeps_trans[OF q] same_db_keeps)
  with p q show ?thesis by (auto simp: load_task_def split: sum.splits option.splits prod.splits)
qed

lemma reconcile_cabinets:
  assumes "reconcile nc d cab now nightly w = Some (run, d', w')"
  shows "db_cabinets d' = db_cabinets d"
proof -
  obtain d1 where d1: "only_sessions d d1" "d' = d1\<lparr>db_runs := db_runs d1 @ [run]\<rparr>"
    using frame.whole_run[OF assms] by blast
  have "db_cabinets (d1\<lparr>db_sessions := []\<rparr>) = db_cabinets (d\<lparr>db_sessions := []\<rparr>)"
    using d1(1) by (simp only: only_sessions_def)
  with d1(2) show ?thesis by simp
qed

lemma reconcile_task_keeps: "result_keeps now' s (reconcile_task env k cab now nightly s)"
  by (auto simp: reconcile_task_def Let_def same_cabinets_def dest!: reconcile_cabinets
      intro!: same_db_keeps split: option.split prod.split)

lemma cabinet_tasks_keeps: "result_keeps now s (cabinet_tasks env k cid now nightly s)"
  unfolding cabinet_tasks_def reconcile_due_def
  by (auto split: option.split intro!: then_do_keeps when_due_keeps load_task_keeps reconcile_task_keeps
      just_ask_keeps[of "ce_cab env"] named_calls)

lemma with_client_keeps:
  assumes "\<And>k s'. result_keeps now s' (f k s')"
  shows "result_keeps now s (with_client env cid f s)"
proof -
  have "step_keeps now s (s\<lparr>co_clients := cs\<rparr>)" for cs
    by (rule same_db_keeps) (simp_all add: same_cabinets_def)
  then have "result_keeps now s (f k (s\<lparr>co_clients := cs\<rparr>))" for k cs
    by (rule result_keeps_trans) (rule assms)
  then show ?thesis unfolding with_client_def by (simp split: option.split prod.split)
qed

lemma cabinets_loop_keeps: "result_keeps now s (cabinets_loop env now nightly ids s)"
  by (induction ids arbitrary: s)
     (auto simp: tasks_of_cabinet_def intro!: then_do_keeps with_client_keeps cabinet_tasks_keeps)

lemma one_server_keeps: "one_server env now nightly srv s = Some s' \<Longrightarrow> step_keeps now s s'"
proof -
  assume run: "one_server env now nightly srv s = Some s'"
  obtain url email ids where srv: "srv = ((url, email), ids)" by (metis prod_cases3 surj_pair)
  let ?r = "then_do (with_client env (hd ids) (\<lambda>k. server_tasks env url k ids now) s) (cabinets_loop env now nightly ids)"
  have "result_keeps now s ?r" by (intro then_do_keeps with_client_keeps server_tasks_keeps cabinets_loop_keeps)
  with run srv show ?thesis
    by (cases ?r) (auto simp: one_server_def step_keeps_def)
qed

lemma servers_loop_keeps: "servers_loop env now nightly srvs s = Some s' \<Longrightarrow> step_keeps now s s'"
  by (induction srvs arbitrary: s)
     (auto simp: bind_eq_Some_conv intro: step_keeps_trans dest: one_server_keeps)

definition fresh :: "task \<Rightarrow> int \<Rightarrow> dtime \<Rightarrow> 'w col \<Rightarrow> bool" where
  "fresh t every now s \<longleftrightarrow> \<not> due (co_last s t) every now"

lemma is_due_fresh: "is_due t every now s = (b, s') \<Longrightarrow> 0 < every \<Longrightarrow> fresh t every now s'"
  by (auto simp: is_due_def fresh_def due_def tdelta_defs split: if_splits)

lemma fresh_keeps: "fresh t every now s \<Longrightarrow> step_keeps now s s' \<Longrightarrow> 0 < every \<Longrightarrow> fresh t every now s'"
  unfolding step_keeps_def fresh_def due_def by (metis diff_self option.simps(5) tdelta_defs(1) tdelta_defs(5) zero_less_mult_iff zero_less_numeral)

lemma when_due_fresh:
  assumes "0 < every" and "\<And>s'. result_keeps now s' (f s')"
  shows "case when_due t every now f s of Ok s' \<Rightarrow> fresh t every now s' | Broke s' \<Rightarrow> fresh t every now s' | Hangs \<Rightarrow> True"
proof -
  obtain b s1 where d: "is_due t every now s = (b, s1)" by fastforce
  have "case f s1 of Ok s' \<Rightarrow> fresh t every now s' | Broke s' \<Rightarrow> fresh t every now s' | Hangs \<Rightarrow> True"
    using assms(2)[of s1] fresh_keeps[OF is_due_fresh[OF d assms(1)] _ assms(1)]
    by (cases "f s1") auto
  with d is_due_fresh[OF d assms(1)] show ?thesis by (auto simp: when_due_def)
qed

lemma EVERY_pos: "0 < EVERY ''health''" "0 < EVERY ''retention''"
  by (simp_all add: EVERY_def)

lemma then_do_fresh:
  assumes "case r of Ok s' \<Rightarrow> fresh t every now s' | Broke s' \<Rightarrow> fresh t every now s' | Hangs \<Rightarrow> True"
    and "0 < every" and "\<And>s'. result_keeps now s' (f s')"
  shows "case then_do r f of Ok s' \<Rightarrow> fresh t every now s' | Broke s' \<Rightarrow> fresh t every now s' | Hangs \<Rightarrow> True"
proof (cases r)
  case (Ok s1)
  with assms(1) fresh_keeps[OF _ _ assms(2)] assms(3)[of s1] show ?thesis
    by (cases "f s1") (auto simp: then_do_def)
qed (use assms(1) in \<open>simp_all add: then_do_def\<close>)

lemma server_tasks_fresh:
  "case server_tasks env url k ids now s of Ok s' \<Rightarrow> fresh (HealthT url) (EVERY ''health'') now s'
     | Broke s' \<Rightarrow> fresh (HealthT url) (EVERY ''health'') now s' | Hangs \<Rightarrow> True"
  unfolding server_tasks_def
  by (intro then_do_fresh when_due_fresh when_due_keeps EVERY_pos health_task_keeps sessions_task_keeps
      alarms_task_keeps just_ask_keeps[of "ce_cab env"] named_calls)

lemma one_server_fresh:
  assumes "one_server env now nightly ((url, email), ids) s = Some s'"
    and "\<And>x. ce_decrypt env x \<noteq> None" and "cabinet_at (co_db s) (hd ids) \<noteq> None"
  shows "fresh (HealthT url) (EVERY ''health'') now s'"
proof -
  obtain cab where cab: "cabinet_at (co_db s) (hd ids) = Some cab" using assms(3) by blast
  obtain pw where pw: "ce_decrypt env (cab_service_pw_enc cab) = Some pw" using assms(2) by blast
  have "\<exists>key. for_cabinet (ce_decrypt env) cab (co_clients s) =
      Some (factory_client (cab_marina_id cab) (cab_base_url cab) (cab_service_email cab) pw key (co_clients s))"
  proof (cases "truthy (cab_erp_api_key_enc cab)")
    case True
    then obtain e where "cab_erp_api_key_enc cab = Some e" by (elim truthyE)
    moreover obtain key where "ce_decrypt env e = Some key" using assms(2) by blast
    ultimately show ?thesis using pw True by (auto simp: for_cabinet_def)
  qed (use pw in \<open>auto simp: for_cabinet_def\<close>)
  then obtain k cs where k: "for_cabinet (ce_decrypt env) cab (co_clients s) = Some (k, cs)" by fastforce
  let ?t = "server_tasks env url k ids now (s\<lparr>co_clients := cs\<rparr>)"
  have "case then_do ?t (cabinets_loop env now nightly ids) of Ok s' \<Rightarrow> fresh (HealthT url) (EVERY ''health'') now s'
     | Broke s' \<Rightarrow> fresh (HealthT url) (EVERY ''health'') now s' | Hangs \<Rightarrow> True"
    by (intro then_do_fresh server_tasks_fresh EVERY_pos cabinets_loop_keeps)
  with assms(1) cab k show ?thesis
    by (cases "then_do ?t (cabinets_loop env now nightly ids)") (auto simp: one_server_def with_client_def fresh_def)
qed

lemma cabinet_row_ids: "cabinet_at d i \<noteq> None \<longleftrightarrow> i \<in> cab_id ` set (db_cabinets d)"
  by (auto simp: cabinet_at_def find_None_iff)

lemma same_cabinets_row: "same_cabinets d d' \<Longrightarrow> cabinet_at d' i \<noteq> None \<longleftrightarrow> cabinet_at d i \<noteq> None"
proof -
  assume "same_cabinets d d'"
  then have "map fst (map address (db_cabinets d')) = map fst (map address (db_cabinets d))"
    by (simp only: same_cabinets_def)
  then have "map cab_id (db_cabinets d') = map cab_id (db_cabinets d)" by (simp add: address_def comp_def)
  then have "set (map cab_id (db_cabinets d')) = set (map cab_id (db_cabinets d))" by (simp only:)
  then show ?thesis unfolding cabinet_row_ids by simp
qed

text \<open>The servers of a tick: every cabinet's server is there, and every server has a cabinet.\<close>

definition servers_ok :: "nat set \<Rightarrow> ((string \<times> string) \<times> nat list) list \<Rightarrow> bool" where
  "servers_ok ids ss \<longleftrightarrow> list_all (\<lambda>(_, is). is \<noteq> [] \<and> hd is \<in> ids) ss"

lemma add_to_server_keys: "fst ` set (add_to_server k i ss) = insert k (fst ` set ss)"
  by (induction k i ss rule: add_to_server.induct) (simp_all add: insert_commute)

lemma add_to_server_ok: "servers_ok ids ss \<Longrightarrow> i \<in> ids \<Longrightarrow> servers_ok ids (add_to_server k i ss)"
  by (induction ss) (auto simp: servers_ok_def hd_append)

lemma servers_fold:
  assumes "servers_ok ids ss" and "\<And>c. c \<in> set cs \<Longrightarrow> cab_id c \<in> ids"
  shows "servers_ok ids (foldl (\<lambda>ss c. add_to_server (g c) (cab_id c) ss) ss cs)
    \<and> fst ` set (foldl (\<lambda>ss c. add_to_server (g c) (cab_id c) ss) ss cs) = fst ` set ss \<union> g ` set cs"
  using assms
  by (induction cs arbitrary: ss) (simp_all add: add_to_server_ok add_to_server_keys)

lemma servers_of_ok:
  "servers_ok (cab_id ` set (db_cabinets d)) (servers_of d)"
  "fst ` set (servers_of d) = (\<lambda>c. (cab_base_url c, cab_service_email c)) ` set (db_cabinets d)"
  using servers_fold[of "cab_id ` set (db_cabinets d)" "[]" "sort_key cab_id (db_cabinets d)"
      "\<lambda>c. (cab_base_url c, cab_service_email c)"]
  by (simp_all add: servers_of_def servers_ok_def)

lemma servers_loop_fresh:
  assumes "servers_loop env now nightly srvs s = Some s'" and "\<And>x. ce_decrypt env x \<noteq> None"
    and "servers_ok (cab_id ` set (db_cabinets (co_db s))) srvs" and "(url, email) \<in> fst ` set srvs"
  shows "fresh (HealthT url) (EVERY ''health'') now s'"
  using assms(1,3,4)
proof (induction srvs arbitrary: s)
  case (Cons srv srvs)
  then obtain s1 where s1: "one_server env now nightly srv s = Some s1"
    "servers_loop env now nightly srvs s1 = Some s'" by (auto simp: bind_eq_Some_conv)
  obtain k ids where srv: "srv = (k, ids)" by fastforce
  note kept = one_server_keeps[OF s1(1)]
  show ?case
  proof (cases "k = (url, email)")
    case True
    have "cabinet_at (co_db s) (hd ids) \<noteq> None"
      using Cons.prems(2) srv unfolding cabinet_row_ids by (simp add: servers_ok_def)
    with s1(1) srv True have "fresh (HealthT url) (EVERY ''health'') now s1"
      by (intro one_server_fresh[OF _ assms(2)]) simp_all
    then show ?thesis by (rule fresh_keeps[OF _ servers_loop_keeps[OF s1(2)] EVERY_pos(1)])
  next
    case False
    with Cons.prems(3) srv have "(url, email) \<in> fst ` set srvs" by auto
    moreover have "i \<in> cab_id ` set (db_cabinets (co_db s1)) \<longleftrightarrow> i \<in> cab_id ` set (db_cabinets (co_db s))" for i
      using same_cabinets_row kept unfolding cabinet_row_ids[symmetric] step_keeps_def by blast
    ultimately show ?thesis using Cons.IH[OF s1(2)] Cons.prems(2) by (simp add: servers_ok_def list_all_iff)
  qed
qed simp


text \<open>
  The keys of the schedule name the address of a server only. A second service account on the
  same address is its own server in \<open>tick\<close>, and finds every task of that address already done.
\<close>

lemma second_account_is_starved:
  assumes "fresh (HealthT url) (EVERY ''health'') now s" "fresh (SessionsT url) (EVERY ''sessions'') now s"
    "fresh (AlarmsT url) (EVERY ''alarms'') now s" "fresh (BerthsT url) (EVERY ''berths'') now s"
  shows "server_tasks env url k ids now s = Ok s"
  using assms by (simp add: server_tasks_def when_due_def is_due_def fresh_def then_do_def)

section \<open>One row per alarm\<close>

text \<open>\<open>UNIQUE (cabinet_id, cabinet_alarm_id)\<close>; NULLs never collide.\<close>

definition alarm_apart :: "alarm_log \<Rightarrow> alarm_log \<Rightarrow> bool" where
  "alarm_apart a b \<longleftrightarrow> al_cabinet_id a = None \<or> al_cabinet_alarm_id a = None
     \<or> (al_cabinet_id a, al_cabinet_alarm_id a) \<noteq> (al_cabinet_id b, al_cabinet_alarm_id b)"

interpretation alarms_t: constrained_table "\<lambda>_. True" alarm_apart
  by unfold_locales (auto simp: alarm_apart_def)

definition alarms_once :: "db \<Rightarrow> bool" where
  "alarms_once d \<longleftrightarrow> table_valid (\<lambda>_. True) alarm_apart (db_alarm_log d)"

lemma alarms_once_add:
  assumes "alarms_once d" and "\<And>i. aid = Some i \<Longrightarrow> cid = Some c \<and> \<not> list_ex (known_alarm c i) (db_alarm_log d)"
  shows "alarms_once (add_alarm mid pid data now cid aid source d)"
  using assms
  by (auto simp: alarms_once_def add_alarm_def alarms_t.valid_append alarm_apart_def known_alarm_def list_ex_iff)

lemma store_alarm_once: "store_alarm env cabs now a d = (r, d') \<Longrightarrow> alarms_once d \<Longrightarrow> alarms_once d'"
  by (auto simp: store_alarm_def intro: alarms_once_add split: json.splits if_splits option.splits)

lemma store_alarms_once: "store_alarms env cabs now as d = (r, d') \<Longrightarrow> alarms_once d \<Longrightarrow> alarms_once d'"
proof (induction as arbitrary: d r)
  case (Cons a as)
  obtain r1 d1 where a: "store_alarm env cabs now a d = (r1, d1)" by fastforce
  note once = store_alarm_once[OF a Cons.prems(2)]
  show ?case
  proof (cases r1)
    case (Inr n)
    with Cons.prems(1) a obtain r2 where "store_alarms env cabs now as d1 = (r2, d')"
      by (auto split: prod.splits sum.splits)
    then show ?thesis using once by (rule Cons.IH)
  qed (use Cons.prems a once in auto)
qed simp

lemma take_event_once:
  assumes "take_event env cab ev payload data now d = (res, d', msgs)" and "alarms_once d"
  shows "alarms_once d'"
proof (cases "ev \<in> set SESSION_EVENTS")
  case True
  have "alarms_once d1" if t: "take_session cab payload (JObj data) now d = Inr (st, d1)" for st d1
  proof -
    let ?d0 = "add_session_log (cab_marina_id cab) (cab_pedestal_pk cab) payload now d"
    obtain answer where "apply_session ?d0 cab (JObj data) False now = Inr (answer, d1)"
      using t by (auto simp: take_session_def split: sum.splits prod.splits if_splits)
    then have "db_alarm_log d1 = db_alarm_log ?d0" by (cases rule: apply_cases) simp_all
    with assms(2) show ?thesis by (simp add: alarms_once_def add_session_log_def)
  qed
  with assms True show ?thesis by (auto simp: take_event_def split: sum.splits prod.splits)
next
  case False
  have "alarms_once d1" if "take_alarm env cab payload data now d = Inr (st, d1)" for st d1
    using that assms(2)
    by (auto simp: take_alarm_def Let_def intro: alarms_once_add split: if_splits option.splits)
  with assms False show ?thesis by (auto simp: take_event_def split: sum.splits prod.splits)
qed

lemma cabinet_event_once:
  "cabinet_event env cab payload now d = (res, d', msgs) \<Longrightarrow> alarms_once d \<Longrightarrow> alarms_once d'"
  unfolding cabinet_event_def
  by (auto simp: refuse_shape_def write_sync_log_def alarms_once_def[of "_\<lparr>db_sync_log := _\<rparr>"] alarms_once_def[of d]
      split: json.splits if_splits dest: take_event_once)

text \<open>
  C35. An alarm the poll and the webhook both report is one row: neither path ever adds a row
  for a cabinet and alarm number that is already in the log, whatever arrives, in whatever
  order, and however often; the poll adds exactly the rows it counts and changes no other.
\<close>

theorem one_row_per_alarm:
  assumes "alarms_once d"
  shows "(case store_alarms env cabs now as d of (r, d1) \<Rightarrow> alarms_once d1
      \<and> (\<exists>new. d1 = d\<lparr>db_alarm_log := db_alarm_log d @ new\<rparr> \<and> (\<forall>n. r = Inr n \<longrightarrow> length new = n)))
   \<and> (case receive_cabinet_webhook cfg cr henv cid rq now d of (res, d2, msgs) \<Rightarrow> alarms_once d2)"
proof (intro conjI)
  obtain r d1 where s: "store_alarms env cabs now as d = (r, d1)" by fastforce
  from store_alarms_once[OF s assms] store_alarms_appends[OF s] s
  show "case store_alarms env cabs now as d of (r, d1) \<Rightarrow> alarms_once d1
      \<and> (\<exists>new. d1 = d\<lparr>db_alarm_log := db_alarm_log d @ new\<rparr> \<and> (\<forall>n. r = Inr n \<longrightarrow> length new = n))"
    by (simp add: appends_def)
  obtain res d2 msgs where w: "receive_cabinet_webhook cfg cr henv cid rq now d = (res, d2, msgs)" by (metis prod_cases3)
  have n: "alarms_once (note_decoy cfg rq now d)" using assms by (simp add: alarms_once_def)
  from w have "alarms_once d2"
    by (cases rule: cabinet_webhook_cases) (use assms n in \<open>auto dest: cabinet_event_once\<close>)
  with w show "case receive_cabinet_webhook cfg cr henv cid rq now d of (res, d2, msgs) \<Rightarrow> alarms_once d2" by simp
qed

section \<open>A concrete tick\<close>

text \<open>One cabinet never asked for its health, a network that is down, and an alarm reported twice.\<close>

definition sample_col_env :: "int col_env" where
  "sample_col_env = \<lparr>ce_cab = down_env, ce_decrypt = Some,
     ce_int_column = (\<lambda>v. case v of JInt i \<Rightarrow> Some i | _ \<Rightarrow> None)\<rparr>"

definition sample_col :: "int col" where
  "sample_col = \<lparr>co_last = (\<lambda>t. case t of HealthT _ \<Rightarrow> None | _ \<Rightarrow> Some (minutes 20000)), co_busy_sessions = (\<lambda>_. False), co_busy_load = (\<lambda>_. False),
     co_last_nightly = None, co_clients = (\<lambda>_. None), co_db = sample_db\<lparr>db_cabinets := [sample_cabinet\<lparr>cab_is_simulated := True\<rparr>]\<rparr>,
     co_world = 10, co_counts = (\<lambda>_. 0), co_last_error = None, co_cycles = 0, co_last_tick = None\<rparr>"

definition sample_alarm :: json where
  "sample_alarm = JObj [(''id'', JInt 9), (''pedestal_id'', JInt 1)]"

theorem one_row_per_alarm_witness:
  "case store_alarms sample_col_env [sample_cabinet] 5 [sample_alarm, sample_alarm] sample_db of
     (r, d1) \<Rightarrow> r = Inr 1 \<and> alarms_once d1 \<and> length (db_alarm_log d1) = 1"
proof -
  have o1: "alarms_once sample_db" by (simp add: alarms_once_def table_valid_def sample_db_def empty_db_def)
  have r: "case store_alarms sample_col_env [sample_cabinet] 5 [sample_alarm, sample_alarm] sample_db of
     (r, d1) \<Rightarrow> r = Inr 1 \<and> length (db_alarm_log d1) = 1" by code_simp
  from one_row_per_alarm[OF o1, where env = sample_col_env and cabs = "[sample_cabinet]" and now = 5
      and as = "[sample_alarm, sample_alarm]" and cfg = default_settings and cr = sample_crypto
      and henv = sample_hooks and cid = 1 and rq = "hook_call []"] r
  show ?thesis by (simp del: store_alarms.simps split: prod.splits)
qed


end
