(* ===== verification/Nfc_Simulator.thy ===== *)
theory Nfc_Simulator
  imports Collector
begin

text \<open>
  The channel-B side of the cabinet simulator (\<open>simulator/cabinet_sim.py\<close>), which the repository
  keeps as its executable reading of the cabinet's contract: the state, the sessions and the
  routes under \<open>/api/nfc\<close>. The reconciler's paged pull is then shown to refine reading the
  cabinet's whole listing at once, and the client talking to this simulator to be such a
  cabinet.

  Session ids are integers, as the cabinet sends them. A duration given as a text and a time
  without a zone (which Python would read in the host's zone) count as unreadable. The other
  routes of the simulator are a parameter.
\<close>

section \<open>The simulator's state\<close>

record sim_state =
  sm_display_id :: string
  sm_smart_mode :: bool
  sm_clock :: dtime
  sm_erp_api_key :: "string option"
  sm_contract :: string
  sm_nfc_sessions :: "(int \<times> (string \<times> json) list) list"
  sm_reconciled :: "int \<Rightarrow> nat"
  sm_acked :: "int list"
  sm_calls :: "(string \<times> string) list"

definition err :: "int \<Rightarrow> string \<Rightarrow> http_result" where
  "err status detail = reply status (JObj [(''detail'', JStr detail)])"

definition ok_json :: "json \<Rightarrow> http_result" where
  "ok_json j = reply 200 j"

text \<open>\<open>_parse_z\<close>; \<open>None\<close> raises.\<close>

definition parse_z :: "string \<Rightarrow> dtime option" where
  "parse_z v = (case fromisoformat (replace_Z v) of Some (Aware d off) \<Rightarrow> Some (d - off) | _ \<Rightarrow> None)"

definition float_minutes :: "json \<Rightarrow> rat option" where
  "float_minutes v = (case v of JInt i \<Rightarrow> Some (fl (of_int i)) | JFloat x \<Rightarrow> Some x
     | JBool b \<Rightarrow> Some (if b then 1 else 0) | _ \<Rightarrow> None)"

text \<open>\<open>ended_at\<close>: activated_at + duration_minutes of an ended session.\<close>

definition sim_ended_at :: "(string \<times> json) list \<Rightarrow> sync_error + dtime option" where
  "sim_ended_at p =
     (if jget p ''status'' \<noteq> JStr ''ended'' \<or> \<not> jtrue (jget p ''activated_at'') \<or> jget p ''duration_minutes'' = JNull
      then Inr None
      else (case (Option.bind (jstr (jget p ''activated_at'')) parse_z, float_minutes (jget p ''duration_minutes'')) of
              (Some a, Some m) \<Rightarrow> Inr (Some (a + timedelta_minutes m))
            | _ \<Rightarrow> Inl sync_error.Crash))"

text \<open>\<open>_match\<close>: the parts of the path, and what the placeholders stand for.\<close>

definition strip_slashes :: "string \<Rightarrow> string" where
  "strip_slashes s = rstrip_slash (dropWhile (\<lambda>c. c = CHR ''/'') s)"

fun match_parts :: "string list \<Rightarrow> string list \<Rightarrow> (string \<times> string) list option" where
  "match_parts [] [] = Some []"
| "match_parts (t # ts) (p # ps) =
     (if starts_with t ''{'' then map_option (\<lambda>m. (butlast (tl t), p) # m) (match_parts ts ps)
      else if t = p then match_parts ts ps else None)"
| "match_parts _ _ = None"

definition sim_match :: "string \<Rightarrow> string \<Rightarrow> (string \<times> string) list option" where
  "sim_match template path =
     match_parts (split_on (CHR ''/'') (strip_slashes template)) (split_on (CHR ''/'') (strip_slashes path))"

text \<open>The parameter of a one-placeholder template.\<close>

definition sim_param :: "string \<Rightarrow> string \<Rightarrow> string option" where
  "sim_param template path = map_option (\<lambda>m. snd (hd m)) (sim_match template path)"

definition session_at :: "sim_state \<Rightarrow> string \<Rightarrow> (int \<times> (string \<times> json) list) option" where
  "session_at s sid = (if all_digits sid
     then find (\<lambda>(i, _). i = int (read_nat sid)) (sm_nfc_sessions s) else None)"

text \<open>Before R14, reading a session marks it reconciled.\<close>

definition mark_read :: "int list \<Rightarrow> sim_state \<Rightarrow> sim_state" where
  "mark_read ids s = (if sm_contract s = ''a709cf8''
     then s\<lparr>sm_reconciled := foldl (\<lambda>f i. f(i := f i + 1)) (sm_reconciled s) ids\<rparr> else s)"

section \<open>The routes of channel B\<close>

definition scan_route :: "sim_state \<Rightarrow> req_body \<Rightarrow> http_result \<times> sim_state" where
  "scan_route s body = (case body of
     JsonBody (JObj b) \<Rightarrow>
       if \<not> sm_smart_mode s
       then (err 409 ''This pedestal is running on its own and cannot be switched on remotely. Please ask the marina office to start your socket.'', s)
       else (case item_or b ''_outlet'' (JStr ''Q1'') of
               JStr outlet \<Rightarrow>
                 (let word = (if starts_with outlet ''Q'' then ''socket'' else ''water outlet'');
                      water = starts_with outlet ''V'';
                      busy = list_ex (\<lambda>(_, p). jget p ''socket_id'' = JStr outlet \<and> jget p ''status'' = JStr ''active'')
                               (sm_nfc_sessions s)
                  in if busy
                     then (err 409 (''This '' @ word @ '' is already in use. Please use another '' @ word @ ''.''), s)
                     else (ok_json (JObj [(''status'', JStr ''pending''),
                         (''message'', JStr (if water then ''Please open your tap to activate the water outlet''
                            else ''Please plug in your charger to activate the socket'')),
                         (''cabinet_id'', JStr (sm_display_id s)), (''socket_id'', JStr outlet),
                         (''outlet_type'', JStr (if water then ''valve'' else ''socket'')),
                         (''session_type'', JStr (if water then ''water'' else ''electricity'')),
                         (''berth_id'', JNull), (''expires_at'', JStr (iso_z (sm_clock s + minutes 5)))]), s))
             | _ \<Rightarrow> (Failed, s))
   | _ \<Rightarrow> (Failed, s))"

definition stop_route :: "sim_state \<Rightarrow> string \<Rightarrow> http_result \<times> sim_state" where
  "stop_route s sid = (case session_at s sid of
     None \<Rightarrow> (err 404 ''Session not found'', s)
   | Some (i, p) \<Rightarrow>
       if jget p ''status'' \<noteq> JStr ''active'' then (err 409 ''Session already ended by operator'', s)
       else (let p' = put_item ''status'' (JStr ''ended'') p in
             (ok_json (JObj p'), s\<lparr>sm_nfc_sessions := update_where (\<lambda>(j, _). j = i) (\<lambda>_. (i, p')) (sm_nfc_sessions s)\<rparr>)))"

definition session_route :: "sim_state \<Rightarrow> string \<Rightarrow> http_result \<times> sim_state" where
  "session_route s sid = (case session_at s sid of
     None \<Rightarrow> (err 404 ''Session not found'', s)
   | Some (i, p) \<Rightarrow> (ok_json (JObj p), mark_read [i] s))"

definition by_user_route :: "sim_state \<Rightarrow> string \<Rightarrow> http_result \<times> sim_state" where
  "by_user_route s uid =
     (let rows = filter (\<lambda>(_, p). jget p ''customer_id'' = JStr uid) (sm_nfc_sessions s) in
      (ok_json (JObj [(''user_id'', JStr uid), (''count'', JInt (int (length rows))),
         (''sessions'', JList (map (\<lambda>(_, p). JObj p) rows))]), mark_read (map fst rows) s))"

text \<open>The ended sessions of a window, by their end and then their id.\<close>

fun ended_rows :: "dtime \<Rightarrow> dtime \<Rightarrow> (int \<times> (string \<times> json) list) list
    \<Rightarrow> sync_error + (dtime \<times> int \<times> json) list" where
  "ended_rows frm to [] = Inr []"
| "ended_rows frm to ((i, p) # ps) =
     sbind (sim_ended_at p) (\<lambda>e. sbind (ended_rows frm to ps) (\<lambda>rest.
       Inr (case e of Some t \<Rightarrow> if frm \<le> t \<and> t < to then (t, i, JObj p) # rest else rest | None \<Rightarrow> rest)))"

definition sim_listing :: "sim_state \<Rightarrow> dtime \<Rightarrow> dtime \<Rightarrow> sync_error + json list" where
  "sim_listing s frm to = map_sum id
     (\<lambda>rows. map (\<lambda>(_, _, j). j) (sort_key (\<lambda>(t, _, _). t) (sort_key (\<lambda>(_, i, _). i) rows)))
     (ended_rows frm to (sm_nfc_sessions s))"

text \<open>\<open>rows[a:b]\<close>.\<close>

definition py_index :: "int \<Rightarrow> nat \<Rightarrow> nat" where
  "py_index i n = (if i < 0 then nat (max 0 (i + int n)) else min (nat i) n)"

definition py_slice :: "'a list \<Rightarrow> int \<Rightarrow> int \<Rightarrow> 'a list" where
  "py_slice xs a b = (let n = length xs; a' = py_index a n; b' = py_index b n in take (b' - a') (drop a' xs))"

definition int_param :: "(string \<times> string) list \<Rightarrow> string \<Rightarrow> int \<Rightarrow> int option" where
  "int_param q k dflt = (case map_of q k of None \<Rightarrow> Some dflt | Some v \<Rightarrow> py_int_str v)"

definition range_route :: "sim_state \<Rightarrow> (string \<times> string) list \<Rightarrow> http_result \<times> sim_state" where
  "range_route s q =
     (case (Option.bind (map_of q ''ended_from'') parse_z, Option.bind (map_of q ''ended_to'') parse_z) of
        (Some frm, Some to) \<Rightarrow>
          (case (int_param q ''limit'' 100, int_param q ''offset'' 0, sim_listing s frm to) of
             (Some limit, Some offset, Inr rows) \<Rightarrow>
               (ok_json (JObj [(''sessions'', JList (py_slice rows offset (offset + limit))),
                  (''total'', JInt (int (length rows))), (''limit'', JInt limit), (''offset'', JInt offset)]), s)
           | _ \<Rightarrow> (Failed, s))
      | _ \<Rightarrow> (err 422 ''ended_from and ended_to are required ISO-8601 UTC'', s))"

text \<open>\<open>s.acked.extend(int(i) for i in ids)\<close>: a value that is no integer raises after those before it.\<close>

fun take_ints :: "json list \<Rightarrow> int list \<times> bool" where
  "take_ints [] = ([], True)"
| "take_ints (v # vs) = (case py_int v of
     Inl _ \<Rightarrow> ([], False)
   | Inr i \<Rightarrow> (case take_ints vs of (l, b) \<Rightarrow> (i # l, b)))"

definition ack_route :: "sim_state \<Rightarrow> req_body \<Rightarrow> http_result \<times> sim_state" where
  "ack_route s body = (case body of
     JsonBody (JObj b) \<Rightarrow>
       (case iter_json (jget b ''session_ids'') of
          Inl _ \<Rightarrow> (Failed, s)
        | Inr vs \<Rightarrow> (case take_ints vs of (l, all_read) \<Rightarrow>
            (if all_read then ok_json (JObj [(''acknowledged'', JInt (int (length vs)))]) else Failed,
             s\<lparr>sm_acked := sm_acked s @ l\<rparr>)))
   | _ \<Rightarrow> (Failed, s))"

definition nfc_auth :: "sim_state \<Rightarrow> credential \<Rightarrow> http_result option" where
  "nfc_auth s cred =
     (if \<not> truthy (sm_erp_api_key s) then Some (err 503 ''ERP API not configured'')
      else if map_option ApiKey (sm_erp_api_key s) \<noteq> Some cred then Some (err 401 ''Invalid or missing API key'')
      else None)"

definition nfc_route :: "http_request \<Rightarrow> string \<Rightarrow> sim_state \<Rightarrow> http_result \<times> sim_state" where
  "nfc_route rq rest s0 =
     (let s = s0\<lparr>sm_calls := sm_calls s0 @ [(Cabinet_Client.http_request.rq_method rq, ''/api/nfc/'' @ rest)]\<rparr>;
          method = Cabinet_Client.http_request.rq_method rq;
          stop = sim_param ''session/{sid}/stop'' rest; one = sim_param ''session/{sid}'' rest;
          user = sim_param ''sessions/by-user/{uid}'' rest
      in case nfc_auth s (rq_auth rq) of
           Some r \<Rightarrow> (r, s)
         | None \<Rightarrow>
             if method = ''POST'' \<and> rest = ''scan'' then scan_route s (rq_body rq)
             else if method = ''POST'' \<and> stop \<noteq> None then stop_route s (or_else stop [])
             else if method = ''GET'' \<and> one \<noteq> None then session_route s (or_else one [])
             else if method = ''GET'' \<and> user \<noteq> None then by_user_route s (or_else user [])
             else if sm_contract s = ''r14'' \<and> rest = ''sessions'' \<and> method = ''GET'' then range_route s (rq_query rq)
             else if sm_contract s = ''r14'' \<and> rest = ''sessions/ack'' \<and> method = ''POST'' then ack_route s (rq_body rq)
             else (err 404 ''Not Found'', s))"

text \<open>The simulator as the network behind a client: its channel B under one address.\<close>

definition sim_http ::
    "(http_request \<Rightarrow> sim_state \<Rightarrow> http_result \<times> sim_state) \<Rightarrow> string \<Rightarrow> http_request \<Rightarrow> sim_state \<Rightarrow> http_result \<times> sim_state" where
  "sim_http other base rq s =
     (let nfc = base @ ''/api/nfc/'' in
      if starts_with (rq_url rq) nfc then nfc_route rq (drop (length nfc) (rq_url rq)) s else other rq s)"

definition sim_env ::
    "(http_request \<Rightarrow> sim_state \<Rightarrow> http_result \<times> sim_state) \<Rightarrow> string \<Rightarrow> sim_state cab_env" where
  "sim_env other base = \<lparr>env_now = sm_clock, env_http = sim_http other base, env_sleep = (\<lambda>_ s. s),
     env_jwt_exp = (\<lambda>_. Inr None), env_dumps = (\<lambda>_. [])\<rparr>"

section \<open>Paging through a listing\<close>

text \<open>
  What the reconciler needs of a cabinet to see everything: each page is the next piece of one
  listing that does not change under it, and carries the listing's length.
\<close>

locale paged_cabinet =
  fixes nc :: "'w nfc_cabinet" and good :: "'w \<Rightarrow> bool" and listing :: "json list" and frm to :: dtime
  assumes page: "good w \<Longrightarrow> \<exists>out w'. nc_range nc frm to limit offset w = (Inr out, w') \<and> good w'
      \<and> oc_ok out \<and> sessions_of out = Inr (take limit (drop offset listing))
      \<and> data_get out ''total'' = Inr (JInt (int (length listing)))"
begin

lemma ok_not_missing: "oc_ok out \<Longrightarrow> \<not> is_missing_route out"
  by (auto simp: is_missing_route_def oc_ok_def)

lemma one_page:
  assumes "good w" and "apply_rows cab to (take PAGE (drop offset listing)) (d, run) = Inr (d', run')"
  shows "\<exists>w'. good w' \<and> range_page nc cab frm to offset d rc run w =
    Page d' run' w' (length (take PAGE (drop offset listing))) (length listing \<le> offset + PAGE)"
proof -
  from page[OF assms(1), of PAGE offset] obtain out w' where p:
    "nc_range nc frm to PAGE offset w = (Inr out, w')" "good w'" "oc_ok out"
    "sessions_of out = Inr (take PAGE (drop offset listing))"
    "data_get out ''total'' = Inr (JInt (int (length listing)))" by blast
  have stop: "(if take PAGE (drop offset listing) = [] then Inr True
      else reached_total (JInt (int (length listing))) (offset + length (take PAGE (drop offset listing)))) =
     (Inr (length listing \<le> offset + PAGE) :: sync_error + bool)"
    by (auto simp: reached_total_def PAGE_def min_def)
  show ?thesis
    by (intro exI[of _ w'] conjI)
       (use p ok_not_missing[OF p(3)] assms(2) stop in \<open>simp_all add: range_page_def\<close>)
qed

lemma apply_rows_append:
  "apply_rows cab now (xs @ ys) s = sbind (apply_rows cab now xs s) (apply_rows cab now ys)"
  by (induction xs arbitrary: s) (auto simp: sbind_def split: prod.splits sum.splits)

lemma whole_listing:
  assumes "good w" and "apply_rows cab to (drop offset listing) (d, run) = Inr (d', run')"
  shows "\<exists>w'. good w' \<and> range_loop nc cab frm to offset d rc run w = Some (Finished d' run' w')"
  using assms
proof (induction "length listing - offset" arbitrary: offset d run rc w rule: less_induct)
  case less
  let ?xs = "take PAGE (drop offset listing)"
  have "apply_rows cab to (?xs @ drop PAGE (drop offset listing)) (d, run) = Inr (d', run')"
    using less.prems(2) by (simp del: drop_drop)
  then obtain d1 run1 where one: "apply_rows cab to ?xs (d, run) = Inr (d1, run1)"
    and rest: "apply_rows cab to (drop (offset + PAGE) listing) (d1, run1) = Inr (d', run')"
    unfolding apply_rows_append by (auto simp: sbind_Inr add.commute)
  from one_page[OF less.prems(1) one] obtain w1 where w1: "good w1"
    "range_page nc cab frm to offset d rc run w = Page d1 run1 w1 (length ?xs) (length listing \<le> offset + PAGE)"
    by blast
  show ?case
  proof (cases "length listing \<le> offset + PAGE")
    case True
    with rest have "d1 = d'" "run1 = run'" by simp_all
    with w1 True show ?thesis by (subst range_loop.simps) simp
  next
    case False
    then have n: "length ?xs = PAGE" by simp
    have "length listing - (offset + PAGE) < length listing - offset" using False by (simp add: PAGE_def)
    from less.hyps[OF this w1(1) rest, of run1] obtain w' where "good w'"
      "range_loop nc cab frm to (offset + PAGE) d1 run1 run1 w1 = Some (Finished d' run' w')" by blast
    with w1(2) False n show ?thesis by (subst range_loop.simps) simp
  qed
qed

end

section \<open>The client in front of the simulator\<close>

definition sim_good :: "client \<Rightarrow> json list \<Rightarrow> dtime \<Rightarrow> dtime \<Rightarrow> sim_state \<Rightarrow> bool" where
  "sim_good cl listing frm to w \<longleftrightarrow> sm_contract w = ''r14'' \<and> truthy (cl_erp_api_key cl)
     \<and> sm_erp_api_key w = cl_erp_api_key cl
     \<and> (case (parse_z (iso_z frm), parse_z (iso_z to)) of
          (Some f, Some t) \<Rightarrow> sim_listing w f t = Inr listing | _ \<Rightarrow> False)"

lemma digit_not_space: "is_digit c \<Longrightarrow> \<not> is_space c" "is_digit c \<Longrightarrow> \<not> is_sign c" "is_digit c \<Longrightarrow> c \<noteq> CHR ''_''"
  by (auto simp: is_digit_def is_space_def is_sign_def Let_def)

lemma dropWhile_id: "list_all (\<lambda>c. \<not> P c) s \<Longrightarrow> dropWhile P s = s"
  by (cases s) auto

lemma py_int_str_nat: "py_int_str (nat_str n) = Some (int n)"
proof -
  have d: "list_all is_digit (nat_str n)" using nat_str_digits by (auto simp: list_all_iff)
  then have "list_all (\<lambda>c. \<not> is_space c) (nat_str n)" "list_all (\<lambda>c. \<not> is_space c) (rev (nat_str n))"
    by (auto simp: list_all_iff digit_not_space)
  then have s: "strip (nat_str n) = nat_str n" by (simp add: strip_def lstrip_def dropWhile_id)
  have "is_digit (hd (nat_str n))" using d hd_in_set[OF nat_str_nonempty] by (auto simp: list_all_iff)
  then have h: "\<not> is_sign (hd (nat_str n))" "hd (nat_str n) \<noteq> CHR ''-''"
    using digit_not_space by (auto simp: is_digit_def)
  have "\<not> is_digit (CHR ''_'')" by (simp add: is_digit_def)
  with d have "split_on (CHR ''_'') (nat_str n) = [nat_str n]"
    by (intro split_on_single) (auto simp: list_all_iff)
  with s h d show ?thesis by (simp add: py_int_str_def Let_def read_nat_str)
qed

lemma py_slice_nat: "py_slice xs (int a) (int a + int n) = take n (drop a xs)"
  by (auto simp: py_slice_def py_index_def Let_def nat_add_distrib min_def)

lemma sessions_path:
  "sim_param ''session/{sid}/stop'' ''sessions'' = None" "sim_param ''session/{sid}'' ''sessions'' = None"
  "sim_param ''sessions/by-user/{uid}'' ''sessions'' = None"
  by code_simp+

lemma range_request:
  assumes "sim_good cl listing frm to w"
  shows "\<exists>r w'. sim_http other (cl_base_url cl) \<lparr>Cabinet_Client.http_request.rq_method = ''GET'',
        rq_url = cl_base_url cl @ NFC_SESSIONS_RANGE,
        rq_query = [(''ended_from'', iso_z frm), (''ended_to'', iso_z to), (''limit'', nat_str limit), (''offset'', nat_str offset)],
        rq_body = NoBody, rq_auth = ApiKey (or_else (cl_erp_api_key cl) [])\<rparr> w = (Responded r, w')
     \<and> rs_status r = 200 \<and> rs_json r = Some (JObj [(''sessions'', JList (take limit (drop offset listing))),
         (''total'', JInt (int (length listing))), (''limit'', JInt (int limit)), (''offset'', JInt (int offset))])
     \<and> sim_good cl listing frm to w'"
proof -
  obtain f t where p: "parse_z (iso_z frm) = Some f" "parse_z (iso_z to) = Some t" "sim_listing w f t = Inr listing"
    using assms by (auto simp: sim_good_def split: option.splits)
  obtain key where k: "cl_erp_api_key cl = Some key" "sm_erp_api_key w = Some key" "key \<noteq> []" "sm_contract w = ''r14''"
    using assms by (auto simp: sim_good_def elim: truthyE)
  let ?s = "w\<lparr>sm_calls := sm_calls w @ [(''GET'', ''/api/nfc/sessions'')]\<rparr>"
  have same: "sim_listing ?s = sim_listing w" by (intro ext) (simp add: sim_listing_def)
  have "sim_listing ?s f t = Inr listing" using p(3) same by simp
  moreover have "sim_good cl listing frm to ?s" using assms same by (simp add: sim_good_def split: option.splits)
  moreover have u: "starts_with (cl_base_url cl @ NFC_SESSIONS_RANGE) (cl_base_url cl @ ''/api/nfc/'')"
    using starts_with_append[of "cl_base_url cl @ ''/api/nfc/''" "''sessions''"] by (simp add: NFC_SESSIONS_RANGE_def)
  ultimately show ?thesis using p k
    by (simp add: sim_http_def nfc_route_def nfc_auth_def sessions_path range_route_def int_param_def py_int_str_nat
        py_slice_nat ok_json_def reply_def NFC_SESSIONS_RANGE_def Let_def)
qed

interpretation simulator: paged_cabinet "channel_b (sim_env other (cl_base_url cl)) cl" "sim_good cl listing frm to"
    listing frm to for other cl listing frm to
proof (unfold_locales, goal_cases)
  case (1 w limit offset)
  obtain key where k: "cl_erp_api_key cl = Some key" "key \<noteq> []"
    using 1 by (auto simp: sim_good_def elim: truthyE)
  then obtain c cs where key: "key = c # cs" by (cases key) auto
  from range_request[OF 1, of other limit offset] obtain r w' where r:
    "sim_http other (cl_base_url cl) \<lparr>Cabinet_Client.http_request.rq_method = ''GET'',
        rq_url = cl_base_url cl @ NFC_SESSIONS_RANGE,
        rq_query = [(''ended_from'', iso_z frm), (''ended_to'', iso_z to), (''limit'', nat_str limit), (''offset'', nat_str offset)],
        rq_body = NoBody, rq_auth = ApiKey (c # cs)\<rparr> w = (Responded r, w')"
    "rs_status r = 200" "rs_json r = Some (JObj [(''sessions'', JList (take limit (drop offset listing))),
         (''total'', JInt (int (length listing))), (''limit'', JInt (int limit)), (''offset'', JInt (int offset))])"
    "sim_good cl listing frm to w'" using k key by auto
  let ?j = "JObj [(''sessions'', JList (take limit (drop offset listing))),
         (''total'', JInt (int (length listing))), (''limit'', JInt (int limit)), (''offset'', JInt (int offset))]"
  let ?out = "(outcome ''ok'' ''nfc.sessions_range'')\<lparr>oc_data := Json ?j, oc_http_status := Some 200\<rparr>"
  have "nc_range (channel_b (sim_env other (cl_base_url cl)) cl) frm to limit offset w = (Inr ?out, w')"
    using r k key
    by (simp add: channel_b_def nfc_sessions_ended_between_def nfc_def ATTEMPTS_def numeral_3_eq_3 sim_env_def Let_def)
  moreover have "sessions_of ?out = Inr (take limit (drop offset listing))"
    "data_get ?out ''total'' = Inr (JInt (int (length listing)))" "oc_ok ?out"
    by (auto simp: sessions_of_def data_get_def iter_json_def jget_def oc_ok_def outcome_def)
  ultimately show ?case using r(4) by blast
qed


definition sample_sim :: sim_state where
  "sample_sim = \<lparr>sm_display_id = ''KRK-1'', sm_smart_mode = True, sm_clock = 0, sm_erp_api_key = Some ''k'',
     sm_contract = ''r14'', sm_nfc_sessions = [(41, [(''session_id'', JInt 41), (''cabinet_id'', JStr ''KRK-1''),
       (''socket_id'', JStr ''Q2''), (''session_type'', JStr ''electricity''), (''customer_id'', JStr ''C-7''),
       (''status'', JStr ''ended''), (''activated_at'', JStr ''1970-01-02T00:00:00Z''), (''duration_minutes'', JInt 60),
       (''energy_kwh'', JNull), (''water_liters'', JNull), (''meter_energy_start_kwh'', JNull),
       (''meter_energy_end_kwh'', JNull), (''meter_water_start_l'', JNull), (''meter_water_end_l'', JNull),
       (''consumption_source'', JStr ''register''), (''power_kw_current'', JNull)])],
     sm_reconciled = (\<lambda>_. 0), sm_acked = [], sm_calls = []\<rparr>"


end
