(* ===== verification/Controls.thy ===== *)
theory Controls
  imports Collector Berth_Status
begin

text \<open>
  \<open>routers/controls.py\<close> with its half of the cabinet contract (\<open>routers/_cabinet.py\<close>),
  \<open>services/command_audit.py\<close> and \<open>record_action\<close> of \<open>services/audit_log.py\<close>: an operator's command
  from the checks of the request to the answer. A command is written to \<open>command_audit\<close>
  before anything is sent and completed with its outcome afterwards.

  The body of an HTTP error is reduced to its status and its code or text.
\<close>

section \<open>The answer to an outcome\<close>

definition COMMAND_HTTP :: "string \<Rightarrow> int option" where
  "COMMAND_HTTP = map_of [(''ok'', 200), (''already_ended'', 200), (''standalone'', 409), (''awaiting_plug'', 409),
     (''outlet_busy'', 409), (''nfc_mapping_mismatch'', 409), (''session_state_changed'', 409), (''conflict'', 409),
     (''not_found'', 404), (''not_enabled'', 503), (''capability_unavailable'', 503), (''no_contact'', 503),
     (''stale'', 503), (''cabinet_auth_failed'', 503), (''erp_bug'', 502)]"

definition command_answer :: "Outcome \<Rightarrow> http_error + Outcome" where
  "command_answer out = (case COMMAND_HTTP (oc_code out) of
     None \<Rightarrow> Inl http_error.Crash
   | Some st \<Rightarrow> if st \<noteq> 200 then Inl (Http st (oc_code out)) else Inr out)"

definition read_answer :: "string \<Rightarrow> Outcome \<Rightarrow> string \<times> payload \<times> bool \<times> public_outcome option" where
  "read_answer field out =
     (field, if has_data out then oc_data out else Json JNull, oc_is_stale out, public out)"

section \<open>The two audits\<close>

definition command_row ::
    "cabinet \<Rightarrow> nat option \<Rightarrow> string \<Rightarrow> string \<Rightarrow> string option \<Rightarrow> string option \<Rightarrow> string
     \<Rightarrow> string option \<Rightarrow> string option \<Rightarrow> dtime \<Rightarrow> db \<Rightarrow> command_audit" where
  "command_row cab oid key action actor_ref reason url tag_source ip now d =
     \<lparr>cmd_id = next_id cmd_id (db_command_audit d), cmd_cabinet_id = cab_id cab, cmd_outlet_id = oid,
      cmd_endpoint_key = key, cmd_action = action, cmd_actor_type = ''operator'', cmd_actor_ref = actor_ref,
      cmd_tag_source = tag_source, cmd_reason = reason, cmd_request_url = url, cmd_http_status = None,
      cmd_detail = None, cmd_source_ip = ip, cmd_created_at = now, cmd_outcome = None, cmd_completed_at = None\<rparr>"

text \<open>\<open>begin\<close>: committed before anything is sent; the database refuses a row that breaks its CHECKs.\<close>

definition begin_command :: "command_audit \<Rightarrow> db \<Rightarrow> http_error + db" where
  "begin_command row d =
     (if command_audit_checks row then Inr (d\<lparr>db_command_audit := db_command_audit d @ [row]\<rparr>)
      else Inl http_error.Crash)"

definition completed :: "Outcome \<Rightarrow> dtime \<Rightarrow> command_audit \<Rightarrow> command_audit" where
  "completed out now row = row\<lparr>cmd_outcome := Some (oc_code out), cmd_http_status := oc_http_status out,
     cmd_detail := (if truthy (oc_cabinet_detail out) then map_option (cut 1000) (oc_cabinet_detail out) else None),
     cmd_completed_at := Some now\<rparr>"

definition complete_command :: "nat \<Rightarrow> Outcome \<Rightarrow> dtime \<Rightarrow> db \<Rightarrow> db" where
  "complete_command i out now d =
     d\<lparr>db_command_audit := update_where (\<lambda>r. cmd_id r = i) (completed out now) (db_command_audit d)\<rparr>"

text \<open>\<open>record_action\<close>; \<open>None\<close> stands for details that are no JSON, which the insert refuses.\<close>

definition record_action ::
    "nat option \<Rightarrow> nat \<Rightarrow> string \<Rightarrow> int option \<Rightarrow> int option \<Rightarrow> json option \<Rightarrow> dtime \<Rightarrow> db \<Rightarrow> http_error + db" where
  "record_action uid mid action pid target details now d = (case details of
     None \<Rightarrow> Inl http_error.Crash
   | Some j \<Rightarrow> Inr (d\<lparr>db_audit_log := db_audit_log d @
       [\<lparr>au_id = next_id au_id (db_audit_log d), au_user_id = uid, au_marina_id = mid, au_pedestal_id = pid,
         au_action = action, au_target_id = target, au_details = j, au_performed_at = now\<rparr>]\<rparr>))"

definition get_audit_log :: "db \<Rightarrow> nat \<Rightarrow> nat \<Rightarrow> string option \<Rightarrow> nat option \<Rightarrow> audit_log list" where
  "get_audit_log d mid limit action uid = take limit (sort_key (\<lambda>r. - au_performed_at r)
     (filter (\<lambda>r. au_marina_id r = mid \<and> (truthy action \<longrightarrow> Some (au_action r) = action)
        \<and> (uid \<noteq> None \<longrightarrow> au_user_id r = uid)) (db_audit_log d)))"

definition opt_json :: "('a \<Rightarrow> json) \<Rightarrow> 'a option \<Rightarrow> json" where
  "opt_json f v = (case v of None \<Rightarrow> JNull | Some x \<Rightarrow> f x)"

definition audit_details :: "Outcome \<Rightarrow> (string \<times> json) list \<Rightarrow> json option" where
  "audit_details out extra =
     (let head1 = [(''outcome'', JStr (oc_code out)), (''cabinet_status'', opt_json JInt (oc_http_status out))]
      in if \<not> oc_ok out then Some (JObj (head1 @ [(''result'', JNull)] @ extra))
         else (case oc_data out of
                 Json j \<Rightarrow> Some (JObj (head1 @ [(''result'', j)] @ extra))
               | Bytes _ \<Rightarrow> None))"

section \<open>Which cabinet, and may it be commanded\<close>

record 'w ctl =
  ct_clients :: clients
  ct_db :: db
  ct_world :: 'w

record 'w ctl_env =
  te_cab :: "'w cab_env"
  te_decrypt :: "string \<Rightarrow> string option"

definition cabinet_of :: "db \<Rightarrow> nat \<Rightarrow> nat \<Rightarrow> http_error + cabinet" where
  "cabinet_of d mid cid = (case cabinet_at d cid of
     None \<Rightarrow> Inl (Http 404 ''Cabinet not found in this marina'')
   | Some cab \<Rightarrow> if cab_marina_id cab \<noteq> mid then Inl (Http 404 ''Cabinet not found in this marina'') else Inr cab)"

definition is_demo_marina :: "db \<Rightarrow> nat \<Rightarrow> bool" where
  "is_demo_marina d mid \<longleftrightarrow> list_ex (\<lambda>c. cab_marina_id c = mid \<and> cab_is_simulated c) (db_cabinets d)"

definition cabinet_for :: "db \<Rightarrow> nat \<Rightarrow> int option \<Rightarrow> http_error + cabinet" where
  "cabinet_for d mid pk =
     (let q = filter (\<lambda>c. cab_marina_id c = mid) (db_cabinets d);
          none = Inl (Http 409 ''cabinet_not_configured'')
      in case pk of
           Some p \<Rightarrow> (case find (\<lambda>c. cab_pedestal_pk c = p) q of Some c \<Rightarrow> Inr c | None \<Rightarrow> none)
         | None \<Rightarrow> (case q of [] \<Rightarrow> none | [c] \<Rightarrow> Inr c | _ \<Rightarrow> Inl (Http 422 ''pedestal_required'')))"

text \<open>The client of one cabinet; credentials that do not decrypt raise. The clients built on
  the way stay in the factory, whatever the request ends in.\<close>

definition client_of ::
    "'w ctl_env \<Rightarrow> cabinet \<Rightarrow> clients \<Rightarrow> (http_error + account_key) \<times> clients" where
  "client_of env cab cs = (case for_cabinet (te_decrypt env) cab cs of
     None \<Rightarrow> (Inl http_error.Crash, cs) | Some (k, cs') \<Rightarrow> (Inr k, cs'))"

definition marina_client ::
    "'w ctl_env \<Rightarrow> nat \<Rightarrow> user \<Rightarrow> nat option \<Rightarrow> db \<Rightarrow> clients \<Rightarrow> (http_error + account_key) \<times> clients" where
  "marina_client env mid u cid d cs = (case marina_row d mid of
     None \<Rightarrow> (Inl (Http 404 ''Marina not found''), cs)
   | Some _ \<Rightarrow>
       (case require_marina_access d mid u of
          Inl e \<Rightarrow> (Inl e, cs)
        | Inr _ \<Rightarrow>
            (case cid of
               Some i \<Rightarrow> (case cabinet_of d mid i of Inl e \<Rightarrow> (Inl e, cs) | Inr cab \<Rightarrow> client_of env cab cs)
             | None \<Rightarrow> (case get_client (te_decrypt env) mid d cs of
                 Inl _ \<Rightarrow> (Inl (Http 409 ''cabinet_not_configured''), cs) | Inr (k, cs') \<Rightarrow> (Inr k, cs')))))"

definition target_cabinet :: "db \<Rightarrow> nat \<Rightarrow> int option \<Rightarrow> nat option \<Rightarrow> http_error + cabinet" where
  "target_cabinet d mid pk cid = (case cid of
     Some i \<Rightarrow> sbind (cabinet_of d mid i) (\<lambda>cab.
       if pk \<noteq> None \<and> pk \<noteq> Some (cab_pedestal_pk cab) then Inl (Http 422 ''pedestal_mismatch'') else Inr cab)
   | None \<Rightarrow> cabinet_for d mid pk)"

definition target ::
    "'w ctl_env \<Rightarrow> nat \<Rightarrow> int option \<Rightarrow> user \<Rightarrow> nat option \<Rightarrow> db \<Rightarrow> clients
     \<Rightarrow> (http_error + cabinet \<times> account_key) \<times> clients" where
  "target env mid pk u cid d cs =
     (case marina_client env mid u cid d cs of
        (Inl e, cs1) \<Rightarrow> (Inl e, cs1)
      | (Inr _, cs1) \<Rightarrow>
          (case target_cabinet d mid pk cid of
             Inl e \<Rightarrow> (Inl e, cs1)
           | Inr cab \<Rightarrow> (case client_of env cab cs1 of
               (Inl e, cs2) \<Rightarrow> (Inl e, cs2) | (Inr k, cs2) \<Rightarrow> (Inr (cab, k), cs2))))"

definition DEMO_REAL_SENTENCE :: string where
  "DEMO_REAL_SENTENCE = ''This is a real cabinet in the demo marina. No command is sent to it from here.''"

record entry =
  en_id :: nat
  en_display_id :: string
  en_simulated :: bool
  en_connection :: string
  en_smart_mode :: "bool option"
  en_controllable :: bool
  en_sentence :: "string option"
  en_last_heartbeat_at :: "string option"

definition cabinet_entry :: "cabinet \<Rightarrow> bool \<Rightarrow> dtime \<Rightarrow> entry" where
  "cabinet_entry cab demo now =
     (let connection = connection_signal (BerthSignals now (cab_last_heartbeat_at cab) (cab_smart_mode cab));
          sentence = (if demo \<and> \<not> cab_is_simulated cab then Some DEMO_REAL_SENTENCE
            else if connection \<noteq> ''ONLINE''
            then Some (if connection = ''STALE''
              then ''The cabinet has not been heard recently. No commands until it is back.''
              else ''The cabinet is offline. No commands until it is back.'')
            else if cab_smart_mode cab \<noteq> Some True
            then Some (if cab_smart_mode cab = Some False
              then ''Smart Mode is off on this cabinet: it runs on its own and takes no commands.''
              else ''Smart Mode has not been read from this cabinet yet. No commands until it is.'')
            else None)
      in \<lparr>en_id = cab_id cab, en_display_id = cab_display_id cab, en_simulated = cab_is_simulated cab,
          en_connection = connection, en_smart_mode = cab_smart_mode cab, en_controllable = (sentence = None),
          en_sentence = sentence, en_last_heartbeat_at = map_option (\<lambda>t. iso_str t @ ''Z'') (cab_last_heartbeat_at cab)\<rparr>)"

definition control_cabinets :: "nat \<Rightarrow> user \<Rightarrow> dtime \<Rightarrow> db \<Rightarrow> http_error + bool \<times> entry list" where
  "control_cabinets mid u now d = (case marina_row d mid of
     None \<Rightarrow> Inl (Http 404 ''Marina not found'')
   | Some _ \<Rightarrow>
       sbind (require_marina_access d mid u) (\<lambda>_.
         (let demo = is_demo_marina d mid in
          Inr (demo, map (\<lambda>c. cabinet_entry c demo now) (filter (\<lambda>c. cab_marina_id c = mid) (db_cabinets d))))))"

section \<open>Sending a command\<close>

record 'w cmd =
  cm_key :: string
  cm_params :: "(string \<times> pval) list"
  cm_action :: string
  cm_reason :: string
  cm_outlet_id :: "nat option"
  cm_tag_source :: "string option"
  cm_call :: "'w reading"

definition row_for :: "'w cmd \<Rightarrow> cabinet \<Rightarrow> user \<Rightarrow> client \<Rightarrow> string option \<Rightarrow> string option \<Rightarrow> dtime \<Rightarrow> db \<Rightarrow> command_audit" where
  "row_for c cab u cl tag_source ip now d =
     command_row cab (cm_outlet_id c) (cm_key c) (cm_action c) (Some (u_email u)) (Some (cm_reason c))
       (url_for cl (cm_key c) (cm_params c)) tag_source ip now d"

text \<open>\<open>refuse_real_cabinet_in_demo\<close>: the refusal is a row of its own, and nothing is sent.\<close>

definition refused_row :: "dtime \<Rightarrow> command_audit \<Rightarrow> command_audit" where
  "refused_row now row = row\<lparr>cmd_outcome := Some ''demo_marina_real_cabinet'', cmd_http_status := Some 409,
     cmd_detail := Some ''refused by the ERP before sending: real cabinet in the demo marina'',
     cmd_completed_at := Some now\<rparr>"

definition refuse_real_cabinet_in_demo ::
    "'w cmd \<Rightarrow> cabinet \<Rightarrow> user \<Rightarrow> client \<Rightarrow> string option \<Rightarrow> dtime \<Rightarrow> db \<Rightarrow> (http_error \<times> db) option" where
  "refuse_real_cabinet_in_demo c cab u cl ip now d =
     (if cab_is_simulated cab \<or> \<not> is_demo_marina d (cab_marina_id cab) then None
      else (let row = row_for c cab u cl None ip now d in
            case begin_command row d of
              Inl e \<Rightarrow> Some (e, d)
            | Inr d1 \<Rightarrow> Some (Http 409 ''demo_marina_real_cabinet'',
                d1\<lparr>db_command_audit := update_where (\<lambda>r. cmd_id r = cmd_id row) (refused_row now) (db_command_audit d1)\<rparr>)))"

definition send_command ::
    "'w ctl_env \<Rightarrow> string option \<Rightarrow> user \<Rightarrow> cabinet \<Rightarrow> account_key \<Rightarrow> 'w cmd \<Rightarrow> 'w ctl \<Rightarrow> (http_error + Outcome) \<times> 'w ctl" where
  "send_command env ip u cab k c s =
     (case ct_clients s k of
        None \<Rightarrow> (Inl http_error.Crash, s)
      | Some cl \<Rightarrow>
          (let now = env_now (te_cab env) (ct_world s) in
           case refuse_real_cabinet_in_demo c cab u cl ip now (ct_db s) of
             Some (e, d) \<Rightarrow> (Inl e, s\<lparr>ct_db := d\<rparr>)
           | None \<Rightarrow>
               (let row = row_for c cab u cl (cm_tag_source c) ip now (ct_db s) in
                case begin_command row (ct_db s) of
                  Inl e \<Rightarrow> (Inl e, s)
                | Inr d1 \<Rightarrow>
                    (case cm_call c cl (Some d1) (ct_world s) of
                       (res, cl', dbo, w') \<Rightarrow>
                         (let s1 = s\<lparr>ct_clients := (ct_clients s)(k \<mapsto> cl'), ct_db := or_else dbo d1, ct_world := w'\<rparr> in
                          case res of
                            Inl _ \<Rightarrow> (Inl http_error.Crash, s1)
                          | Inr out \<Rightarrow> (Inr out, s1\<lparr>ct_db := complete_command (cmd_id row) out
                              (env_now (te_cab env) w') (ct_db s1)\<rparr>))))))"

text \<open>After the call: the older audit, then the answer.\<close>

definition audit_and_answer ::
    "'w ctl_env \<Rightarrow> user \<Rightarrow> nat \<Rightarrow> string \<Rightarrow> int option \<Rightarrow> int option \<Rightarrow> (string \<times> json) list
     \<Rightarrow> (http_error + Outcome) \<times> 'w ctl \<Rightarrow> (http_error + Outcome) \<times> 'w ctl" where
  "audit_and_answer env u mid action pid target_id extra r = (case r of
     (Inl e, s) \<Rightarrow> (Inl e, s)
   | (Inr out, s) \<Rightarrow>
       (case record_action (Some (u_id u)) mid action pid target_id (audit_details out extra)
               (env_now (te_cab env) (ct_world s)) (ct_db s) of
          Inl e \<Rightarrow> (Inl e, s)
        | Inr d \<Rightarrow> (command_answer out, s\<lparr>ct_db := d\<rparr>)))"

section \<open>The routes\<close>

datatype control = Allow int | Deny int | Stop int | OutletCmd int string string | Diagnostics int

text \<open>The tag the ERP sends on activation is the outlet's own, from its mapping.\<close>

definition mapped_tag :: "db \<Rightarrow> outlet option \<Rightarrow> string \<Rightarrow> string option" where
  "mapped_tag d o1 action = (case o1 of
     None \<Rightarrow> None
   | Some r \<Rightarrow> if action = ''activate''
       then map_option tag_uid_primary (find (\<lambda>t. tag_outlet_id t = out_id r \<and> tag_active t) (db_nfc_tags d)) else None)"

definition command_of :: "'w ctl_env \<Rightarrow> control \<Rightarrow> string \<Rightarrow> db \<Rightarrow> cabinet \<Rightarrow> 'w cmd" where
  "command_of env op reason d cab = (let ce = te_cab env in case op of
     Allow sid \<Rightarrow> \<lparr>cm_key = ''controls.allow'', cm_params = [(''session_id'', PInt sid)], cm_action = ''allow'',
       cm_reason = reason, cm_outlet_id = None, cm_tag_source = None, cm_call = allow_session ce sid\<rparr>
   | Deny sid \<Rightarrow> \<lparr>cm_key = ''controls.deny'', cm_params = [(''session_id'', PInt sid)], cm_action = ''deny'',
       cm_reason = reason, cm_outlet_id = None, cm_tag_source = None, cm_call = deny_session ce sid (Some reason)\<rparr>
   | Stop sid \<Rightarrow> \<lparr>cm_key = ''controls.stop'', cm_params = [(''session_id'', PInt sid)], cm_action = ''stop'',
       cm_reason = reason, cm_outlet_id = None, cm_tag_source = None, cm_call = stop_session ce sid\<rparr>
   | OutletCmd pk name action \<Rightarrow>
       (let o1 = find (\<lambda>r. out_cabinet_id r = cab_id cab \<and> out_outlet_name r = name) (db_outlets d);
            tag = mapped_tag d o1 action; w = starts_with name ''V''
        in \<lparr>cm_key = (if w then ''controls.water_cmd'' else ''controls.socket_cmd''),
            cm_params = [(''pedestal_id'', PInt pk), (if w then ''valve_name'' else ''socket_name'', PStr name)],
            cm_action = action, cm_reason = reason, cm_outlet_id = map_option out_id o1,
            cm_tag_source = (if truthy tag then Some ''mapping'' else None), cm_call = socket_cmd ce pk name action tag\<rparr>)
   | Diagnostics pk \<Rightarrow> \<lparr>cm_key = ''diagnostics.run'', cm_params = [(''pedestal_id'', PInt pk)], cm_action = ''run'',
       cm_reason = reason, cm_outlet_id = None, cm_tag_source = None, cm_call = run_diagnostics ce pk\<rparr>)"

text \<open>Name, pedestal, target and further details of the older audit's row.\<close>

definition audit_of :: "control \<Rightarrow> int option \<Rightarrow> string \<Rightarrow> string \<times> int option \<times> int option \<times> (string \<times> json) list" where
  "audit_of op pk reason = (case op of
     Allow sid \<Rightarrow> (''allow_session'', pk, Some sid, [(''reason'', JStr reason)])
   | Deny sid \<Rightarrow> (''deny_session'', pk, Some sid, [(''reason'', JStr reason)])
   | Stop sid \<Rightarrow> (''stop_session'', pk, Some sid, [(''reason'', JStr reason)])
   | OutletCmd p name action \<Rightarrow> (''outlet_'' @ action, Some p, None, [(''outlet'', JStr name), (''reason'', JStr reason)])
   | Diagnostics p \<Rightarrow> (''run_diagnostics'', Some p, None, [(''reason'', JStr reason)]))"

text \<open>The pedestal of the path, where the route has one, or else of the query.\<close>

definition pedestal_of :: "control \<Rightarrow> int option \<Rightarrow> int option" where
  "pedestal_of op query_pk = (case op of OutletCmd p _ _ \<Rightarrow> Some p | Diagnostics p \<Rightarrow> Some p | _ \<Rightarrow> query_pk)"

definition body_ok :: "control \<Rightarrow> string \<Rightarrow> bool" where
  "body_ok op reason \<longleftrightarrow> 3 \<le> char_count reason \<and> char_count reason \<le> 500
     \<and> (case op of OutletCmd _ _ action \<Rightarrow> action \<in> {''activate'', ''stop''} | _ \<Rightarrow> True)"

definition control_body ::
    "'w ctl_env \<Rightarrow> nat \<Rightarrow> control \<Rightarrow> int option \<Rightarrow> nat option \<Rightarrow> string \<Rightarrow> string option \<Rightarrow> user \<Rightarrow> 'w ctl
     \<Rightarrow> (http_error + Outcome) \<times> 'w ctl" where
  "control_body env mid op query_pk cid reason ip u s =
     (let pk = pedestal_of op query_pk in
      case target env mid pk u cid (ct_db s) (ct_clients s) of
        (Inl e, cs) \<Rightarrow> (Inl e, s\<lparr>ct_clients := cs\<rparr>)
      | (Inr (cab, k), cs) \<Rightarrow>
          (case audit_of op pk reason of (name, apk, tid, extra) \<Rightarrow>
             audit_and_answer env u mid name apk tid extra
               (send_command env ip u cab k (command_of env op reason (ct_db s) cab) (s\<lparr>ct_clients := cs\<rparr>))))"

definition control_request ::
    "'t crypto \<Rightarrow> 'w ctl_env \<Rightarrow> 't \<Rightarrow> nat \<Rightarrow> control \<Rightarrow> int option \<Rightarrow> nat option \<Rightarrow> string \<Rightarrow> string option \<Rightarrow> 'w ctl
     \<Rightarrow> (http_error + Outcome) \<times> 'w ctl" where
  "control_request cr env tok mid op query_pk cid reason ip s =
     (case get_current_user cr (ct_db s) tok (env_now (te_cab env) (ct_world s)) of
        Inl e \<Rightarrow> (Inl e, s)
      | Inr u \<Rightarrow>
          if \<not> body_ok op reason then (Inl (Http 422 ''validation error''), s)
          else control_body env mid op query_pk cid reason ip u s)"


section \<open>What a command leaves behind\<close>

lemma complete_own_row:
  assumes "cmd_id row = next_id cmd_id rows"
  shows "update_where (\<lambda>r. cmd_id r = next_id cmd_id rows) f (rows @ [row]) = rows @ [f row]"
proof -
  have "cmd_id r \<noteq> next_id cmd_id rows" if "r \<in> set rows" for r
    using next_id_fresh[OF that, of cmd_id] by simp
  then have "update_where (\<lambda>r. cmd_id r = next_id cmd_id rows) f rows = rows"
    by (auto simp: update_where_def intro: map_idI)
  with assms show ?thesis by (simp add: update_where_def)
qed

lemma begin_command_Inr:
  "begin_command row d = Inr d' \<longleftrightarrow>
     command_audit_checks row \<and> d' = d\<lparr>db_command_audit := db_command_audit d @ [row]\<rparr>"
  by (auto simp: begin_command_def)

lemma begin_command_Inl: "begin_command row d = Inl e \<Longrightarrow> e = http_error.Crash"
  by (simp add: begin_command_def split: if_splits)

lemma row_for_fields [simp]:
  "cmd_id (row_for c cab u cl ts ip now d) = next_id cmd_id (db_command_audit d)"
  "cmd_cabinet_id (row_for c cab u cl ts ip now d) = cab_id cab"
  "cmd_actor_ref (row_for c cab u cl ts ip now d) = Some (u_email u)"
  "cmd_reason (row_for c cab u cl ts ip now d) = Some (cm_reason c)"
  "cmd_action (row_for c cab u cl ts ip now d) = cm_action c"
  "cmd_actor_type (row_for c cab u cl ts ip now d) = ''operator''"
  "cmd_outcome (row_for c cab u cl ts ip now d) = None"
  by (simp_all add: row_for_def command_row_def)

lemma completed_fields [simp]:
  "cmd_cabinet_id (completed out now row) = cmd_cabinet_id row"
  "cmd_actor_ref (completed out now row) = cmd_actor_ref row"
  "cmd_reason (completed out now row) = cmd_reason row"
  "cmd_outcome (completed out now row) = Some (oc_code out)"
  by (simp_all add: completed_def)

lemma refused_outcome [simp]: "cmd_outcome (refused_row now row) = Some ''demo_marina_real_cabinet''"
  by (simp add: refused_row_def)

lemma command_of_reason [simp]: "cm_reason (command_of env op reason d cab) = reason"
  by (cases op) (simp_all add: command_of_def Let_def)

lemma row_reason: "command_audit_checks (row_for c cab u cl ts ip now d) \<Longrightarrow> sql_trim (cm_reason c) \<noteq> []"
  by (simp add: command_audit_checks_def)

text \<open>Every command is one call of the client, so it touches the cache and the sync log only.\<close>

lemma command_frame:
  assumes "cm_call (command_of env op reason d0 cab) cl (Some d) w = (res, cl', dbo, w')"
  shows "cache_framed d dbo"
  using assms
  by (cases op)
     (auto simp: command_of_def Let_def allow_session_def deny_session_def stop_session_def socket_cmd_def
        run_diagnostics_def of_pedestal_def dest: call_frame)

lemma framed_commands: "cache_framed d dbo \<Longrightarrow> db_command_audit (or_else dbo d1) = db_command_audit d"
  by (auto simp: cache_framed_def cache_frame_def)

text \<open>A request that sent nothing: refused, with at most the demo marina's refusal written.\<close>

definition nothing_sent :: "'w ctl \<Rightarrow> (http_error + Outcome) \<Rightarrow> 'w ctl \<Rightarrow> bool" where
  "nothing_sent s res s' \<longleftrightarrow> ct_world s' = ct_world s \<and> (\<exists>e. res = Inl e)
     \<and> (ct_db s' = ct_db s \<or>
        (\<exists>row. cmd_outcome row = Some ''demo_marina_real_cabinet''
           \<and> db_command_audit (ct_db s') = db_command_audit (ct_db s) @ [row]))"

text \<open>A request that sent \<open>c\<close> to \<open>cab\<close>: the call was made over a database that already held
  the command's row, still without an outcome, and afterwards the row carries the outcome of
  the call, or none if the call raised.\<close>

definition sent_with_row ::
    "'w cmd \<Rightarrow> user \<Rightarrow> cabinet \<Rightarrow> 'w ctl \<Rightarrow> sync_error + Outcome \<Rightarrow> 'w ctl \<Rightarrow> bool" where
  "sent_with_row c u cab s r s' \<longleftrightarrow> (\<exists>cl cl' dbo row row'.
     cm_call c cl (Some ((ct_db s)\<lparr>db_command_audit := db_command_audit (ct_db s) @ [row]\<rparr>)) (ct_world s)
       = (r, cl', dbo, ct_world s')
     \<and> cmd_outcome row = None \<and> cmd_cabinet_id row = cab_id cab
     \<and> cmd_actor_ref row = Some (u_email u) \<and> cmd_reason row = Some (cm_reason c) \<and> sql_trim (cm_reason c) \<noteq> []
     \<and> db_command_audit (ct_db s') = db_command_audit (ct_db s) @ [row']
     \<and> (case r of Inl _ \<Rightarrow> row' = row | Inr out \<Rightarrow> \<exists>t. row' = completed out t row))"

definition sent_answer :: "sync_error + Outcome \<Rightarrow> http_error + Outcome" where
  "sent_answer r = (case r of Inl _ \<Rightarrow> Inl http_error.Crash | Inr out \<Rightarrow> Inr out)"

lemma refused_in_demo:
  assumes "refuse_real_cabinet_in_demo c cab u cl ip now d = Some (e, d')"
  shows "d' = d \<or> (\<exists>row. cmd_outcome row = Some ''demo_marina_real_cabinet''
     \<and> db_command_audit d' = db_command_audit d @ [row])"
  using assms
  by (auto simp: refuse_real_cabinet_in_demo_def Let_def begin_command_Inr complete_own_row
      split: if_splits sum.splits)

lemma send_command_cases:
  assumes "send_command env ip u cab k c s = (res, s')"
    and framed: "\<And>cl d r cl' dbo w'. cm_call c cl (Some d) (ct_world s) = (r, cl', dbo, w') \<Longrightarrow> cache_framed d dbo"
  shows "nothing_sent s res s'
     \<or> (cab_is_simulated cab \<or> \<not> is_demo_marina (ct_db s) (cab_marina_id cab)) \<and> (\<exists>r. res = sent_answer r \<and> sent_with_row c u cab s r s')"
proof (cases "ct_clients s k")
  case None
  then show ?thesis using assms(1) by (auto simp: send_command_def nothing_sent_def)
next
  case (Some cl)
  let ?now = "env_now (te_cab env) (ct_world s)" and ?d = "ct_db s"
  let ?row = "row_for c cab u cl (cm_tag_source c) ip ?now ?d"
  show ?thesis
  proof (cases "refuse_real_cabinet_in_demo c cab u cl ip ?now ?d")
    case (Some ed)
    obtain e d where ed: "ed = (e, d)" by fastforce
    from refused_in_demo[OF Some[unfolded ed]] assms(1) Some \<open>ct_clients s k = Some cl\<close> show ?thesis
      by (auto simp: send_command_def ed nothing_sent_def)
  next
    case allowed: None
    then have demo: "cab_is_simulated cab \<or> \<not> is_demo_marina ?d (cab_marina_id cab)"
      by (auto simp: refuse_real_cabinet_in_demo_def Let_def split: if_splits sum.splits)
    show ?thesis
    proof (cases "begin_command ?row ?d")
      case (Inl e)
      with assms(1) Some allowed show ?thesis by (auto simp: send_command_def nothing_sent_def Let_def)
    next
      case (Inr d1)
      note d1 = Inr[unfolded begin_command_Inr]
      obtain r cl' dbo w' where call: "cm_call c cl (Some d1) (ct_world s) = (r, cl', dbo, w')"
        by (metis prod_cases4)
      note rows = framed_commands[OF framed[OF call]]
      have "sent_with_row c u cab s r s'"
        unfolding sent_with_row_def
        by (rule exI[of _ cl], rule exI[of _ cl'], rule exI[of _ dbo], rule exI[of _ ?row],
            rule exI[of _ "case r of Inl _ \<Rightarrow> ?row | Inr out \<Rightarrow> completed out (env_now (te_cab env) w') ?row"])
           (use assms(1) Some allowed Inr d1 call rows in \<open>auto simp: send_command_def Let_def row_reason
              complete_command_def complete_own_row split: sum.splits\<close>)
      moreover have "res = sent_answer r"
        using assms(1) Some allowed Inr call by (auto simp: send_command_def sent_answer_def Let_def split: sum.splits)
      ultimately show ?thesis using demo by blast
    qed
  qed
qed

lemma audit_and_answer_keeps:
  assumes "audit_and_answer env u mid name pid tid extra (r, s) = (res, s')"
  shows "ct_world s' = ct_world s \<and> db_command_audit (ct_db s') = db_command_audit (ct_db s)
     \<and> (case r of Inl e \<Rightarrow> res = Inl e \<and> s' = s
        | Inr out \<Rightarrow> res = command_answer out \<or> (audit_details out extra = None \<and> res = Inl http_error.Crash))"
  using assms
  by (auto simp: audit_and_answer_def record_action_def split: sum.splits option.splits)

lemma audit_details_None: "audit_details out extra = None \<longleftrightarrow> oc_ok out \<and> (\<exists>b. oc_data out = Bytes b)"
  by (auto simp: audit_details_def Let_def split: payload.splits)

lemma nothing_sent_db: "nothing_sent s res s' \<Longrightarrow> ct_db s = ct_db s0 \<Longrightarrow> ct_world s = ct_world s0 \<Longrightarrow> nothing_sent s0 res s'"
  by (simp add: nothing_sent_def)

lemma sent_with_row_db:
  "sent_with_row c u cab s r s' \<Longrightarrow> ct_db s = ct_db s0 \<Longrightarrow> ct_world s = ct_world s0 \<Longrightarrow>
   ct_world s'' = ct_world s' \<Longrightarrow> db_command_audit (ct_db s'') = db_command_audit (ct_db s') \<Longrightarrow>
   sent_with_row c u cab s0 r s''"
  by (simp add: sent_with_row_def)

lemma cabinet_of_Inr: "cabinet_of d mid i = Inr cab \<Longrightarrow> cab \<in> set (db_cabinets d) \<and> cab_marina_id cab = mid"
  by (auto simp: cabinet_of_def cabinet_at_def find_Some_iff split: option.splits if_splits)

lemma find_filtered: "find P (filter Q xs) = Some x \<Longrightarrow> x \<in> set xs \<and> Q x"
  by (induction xs) (auto split: if_splits)

lemma cabinet_for_Inr:
  assumes "cabinet_for d mid pk = Inr cab"
  shows "cab \<in> set (db_cabinets d) \<and> cab_marina_id cab = mid"
proof (cases pk)
  case None
  with assms show ?thesis
    by (cases "filter (\<lambda>c. cab_marina_id c = mid) (db_cabinets d)" rule: list.exhaust)
       (auto simp: cabinet_for_def Let_def filter_eq_Cons_iff split: list.splits)
next
  case (Some p)
  with assms show ?thesis
    by (auto simp: cabinet_for_def Let_def dest: find_filtered split: option.splits)
qed

lemma target_Inr:
  assumes "target env mid pk u cid d cs = (Inr (cab, k), cs')"
  shows "has_marina_access d mid u \<and> cab \<in> set (db_cabinets d) \<and> cab_marina_id cab = mid"
  using assms
  by (auto simp: target_def target_cabinet_def marina_client_def require_marina_access_def sbind_Inr
      dest: cabinet_of_Inr cabinet_for_Inr split: sum.splits option.splits prod.splits if_splits)


section \<open>A concrete command\<close>

text \<open>An operator's stop, to a simulated cabinet that does not answer.\<close>

definition sample_ctl :: "int ctl" where
  "sample_ctl = \<lparr>ct_clients = (\<lambda>_. None),
     ct_db = sample_db\<lparr>db_users := [sample_user], db_cabinets := [sample_cabinet\<lparr>cab_is_simulated := True\<rparr>],
       db_marinas := [\<lparr>mar_id = 1, mar_name = ''M'', mar_location = None, mar_timezone = ''UTC'', mar_logo_url = None,
         mar_pedestal_api_base_url = [], mar_pedestal_service_email = None, mar_pedestal_service_password_enc = None,
         mar_webhook_secret = None, mar_map_svg = None, mar_status = ''active'', mar_created_at = 0, mar_updated_at = 0\<rparr>]\<rparr>,
     ct_world = 10\<rparr>"

definition sample_ctl_env :: "int ctl_env" where
  "sample_ctl_env = \<lparr>te_cab = down_env, te_decrypt = Some\<rparr>"


end
