(* ===== verification/Security_Agent.thy ===== *)
theory Security_Agent
  imports Users Webhooks
begin

text \<open>
  The security agent: its detection rules (\<open>agent/rules.py\<close>) and one pass over them
  (\<open>agent/run.py\<close>). A rule reads a window of the logs and returns findings; a finding of an
  active rule becomes at most one row of \<open>security_alarms\<close>, keyed by its fingerprint.

  The host's time zones, \<open>sha256\<close>, \<open>json.dumps\<close>/\<open>loads\<close> and \<open>str\<close> of a value that is no text are
  parameters. A row's id order is the order of its table; times are those of rows after 1970.
\<close>

section \<open>Findings\<close>

record case_finding =
  fi_rule_id :: string
  fi_case_key :: string
  fi_severity :: string
  fi_title :: string
  fi_why :: string
  fi_evidence :: "json list"
  fi_window_from :: "dtime option"
  fi_window_to :: "dtime option"
  fi_simulated :: bool

record agent_env =
  ag_sha256 :: "string \<Rightarrow> string"
  ag_local_hour :: "string \<Rightarrow> dtime \<Rightarrow> int option"
  ag_dumps :: "json \<Rightarrow> string"
  ag_loads :: "string \<Rightarrow> json option"
  ag_str :: "json \<Rightarrow> string"

definition fingerprint :: "agent_env \<Rightarrow> case_finding \<Rightarrow> string" where
  "fingerprint env f = ag_sha256 env (fi_rule_id f @ ''|'' @ fi_case_key f)"

definition WORK_FROM_HOUR :: int where "WORK_FROM_HOUR = 6"
definition WORK_TO_HOUR :: int where "WORK_TO_HOUR = 22"
definition BASELINE :: tdelta where "BASELINE = days 30"
definition SPRAY_ACCOUNTS :: nat where "SPRAY_ACCOUNTS = 3"
definition SPRAY_BUCKET :: tdelta where "SPRAY_BUCKET = minutes 15"
definition QUOTE_MAX :: int where "QUOTE_MAX = 500"

definition OUTLET_CMDS :: "string list" where "OUTLET_CMDS = [''controls.socket_cmd'', ''controls.water_cmd'']"

text \<open>The dashes and dots of the texts, in UTF-8.\<close>

definition EN_DASH :: string where "EN_DASH = [CHR 0xE2, CHR 0x80, CHR 0x93]"
definition ELLIPSIS :: string where "ELLIPSIS = [CHR 0xE2, CHR 0x80, CHR 0xA6]"

definition cut_quote :: "string \<Rightarrow> string" where
  "cut_quote s = (if int (char_count s) \<le> QUOTE_MAX then s else cut QUOTE_MAX s @ ELLIPSIS)"

fun quote_value :: "agent_env \<Rightarrow> json \<Rightarrow> json" and quote_first :: "agent_env \<Rightarrow> nat \<Rightarrow> json list \<Rightarrow> json list" where
  "quote_value env (JStr s) = JStr (cut_quote s)"
| "quote_value env (JList vs) = JList (quote_first env 50 vs)"
| "quote_value env (JObj ob) = JStr (cut_quote (ag_dumps env (JObj ob)))"
| "quote_value env v = v"
| "quote_first env n [] = []"
| "quote_first env n (v # vs) = (if n = 0 then [] else quote_value env v # quote_first env (n - 1) vs)"

definition quote_str :: "string option \<Rightarrow> string" where
  "quote_str s = (case s of None \<Rightarrow> ''None'' | Some t \<Rightarrow> cut_quote t)"

definition json_opt :: "string option \<Rightarrow> json" where
  "json_opt s = (case s of None \<Rightarrow> JNull | Some t \<Rightarrow> JStr t)"

definition as_dict :: "agent_env \<Rightarrow> json \<Rightarrow> (string \<times> json) list" where
  "as_dict env v = (case v of
     JObj ob \<Rightarrow> ob
   | JStr s \<Rightarrow> (case ag_loads env s of Some (JObj ob) \<Rightarrow> ob | _ \<Rightarrow> [])
   | _ \<Rightarrow> [])"

definition evidence :: "agent_env \<Rightarrow> string \<Rightarrow> nat list \<Rightarrow> (string \<times> json) list \<Rightarrow> dtime option \<Rightarrow> json" where
  "evidence env source ids named observed_at = JObj
     [(''source'', JStr source), (''row_ids'', JList (map (\<lambda>i. JInt (int i)) (sort (remdups ids)))),
      (''fields'', JObj (map (\<lambda>(k, v). (k, quote_value env v)) named)),
      (''observed_at'', json_opt (map_option iso_str observed_at))]"

definition local_hour :: "agent_env \<Rightarrow> dtime \<Rightarrow> string \<Rightarrow> int \<times> string" where
  "local_hour env tm tz =
     (let name = (if tz = [] then ''UTC'' else tz) in
      if lower_str name = ''utc'' then (hour_of tm, ''UTC'')
      else (case ag_local_hour env name tm of
              Some h \<Rightarrow> (h, name)
            | None \<Rightarrow> (hour_of tm, ''UTC (zone '' @ repr_str name @ '' unknown to this host)'')))"

text \<open>\<open>sorted({...})\<close> of texts, and groups in the order of their first member.\<close>

definition str_set :: "string list \<Rightarrow> string list" where
  "str_set xs = sort (remdups xs)"

definition str_list :: "string list \<Rightarrow> json" where
  "str_list xs = JList (map JStr xs)"

definition group_by :: "('a \<Rightarrow> 'k) \<Rightarrow> 'a list \<Rightarrow> ('k \<times> 'a list) list" where
  "group_by key xs = (let ks = map key xs in
     map (\<lambda>k. (k, map snd (filter (\<lambda>(k', _). k' = k) (zip ks xs)))) (rev (remdups (rev ks))))"

definition in_window :: "dtime \<Rightarrow> dtime \<Rightarrow> dtime \<Rightarrow> bool" where
  "in_window since now tm \<longleftrightarrow> since \<le> tm \<and> tm \<le> now"

section \<open>The rules\<close>

subsection \<open>Decoys\<close>

definition decoy_key :: "decoy_hit \<Rightarrow> string \<times> string \<times> string option \<times> string" where
  "decoy_key h = (dh_kind h, dh_decoy h, dh_source_ip h, date_iso (dh_observed_at h))"

definition decoy_case :: "string \<times> string \<times> string option \<times> string \<Rightarrow> string" where
  "decoy_case k = (case k of (kind, decoy, ip, day) \<Rightarrow>
     kind @ ''|'' @ decoy @ ''|'' @ or_else ip ''None'' @ ''|'' @ day)"

definition decoy_finding :: "agent_env \<Rightarrow> (string \<times> string \<times> string option \<times> string) \<times> decoy_hit list \<Rightarrow> case_finding" where
  "decoy_finding env g = (case g of ((kind, decoy, ip, day), hits) \<Rightarrow>
     (let h = hd hits; from_at = dh_observed_at h; to_at = dh_observed_at (last hits) in
      \<lparr>fi_rule_id = ''decoy_touch'', fi_case_key = decoy_case (kind, decoy, ip, day), fi_severity = ''critical'',
       fi_title = ''Decoy touched: '' @ cut_quote decoy,
       fi_why = nat_str (length hits) @ '' touch(es) of a '' @ [CHR 0x27] @ kind @ [CHR 0x27] @ '' decoy from ''
         @ (if truthy ip then quote_str ip else ''an unknown address'') @ ''; nobody legitimate touches a decoy (layer 2).'',
       fi_evidence = [evidence env ''decoy_hits'' (map dh_id hits)
         [(''kind'', JStr kind), (''decoy'', JStr decoy), (''method'', json_opt (dh_method h)), (''path'', json_opt (dh_path h)),
          (''source_ip'', json_opt ip), (''user_agent'', json_opt (dh_user_agent h))] (Some from_at)],
       fi_window_from = Some from_at, fi_window_to = Some to_at, fi_simulated = False\<rparr>))"

definition decoy_touch :: "agent_env \<Rightarrow> db \<Rightarrow> dtime \<Rightarrow> dtime \<Rightarrow> case_finding list" where
  "decoy_touch env d since now =
     map (decoy_finding env) (group_by decoy_key (filter (\<lambda>h. in_window since now (dh_observed_at h)) (db_decoy_hits d)))"

subsection \<open>Failed sign-ins\<close>

definition spray_start :: "dtime \<Rightarrow> dtime" where
  "spray_start tm = (let s = tm div usec; step = SPRAY_BUCKET div usec in s div step * step * usec)"

definition spray_finding :: "agent_env \<Rightarrow> (string \<times> dtime) \<times> auth_audit list \<Rightarrow> case_finding option" where
  "spray_finding env g = (case g of ((ip, start), rows) \<Rightarrow>
     (let emails = str_set (map (\<lambda>r. lower_str (or_else (aa_email_tried r) [])) rows) in
      if length emails < SPRAY_ACCOUNTS then None
      else Some
       \<lparr>fi_rule_id = ''login_spray'', fi_case_key = ip @ ''|'' @ iso_str start, fi_severity = ''warning'',
        fi_title = ''Failed sign-ins on '' @ nat_str (length emails) @ '' accounts from one address'',
        fi_why = nat_str (length rows) @ '' failed sign-ins from '' @ cut_quote ip @ '' on '' @ nat_str (length emails)
          @ '' different e-mail addresses within '' @ int_str (SPRAY_BUCKET div minutes 1) @ '' min.'',
        fi_evidence = [evidence env ''auth_audit'' (map aa_id rows)
          [(''source_ip'', JStr ip), (''emails_tried'', str_list emails),
           (''details'', str_list (str_set (map (\<lambda>r. or_else (aa_detail r) []) rows)))] (Some (aa_created_at (hd rows)))],
        fi_window_from = Some start, fi_window_to = Some (start + SPRAY_BUCKET), fi_simulated = False\<rparr>))"

definition spray_key :: "auth_audit \<Rightarrow> string \<times> dtime" where
  "spray_key r = (or_else (aa_source_ip r) [], spray_start (aa_created_at r))"

definition login_spray :: "agent_env \<Rightarrow> db \<Rightarrow> dtime \<Rightarrow> dtime \<Rightarrow> case_finding list" where
  "login_spray env d since now = List.map_filter (spray_finding env)
     (group_by spray_key
       (filter (\<lambda>r. aa_event r = ''login_failed'' \<and> in_window since now (aa_created_at r) \<and> aa_source_ip r \<noteq> None)
         (db_auth_audit d)))"

subsection \<open>Commands\<close>

text \<open>The operators' outlet commands of the window, with their cabinet and the marina's zone.\<close>

definition with_cabinet :: "db \<Rightarrow> command_audit \<Rightarrow> (command_audit \<times> cabinet \<times> marina) option" where
  "with_cabinet d a = Option.bind (cabinet_at d (cmd_cabinet_id a))
     (\<lambda>c. map_option (\<lambda>m. (a, c, m)) (marina_row d (cab_marina_id c)))"

definition outlet_cmds_in :: "db \<Rightarrow> dtime \<Rightarrow> dtime \<Rightarrow> (command_audit \<times> cabinet \<times> marina) list" where
  "outlet_cmds_in d since now = List.map_filter (with_cabinet d)
     (filter (\<lambda>a. cmd_actor_type a = ''operator'' \<and> cmd_endpoint_key a \<in> set OUTLET_CMDS \<and> in_window since now (cmd_created_at a))
       (db_command_audit d))"

definition odd_hour_finding :: "agent_env \<Rightarrow> command_audit \<times> cabinet \<times> marina \<Rightarrow> case_finding option" where
  "odd_hour_finding env r = (case r of (a, c, m) \<Rightarrow>
     (case local_hour env (cmd_created_at a) (mar_timezone m) of (hour, zone) \<Rightarrow>
       if WORK_FROM_HOUR \<le> hour \<and> hour < WORK_TO_HOUR then None
       else Some
        \<lparr>fi_rule_id = ''socket_cmd_odd_hour'', fi_case_key = ''command_audit|'' @ nat_str (cmd_id a), fi_severity = ''warning'',
         fi_title = cab_display_id c @ '': outlet command outside working hours'',
         fi_why = cmd_endpoint_key a @ '' '' @ [CHR 0x27] @ cut_quote (cmd_action a) @ [CHR 0x27] @ '' at '' @ two_digits hour
           @ '':00 local time ('' @ zone @ ''); working hours are '' @ two_digits WORK_FROM_HOUR @ EN_DASH
           @ two_digits WORK_TO_HOUR @ '' h.'',
         fi_evidence = [evidence env ''command_audit'' [cmd_id a]
           [(''endpoint_key'', JStr (cmd_endpoint_key a)), (''action'', JStr (cmd_action a)),
            (''actor_ref'', json_opt (cmd_actor_ref a)), (''reason'', json_opt (cmd_reason a)),
            (''source_ip'', json_opt (cmd_source_ip a)), (''local_hour'', JInt hour), (''zone'', JStr zone)]
           (Some (cmd_created_at a))],
         fi_window_from = Some (cmd_created_at a), fi_window_to = Some (cmd_created_at a),
         fi_simulated = cab_is_simulated c\<rparr>))"

definition socket_cmd_odd_hour :: "agent_env \<Rightarrow> db \<Rightarrow> dtime \<Rightarrow> dtime \<Rightarrow> case_finding list" where
  "socket_cmd_odd_hour env d since now = List.map_filter (odd_hour_finding env) (outlet_cmds_in d since now)"

text \<open>The baseline of an account: what it did before, on simulated cabinets or on real ones.\<close>

definition on_simulated :: "db \<Rightarrow> command_audit \<Rightarrow> bool" where
  "on_simulated d a = (case cabinet_at d (cmd_cabinet_id a) of None \<Rightarrow> False | Some c \<Rightarrow> cab_is_simulated c)"

definition cmd_history :: "db \<Rightarrow> string \<Rightarrow> dtime \<Rightarrow> bool \<Rightarrow> command_audit list" where
  "cmd_history d actor before simulated = filter
     (\<lambda>a. cmd_actor_ref a = Some actor \<and> before - BASELINE \<le> cmd_created_at a \<and> cmd_created_at a < before
        \<and> on_simulated d a = simulated) (db_command_audit d)"

definition new_ip_finding :: "agent_env \<Rightarrow> db \<Rightarrow> command_audit \<times> cabinet \<times> marina \<Rightarrow> case_finding option" where
  "new_ip_finding env d r = (case r of (a, c, m) \<Rightarrow>
     if \<not> truthy (cmd_actor_ref a) \<or> \<not> truthy (cmd_source_ip a) then None
     else (let tm = cmd_created_at a; hist = cmd_history d (or_else (cmd_actor_ref a) []) tm (cab_is_simulated c);
               known = str_set (List.map_filter (\<lambda>h. if truthy (cmd_source_ip h) then cmd_source_ip h else None) hist)
           in if hist = [] \<or> list_ex (\<lambda>h. cmd_source_ip h = cmd_source_ip a) hist then None
              else Some
               \<lparr>fi_rule_id = ''socket_cmd_new_ip'', fi_case_key = ''command_audit|'' @ nat_str (cmd_id a), fi_severity = ''warning'',
                fi_title = cab_display_id c @ '': outlet command from a new address'',
                fi_why = ''In the last '' @ int_str (BASELINE div days 1) @ '' days the account sent commands from ''
                  @ nat_str (length known) @ '' addresses; this is not one of them.'',
                fi_evidence = [evidence env ''command_audit'' [cmd_id a]
                    [(''endpoint_key'', JStr (cmd_endpoint_key a)), (''action'', JStr (cmd_action a)),
                     (''actor_ref'', json_opt (cmd_actor_ref a)), (''source_ip'', json_opt (cmd_source_ip a)),
                     (''known_ips'', str_list known)] (Some tm),
                  evidence env ''command_audit'' (map cmd_id hist) [(''baseline_days'', JInt (BASELINE div days 1))] None],
                fi_window_from = Some tm, fi_window_to = Some tm, fi_simulated = cab_is_simulated c\<rparr>))"

definition socket_cmd_new_ip :: "agent_env \<Rightarrow> db \<Rightarrow> dtime \<Rightarrow> dtime \<Rightarrow> case_finding list" where
  "socket_cmd_new_ip env d since now = List.map_filter (new_ip_finding env d) (outlet_cmds_in d since now)"

text \<open>\<open>account_new_endpoint\<close>: one finding per account, endpoint, day and kind of cabinet.\<close>

type_synonym seen_key = "string \<times> string \<times> int \<times> bool"

definition new_endpoint_finding :: "agent_env \<Rightarrow> db \<Rightarrow> command_audit \<Rightarrow> string \<Rightarrow> bool \<Rightarrow> case_finding option" where
  "new_endpoint_finding env d a actor sim =
     (let tm = cmd_created_at a; hist = cmd_history d actor tm sim; key = cmd_endpoint_key a;
          known = str_set (map cmd_endpoint_key hist)
      in if hist = [] \<or> list_ex (\<lambda>h. cmd_endpoint_key h = key) hist then None
         else Some
          \<lparr>fi_rule_id = ''account_new_endpoint'',
           fi_case_key = actor @ ''|'' @ key @ ''|'' @ date_iso tm @ (if sim then ''|sim'' else []), fi_severity = ''info'',
           fi_title = ''Account calls '' @ key @ '' for the first time'',
           fi_why = ''In the last '' @ int_str (BASELINE div days 1) @ '' days the account called '' @ nat_str (length known)
             @ '' other kinds of command, never this one.'',
           fi_evidence = [evidence env ''command_audit'' [cmd_id a]
             [(''endpoint_key'', JStr key), (''actor_ref'', JStr actor), (''source_ip'', json_opt (cmd_source_ip a)),
              (''known_endpoints'', str_list known)] (Some tm)],
           fi_window_from = Some tm, fi_window_to = Some tm, fi_simulated = sim\<rparr>)"

fun new_endpoints :: "agent_env \<Rightarrow> db \<Rightarrow> seen_key list \<Rightarrow> (command_audit \<times> string) list \<Rightarrow> case_finding list" where
  "new_endpoints env d seen [] = []"
| "new_endpoints env d seen ((a, actor) # rs) =
     (let sim = on_simulated d a; key = (actor, cmd_endpoint_key a, day_number (cmd_created_at a), sim) in
      if key \<in> set seen then new_endpoints env d seen rs
      else (case new_endpoint_finding env d a actor sim of
              None \<Rightarrow> new_endpoints env d seen rs
            | Some f \<Rightarrow> f # new_endpoints env d (key # seen) rs))"

definition account_new_endpoint :: "agent_env \<Rightarrow> db \<Rightarrow> dtime \<Rightarrow> dtime \<Rightarrow> case_finding list" where
  "account_new_endpoint env d since now = new_endpoints env d []
     (List.map_filter (\<lambda>a. map_option (Pair a) (cmd_actor_ref a))
       (filter (\<lambda>a. in_window since now (cmd_created_at a)) (db_command_audit d)))"

subsection \<open>Doors\<close>

definition window_covers :: "db \<Rightarrow> nat \<Rightarrow> dtime \<Rightarrow> bool" where
  "window_covers d cid tm \<longleftrightarrow> list_ex (\<lambda>w. sw_cabinet_id w = cid \<and> sw_from_at w \<le> tm \<and> tm \<le> sw_to_at w) (db_service_windows d)"

definition text_of :: "agent_env \<Rightarrow> json \<Rightarrow> string" where
  "text_of env v = (case v of JStr s \<Rightarrow> s | _ \<Rightarrow> ag_str env v)"

definition first_true :: "json \<Rightarrow> json \<Rightarrow> json" where
  "first_true v w = (if jtrue v then v else w)"

definition door_finding :: "agent_env \<Rightarrow> string \<Rightarrow> string \<Rightarrow> string \<Rightarrow> json \<Rightarrow> dtime \<Rightarrow> bool \<Rightarrow> case_finding" where
  "door_finding env case_key display why ev tm sim =
     \<lparr>fi_rule_id = ''door_no_window'', fi_case_key = case_key, fi_severity = ''warning'',
      fi_title = display @ '': door open outside a service window'', fi_why = why, fi_evidence = [ev],
      fi_window_from = Some tm, fi_window_to = Some tm, fi_simulated = sim\<rparr>"

definition door_alarm_finding :: "agent_env \<Rightarrow> db \<Rightarrow> alarm_log \<times> cabinet \<Rightarrow> case_finding option" where
  "door_alarm_finding env d r = (case r of (a, c) \<Rightarrow>
     (let payload = as_dict env (al_alarm_data a);
          data = (case jget payload ''data'' of JObj ob \<Rightarrow> ob | _ \<Rightarrow> []);
          state = first_true (jget data ''door_state'') (first_true (jget data ''state'') (JStr []))
      in if jget payload ''event'' \<noteq> JStr ''marina_door'' then None
         else if lower_str (text_of env state) = ''closed'' then None
         else if window_covers d (cab_id c) (al_received_at a) then None
         else Some (door_finding env (''alarm_log|'' @ nat_str (al_id a)) (cab_display_id c)
           ''The cabinet reported its door (marina_door) and no service window was announced for that time.''
           (evidence env ''alarm_log'' [al_id a] [(''event'', JStr ''marina_door''), (''data'', JObj data)] (Some (al_received_at a)))
           (al_received_at a) (cab_is_simulated c))))"

text \<open>\<open>LIKE 'pedestals.status_ext:%'\<close>, where the underscore stands for any character.\<close>

definition like_status :: "string \<Rightarrow> bool" where
  "like_status key \<longleftrightarrow> starts_with key ''pedestals.status''
     \<and> (case drop 16 key of [] \<Rightarrow> False | _ # rest \<Rightarrow> starts_with rest ''ext:'')"

definition partition_at :: "char \<Rightarrow> string \<Rightarrow> string \<times> string" where
  "partition_at c s = (takeWhile (\<lambda>x. x \<noteq> c) s, drop 1 (dropWhile (\<lambda>x. x \<noteq> c) s))"

definition snapshot_cabinet :: "db \<Rightarrow> nat \<Rightarrow> string \<Rightarrow> cabinet option" where
  "snapshot_cabinet d mid stored =
     (case partition_at (CHR ''@'') stored of (key, server) \<Rightarrow>
        (let parts = split_on (CHR ''/'') key;
             ref = (if 2 \<le> length parts then parts ! (length parts - 2) else []);
             hits = filter (\<lambda>c. cab_marina_id c = mid \<and> ref \<in> {int_str (cab_pedestal_pk c), cab_display_id c}
               \<and> (server = [] \<or> rstrip_slash (cab_base_url c) = rstrip_slash server)) (db_cabinets d)
         in case hits of [c] \<Rightarrow> Some c | _ \<Rightarrow> None))"

definition door_snapshot_finding :: "agent_env \<Rightarrow> db \<Rightarrow> pedestal_cache \<times> string \<times> dtime \<Rightarrow> case_finding option" where
  "door_snapshot_finding env d r = (case r of (p, key, tm) \<Rightarrow>
     (let data = as_dict env (pc_last_seen_data p) in
      if lower_str (text_of env (first_true (jget data ''door_state'') (JStr []))) \<noteq> ''open'' then None
      else (case snapshot_cabinet d (pc_marina_id p) key of
              None \<Rightarrow> None
            | Some c \<Rightarrow>
                if window_covers d (cab_id c) tm then None
                else Some (door_finding env (''status_ext|'' @ nat_str (cab_id c) @ ''|'' @ iso_str (tm - tm mod hours 1))
                  (cab_display_id c)
                  ''The cabinet's last state (status_ext) says door_state = open and no service window was announced for that time.''
                  (evidence env ''pedestal_cache'' [pc_id p]
                     [(''cache_key'', JStr key), (''door_state'', jget data ''door_state'')] (Some tm))
                  tm (cab_is_simulated c)))))"

definition status_snapshots :: "db \<Rightarrow> dtime \<Rightarrow> dtime \<Rightarrow> (pedestal_cache \<times> string \<times> dtime) list" where
  "status_snapshots d since now = List.map_filter
     (\<lambda>p. case (pc_cache_key p, pc_last_synced_at p) of
        (Some key, Some tm) \<Rightarrow> if like_status key \<and> in_window since now tm then Some (p, key, tm) else None
      | _ \<Rightarrow> None) (db_cache d)"

definition door_alarms :: "db \<Rightarrow> dtime \<Rightarrow> dtime \<Rightarrow> (alarm_log \<times> cabinet) list" where
  "door_alarms d since now = List.map_filter
     (\<lambda>a. map_option (Pair a) (Option.bind (al_cabinet_id a) (cabinet_at d)))
     (filter (\<lambda>a. in_window since now (al_received_at a)) (db_alarm_log d))"

definition door_no_window :: "agent_env \<Rightarrow> db \<Rightarrow> dtime \<Rightarrow> dtime \<Rightarrow> case_finding list" where
  "door_no_window env d since now =
     List.map_filter (door_alarm_finding env d) (door_alarms d since now)
     @ List.map_filter (door_snapshot_finding env d) (status_snapshots d since now)"

subsection \<open>All of them\<close>

datatype rule = Rule (rl_id: string) (rl_severity: string) (rl_fn: "agent_env \<Rightarrow> db \<Rightarrow> dtime \<Rightarrow> dtime \<Rightarrow> case_finding list")

definition RULES :: "rule list" where
  "RULES = [Rule ''decoy_touch'' ''critical'' decoy_touch, Rule ''login_spray'' ''warning'' login_spray,
     Rule ''socket_cmd_odd_hour'' ''warning'' socket_cmd_odd_hour, Rule ''socket_cmd_new_ip'' ''warning'' socket_cmd_new_ip,
     Rule ''account_new_endpoint'' ''info'' account_new_endpoint, Rule ''door_no_window'' ''warning'' door_no_window]"

definition RULE_IDS :: "string list" where "RULE_IDS = map rl_id RULES"

section \<open>One pass\<close>

definition DEFAULT_WINDOW :: tdelta where "DEFAULT_WINDOW = hours 24"

definition alarm_row :: "agent_env \<Rightarrow> case_finding \<Rightarrow> dtime \<Rightarrow> db \<Rightarrow> security_alarm" where
  "alarm_row env f now d =
     \<lparr>sa_id = next_id sa_id (db_security_alarms d), sa_rule_id = fi_rule_id f, sa_fingerprint = fingerprint env f,
      sa_severity = fi_severity f, sa_title = fi_title f, sa_why = fi_why f, sa_evidence = JList (fi_evidence f),
      sa_window_from = fi_window_from f, sa_window_to = fi_window_to f, sa_created_at = now, sa_state = ''open'',
      sa_decided_by = None, sa_decided_at = None, sa_decision_note = None, sa_simulated = fi_simulated f\<rparr>"

text \<open>\<open>INSERT ... ON CONFLICT (fingerprint) DO NOTHING\<close>, and how many rows it made.\<close>

definition insert_alarm :: "agent_env \<Rightarrow> case_finding \<Rightarrow> dtime \<Rightarrow> db \<Rightarrow> nat \<times> db" where
  "insert_alarm env f now d =
     (if fingerprint env f \<in> sa_fingerprint ` set (db_security_alarms d) then (0, d)
      else (1, d\<lparr>db_security_alarms := db_security_alarms d @ [alarm_row env f now d]\<rparr>))"

fun insert_alarms :: "agent_env \<Rightarrow> dtime \<Rightarrow> case_finding list \<Rightarrow> db \<Rightarrow> nat \<times> db" where
  "insert_alarms env now [] d = (0, d)"
| "insert_alarms env now (f # fs) d =
     (case insert_alarm env f now d of (n, d1) \<Rightarrow>
        (case insert_alarms env now fs d1 of (m, d2) \<Rightarrow> (n + m, d2)))"

definition mode_of :: "db \<Rightarrow> string \<Rightarrow> string" where
  "mode_of d rid = (case find (\<lambda>s. rs_rule_id s = rid) (db_rule_settings d) of Some s \<Rightarrow> rs_mode s | None \<Rightarrow> ''shadow'')"

record rule_result =
  rr_rule_id :: string
  rr_mode :: string
  rr_found :: nat
  rr_opened :: nat

definition run_rule :: "agent_env \<Rightarrow> (string \<Rightarrow> string) \<Rightarrow> dtime \<Rightarrow> dtime \<Rightarrow> rule \<Rightarrow> db \<Rightarrow> rule_result \<times> db" where
  "run_rule env modes since now r d =
     (let fs = rl_fn r env d since now; mode = modes (rl_id r) in
      case (if mode = ''active'' then insert_alarms env now fs d else (0, d)) of
        (opened, d') \<Rightarrow> (\<lparr>rr_rule_id = rl_id r, rr_mode = mode, rr_found = length fs, rr_opened = opened\<rparr>, d'))"

fun run_rules :: "agent_env \<Rightarrow> (string \<Rightarrow> string) \<Rightarrow> dtime \<Rightarrow> dtime \<Rightarrow> rule list \<Rightarrow> db \<Rightarrow> rule_result list \<times> db" where
  "run_rules env modes since now [] d = ([], d)"
| "run_rules env modes since now (r # rs) d =
     (case run_rule env modes since now r d of (x, d1) \<Rightarrow>
        (case run_rules env modes since now rs d1 of (xs, d2) \<Rightarrow> (x # xs, d2)))"

definition run_once :: "agent_env \<Rightarrow> dtime \<Rightarrow> tdelta \<Rightarrow> db \<Rightarrow> rule_result list \<times> db" where
  "run_once env now window d =
     (case run_rules env (mode_of d) (now - window) now RULES d of
        (out, d') \<Rightarrow> (out, d'\<lparr>db_agent_passes := db_agent_passes d' @
          [\<lparr>ap_id = next_id ap_id (db_agent_passes d'), ap_finished_at = now, ap_rules = int (length out),
            ap_opened = int (sum_list (map rr_opened out))\<rparr>]\<rparr>))"

section \<open>What a rule reads, and what it answers\<close>

text \<open>No rule reads the agent's own two tables.\<close>

abbreviation own_tables :: "security_alarm list \<Rightarrow> agent_pass list \<Rightarrow> db \<Rightarrow> db" where
  "own_tables as ps d \<equiv> d\<lparr>db_security_alarms := as, db_agent_passes := ps\<rparr>"

lemma rows_frame [simp]:
  "cabinet_at (d\<lparr>db_security_alarms := as\<rparr>) = cabinet_at d" "cabinet_at (d\<lparr>db_agent_passes := ps\<rparr>) = cabinet_at d"
  "marina_row (d\<lparr>db_security_alarms := as\<rparr>) = marina_row d" "marina_row (d\<lparr>db_agent_passes := ps\<rparr>) = marina_row d"
  "mode_of (d\<lparr>db_security_alarms := as\<rparr>) = mode_of d" "mode_of (d\<lparr>db_agent_passes := ps\<rparr>) = mode_of d"
  by (auto simp: cabinet_at_def marina_row_def mode_of_def fun_eq_iff)

lemma helpers_frame [simp]:
  "with_cabinet (own_tables as ps d) = with_cabinet d"
  "on_simulated (own_tables as ps d) = on_simulated d"
  "window_covers (own_tables as ps d) = window_covers d"
  "snapshot_cabinet (own_tables as ps d) = snapshot_cabinet d"
  "status_snapshots (own_tables as ps d) = status_snapshots d"
  by (auto simp: fun_eq_iff with_cabinet_def on_simulated_def window_covers_def snapshot_cabinet_def status_snapshots_def Let_def
      split: prod.splits)

lemma command_helpers_frame [simp]:
  "outlet_cmds_in (own_tables as ps d) = outlet_cmds_in d"
  "cmd_history (own_tables as ps d) = cmd_history d"
  "door_alarms (own_tables as ps d) = door_alarms d"
  by (auto simp: fun_eq_iff outlet_cmds_in_def cmd_history_def door_alarms_def)

lemma findings_frame [simp]:
  "new_ip_finding env (own_tables as ps d) = new_ip_finding env d"
  "new_endpoint_finding env (own_tables as ps d) = new_endpoint_finding env d"
  "door_alarm_finding env (own_tables as ps d) = door_alarm_finding env d"
  "door_snapshot_finding env (own_tables as ps d) = door_snapshot_finding env d"
  by (simp_all only: fun_eq_iff new_ip_finding_def new_endpoint_finding_def door_alarm_finding_def door_snapshot_finding_def
      helpers_frame command_helpers_frame simp_thms)

lemma new_endpoints_frame [simp]:
  "new_endpoints env (own_tables as ps d) seen rs = new_endpoints env d seen rs"
  by (induction env d seen rs rule: new_endpoints.induct) (auto simp: Let_def split: option.splits)

lemma rules_frame:
  assumes "r \<in> set RULES"
  shows "rl_fn r env (own_tables as ps d) = rl_fn r env d"
  using assms
  by (auto simp: RULES_def fun_eq_iff decoy_touch_def login_spray_def socket_cmd_odd_hour_def socket_cmd_new_ip_def
      account_new_endpoint_def door_no_window_def)

lemma new_endpoint_ids:
  "new_endpoint_finding env d a actor sim = Some f \<Longrightarrow> fi_rule_id f = ''account_new_endpoint'' \<and> fi_severity f = ''info''"
  by (clarsimp simp: new_endpoint_finding_def Let_def split: if_splits)

lemma new_endpoints_rule:
  "f \<in> set (new_endpoints env d seen rs) \<Longrightarrow> fi_rule_id f = ''account_new_endpoint'' \<and> fi_severity f = ''info''"
  by (induction rs arbitrary: seen) (auto simp: Let_def dest: new_endpoint_ids split: option.splits if_splits)

lemma set_map_filter: "set (List.map_filter f xs) = {y. \<exists>x \<in> set xs. f x = Some y}"
  by (induction xs) (auto simp: List.map_filter_simps split: option.splits)

text \<open>Every finding carries its rule's id and severity.\<close>

lemma finding_ids:
  "fi_rule_id (decoy_finding env g) = ''decoy_touch''" "fi_severity (decoy_finding env g) = ''critical''"
  "fi_rule_id (door_finding env k s w ev tm sim) = ''door_no_window''" "fi_severity (door_finding env k s w ev tm sim) = ''warning''"
  "fi_simulated (door_finding env k s w ev tm sim) = sim"
  by (simp_all add: decoy_finding_def door_finding_def Let_def case_prod_beta)

lemma spray_ids: "spray_finding env g = Some f \<Longrightarrow> fi_rule_id f = ''login_spray'' \<and> fi_severity f = ''warning''"
  by (clarsimp simp: spray_finding_def Let_def case_prod_beta split: if_splits)

lemma odd_hour_ids:
  "odd_hour_finding env r = Some f \<Longrightarrow> fi_rule_id f = ''socket_cmd_odd_hour'' \<and> fi_severity f = ''warning''"
  by (clarsimp simp: odd_hour_finding_def case_prod_beta split: if_splits)

lemma new_ip_ids:
  "new_ip_finding env d r = Some f \<Longrightarrow> fi_rule_id f = ''socket_cmd_new_ip'' \<and> fi_severity f = ''warning''"
  by (clarsimp simp: new_ip_finding_def Let_def case_prod_beta split: if_splits)

lemma door_alarm_ids:
  "door_alarm_finding env d r = Some f \<Longrightarrow> fi_rule_id f = ''door_no_window'' \<and> fi_severity f = ''warning''"
  by (clarsimp simp: door_alarm_finding_def Let_def case_prod_beta finding_ids split: if_splits)

lemma door_snapshot_ids:
  "door_snapshot_finding env d r = Some f \<Longrightarrow> fi_rule_id f = ''door_no_window'' \<and> fi_severity f = ''warning''"
  by (clarsimp simp: door_snapshot_finding_def Let_def case_prod_beta finding_ids split: if_splits option.splits)

lemma finding_rule:
  assumes "r \<in> set RULES" and "f \<in> set (rl_fn r env d since now)"
  shows "fi_rule_id f = rl_id r \<and> fi_severity f = rl_severity r"
  using assms
  by (auto simp: RULES_def decoy_touch_def login_spray_def socket_cmd_odd_hour_def socket_cmd_new_ip_def
      account_new_endpoint_def door_no_window_def set_map_filter finding_ids
      dest: new_endpoints_rule spray_ids odd_hour_ids new_ip_ids door_alarm_ids door_snapshot_ids)

section \<open>What a pass adds\<close>

definition opens :: "agent_env \<Rightarrow> dtime \<Rightarrow> case_finding list \<Rightarrow> db \<Rightarrow> nat \<Rightarrow> db \<Rightarrow> bool" where
  "opens env now fs d n d' \<longleftrightarrow> (\<exists>new. d' = d\<lparr>db_security_alarms := db_security_alarms d @ new\<rparr> \<and> n = length new
     \<and> distinct (map sa_fingerprint new) \<and> sa_fingerprint ` set new \<inter> sa_fingerprint ` set (db_security_alarms d) = {}
     \<and> (\<forall>a \<in> set new. \<exists>f \<in> set fs. \<exists>e. a = alarm_row env f now e)
     \<and> fingerprint env ` set fs \<subseteq> sa_fingerprint ` (set (db_security_alarms d) \<union> set new))"

lemma opens_none: "opens env now [] d 0 d"
  unfolding opens_def by (intro exI[of _ "[]"]) simp

lemma insert_alarm_opens:
  assumes "insert_alarm env f now d = (n, d')"
  shows "opens env now [f] d n d'"
proof (cases "fingerprint env f \<in> sa_fingerprint ` set (db_security_alarms d)")
  case True
  with assms show ?thesis unfolding opens_def by (intro exI[of _ "[]"]) (simp add: insert_alarm_def)
next
  case False
  with assms show ?thesis unfolding opens_def
    by (intro exI[of _ "[alarm_row env f now d]"]) (auto simp: insert_alarm_def alarm_row_def)
qed

lemma opens_trans:
  assumes "opens env now fs d n d1" "opens env now gs d1 m d2"
  shows "opens env now (fs @ gs) d (n + m) d2"
proof -
  from assms(1) obtain xs where xs: "d1 = d\<lparr>db_security_alarms := db_security_alarms d @ xs\<rparr>" "n = length xs"
    "distinct (map sa_fingerprint xs)" "sa_fingerprint ` set xs \<inter> sa_fingerprint ` set (db_security_alarms d) = {}"
    "\<forall>a \<in> set xs. \<exists>f \<in> set fs. \<exists>e. a = alarm_row env f now e"
    "fingerprint env ` set fs \<subseteq> sa_fingerprint ` (set (db_security_alarms d) \<union> set xs)"
    unfolding opens_def by (elim exE conjE)
  from assms(2) obtain ys where ys: "d2 = d1\<lparr>db_security_alarms := db_security_alarms d1 @ ys\<rparr>" "m = length ys"
    "distinct (map sa_fingerprint ys)" "sa_fingerprint ` set ys \<inter> sa_fingerprint ` set (db_security_alarms d1) = {}"
    "\<forall>a \<in> set ys. \<exists>f \<in> set gs. \<exists>e. a = alarm_row env f now e"
    "fingerprint env ` set gs \<subseteq> sa_fingerprint ` (set (db_security_alarms d1) \<union> set ys)"
    unfolding opens_def by (elim exE conjE)
  show ?thesis unfolding opens_def
  proof (intro exI[of _ "xs @ ys"] conjI)
    show "distinct (map sa_fingerprint (xs @ ys))" using xs(1,3) ys(3,4) by auto
    show "\<forall>a \<in> set (xs @ ys). \<exists>f \<in> set (fs @ gs). \<exists>e. a = alarm_row env f now e"
      using xs(5) ys(5) by (metis Un_iff set_append)
  qed (use xs(1,2,4,6) ys(1,2,4,6) in \<open>auto simp: image_Un\<close>)
qed

lemma insert_alarms_opens: "insert_alarms env now fs d = (n, d') \<Longrightarrow> opens env now fs d n d'"
proof (induction fs arbitrary: d n d')
  case (Cons f fs)
  obtain i d1 where i: "insert_alarm env f now d = (i, d1)" by fastforce
  obtain j d2 where j: "insert_alarms env now fs d1 = (j, d2)" by fastforce
  from opens_trans[OF insert_alarm_opens[OF i] Cons.IH[OF j]] Cons.prems i j show ?case by simp
qed (simp add: opens_none)

text \<open>What an active rule would open in the window; a rule in the shadow opens nothing.\<close>

definition active_findings :: "agent_env \<Rightarrow> (string \<Rightarrow> string) \<Rightarrow> dtime \<Rightarrow> dtime \<Rightarrow> rule list \<Rightarrow> db \<Rightarrow> case_finding list" where
  "active_findings env modes since now rs d =
     concat (map (\<lambda>r. if modes (rl_id r) = ''active'' then rl_fn r env d since now else []) rs)"

lemma active_findings_frame:
  "set rs \<subseteq> set RULES \<Longrightarrow> active_findings env modes since now rs (own_tables as ps d) = active_findings env modes since now rs d"
  by (induction rs) (simp_all add: active_findings_def rules_frame)

lemma opens_frame: "opens env now fs d n d' \<Longrightarrow> \<exists>as. d' = own_tables as (db_agent_passes d) d"
  unfolding opens_def by (elim exE conjE) (rule exI, simp)

lemma run_rule_opens:
  assumes "run_rule env modes since now r d = (x, d')"
  shows "opens env now (active_findings env modes since now [r] d) d (rr_opened x) d'"
  using assms by (auto simp: run_rule_def active_findings_def Let_def insert_alarms_opens opens_none split: prod.splits if_splits)

lemma run_rules_opens:
  "run_rules env modes since now rs d = (xs, d') \<Longrightarrow> set rs \<subseteq> set RULES \<Longrightarrow>
   opens env now (active_findings env modes since now rs d) d (sum_list (map rr_opened xs)) d'
   \<and> map rr_rule_id xs = map rl_id rs"
proof (induction rs arbitrary: d xs d')
  case (Cons r rs)
  obtain x d1 where x: "run_rule env modes since now r d = (x, d1)" by fastforce
  obtain ys d2 where ys: "run_rules env modes since now rs d1 = (ys, d2)" by fastforce
  note one = run_rule_opens[OF x]
  from opens_frame[OF this] obtain as where d1: "d1 = own_tables as (db_agent_passes d) d" by (elim exE)
  from Cons.prems(2) have rs: "set rs \<subseteq> set RULES" by simp
  from Cons.IH[OF ys rs] have
    "opens env now (active_findings env modes since now rs d) d1 (sum_list (map rr_opened ys)) d2 \<and> map rr_rule_id ys = map rl_id rs"
    unfolding d1 active_findings_frame[OF rs] .
  moreover have "active_findings env modes since now (r # rs) d
      = active_findings env modes since now [r] d @ active_findings env modes since now rs d"
    by (simp add: active_findings_def)
  moreover have "rr_rule_id x = rl_id r" using x by (auto simp: run_rule_def Let_def split: prod.splits)
  moreover from Cons.prems(1) x ys have "xs = x # ys" "d' = d2" by simp_all
  ultimately show ?case using opens_trans[OF one] by simp
qed (simp add: active_findings_def opens_none)

lemma nothing_new:
  assumes "opens env now fs d n d'" and "fingerprint env ` set fs \<subseteq> sa_fingerprint ` set (db_security_alarms d)"
  shows "db_security_alarms d' = db_security_alarms d"
proof -
  from assms(1) obtain new where new: "d' = d\<lparr>db_security_alarms := db_security_alarms d @ new\<rparr>"
    "sa_fingerprint ` set new \<inter> sa_fingerprint ` set (db_security_alarms d) = {}"
    "\<forall>a \<in> set new. \<exists>f \<in> set fs. \<exists>e. a = alarm_row env f now e"
    unfolding opens_def by (elim exE conjE)
  have "a \<notin> set new" for a
  proof
    assume a: "a \<in> set new"
    with new(3) obtain f where "f \<in> set fs" "sa_fingerprint a = fingerprint env f" by (auto simp: alarm_row_def)
    with assms(2) have "sa_fingerprint a \<in> sa_fingerprint ` set (db_security_alarms d)" by (metis image_eqI subset_iff)
    with a new(2) show False by (metis IntI empty_iff image_eqI)
  qed
  then have "new = []" by (cases new) auto
  with new(1) show ?thesis by simp
qed

lemma run_once_opens:
  assumes "run_once env now window d = (out, d')"
  obtains d1 p where "opens env now (active_findings env (mode_of d) (now - window) now RULES d) d (sum_list (map rr_opened out)) d1"
    and "d' = d1\<lparr>db_agent_passes := db_agent_passes d1 @ [p]\<rparr>" and "ap_opened p = int (sum_list (map rr_opened out))"
    and "map rr_rule_id out = RULE_IDS"
proof -
  obtain xs d1 where r: "run_rules env (mode_of d) (now - window) now RULES d = (xs, d1)" by fastforce
  from run_rules_opens[OF r] assms r show thesis by (intro that) (auto simp: run_once_def RULE_IDS_def)
qed

lemma group_by_keys: "x \<in> set xs \<Longrightarrow> \<exists>g \<in> set (group_by key xs). fst g = key x"
  by (auto simp: group_by_def Let_def)

lemma decoy_found:
  assumes "h \<in> set (db_decoy_hits d)" and "in_window since now (dh_observed_at h)"
  shows "\<exists>f \<in> set (decoy_touch env d since now). fi_rule_id f = ''decoy_touch'' \<and> fi_case_key f = decoy_case (decoy_key h)"
proof -
  let ?hs = "filter (\<lambda>h. in_window since now (dh_observed_at h)) (db_decoy_hits d)"
  from assms have "h \<in> set ?hs" by simp
  from group_by_keys[OF this] obtain g where "g \<in> set (group_by decoy_key ?hs)" "fst g = decoy_key h" by blast
  moreover have "fi_case_key (decoy_finding env g) = decoy_case (fst g)" for g
    by (simp add: decoy_finding_def case_prod_beta Let_def)
  ultimately show ?thesis by (auto simp: decoy_touch_def finding_ids intro!: bexI[of _ g])
qed


section \<open>A concrete pass\<close>

text \<open>Two touches of one decoy on one day; only the decoy rule is active.\<close>

definition sample_hit :: decoy_hit where
  "sample_hit = \<lparr>dh_id = 1, dh_kind = ''endpoint'', dh_decoy = ''/api/admin/debug'', dh_method = Some ''GET'',
     dh_path = Some ''/api/admin/debug'', dh_source_ip = Some ''10.0.0.1'', dh_user_agent = None, dh_observed_at = hours 5\<rparr>"

definition watched_db :: db where
  "watched_db = empty_db\<lparr>db_decoy_hits := [sample_hit, sample_hit\<lparr>dh_id := 2, dh_observed_at := hours 6\<rparr>],
     db_rule_settings := [\<lparr>rs_rule_id = ''decoy_touch'', rs_mode = ''active'', rs_decided_by = Some 1, rs_decided_at = 0\<rparr>]\<rparr>"

definition sample_agent :: agent_env where
  "sample_agent = \<lparr>ag_sha256 = (\<lambda>s. s), ag_local_hour = (\<lambda>_ _. None), ag_dumps = (\<lambda>_. []), ag_loads = (\<lambda>_. None), ag_str = (\<lambda>_. [])\<rparr>"


end
