(* ===== verification/Security_Desk.thy ===== *)
theory Security_Desk
  imports Security_Agent
begin

text \<open>
  The Security screen (\<open>routers/security.py\<close>): an Admin decides on alarms, switches rules between
  shadow and active, announces and cancels service windows and imports files; and the decoy
  endpoints, which record and answer like a route that does not exist. With the agent's passes
  these are all the steps that change the security tables.

  The sorted \<open>json.dumps\<close> of an import is a parameter of the request's environment.
\<close>

section \<open>What the schemas accept\<close>

record window_in =
  wi_cabinet_id :: nat
  wi_from_at :: parsed_time
  wi_to_at :: parsed_time
  wi_announced_by :: string
  wi_note :: "string option"

record import_in =
  im_kind :: string
  im_filename :: string
  im_content :: json

datatype desk_op =
    DecideAlarm nat string string
  | SetRuleMode string string
  | AnnounceWindow window_in
  | CancelWindow nat
  | ImportFile import_in

definition between :: "nat \<Rightarrow> nat \<Rightarrow> string \<Rightarrow> bool" where
  "between a b s \<longleftrightarrow> a \<le> char_count s \<and> char_count s \<le> b"

definition kind_char :: "char \<Rightarrow> bool" where
  "kind_char c \<longleftrightarrow> (let n = (of_char c :: int) in 97 \<le> n \<and> n \<le> 122 \<or> 48 \<le> n \<and> n \<le> 57 \<or> n = 95)"

fun desk_schema_ok :: "desk_op \<Rightarrow> bool" where
  "desk_schema_ok (DecideAlarm i state note) \<longleftrightarrow> state \<in> {''acknowledged'', ''closed''} \<and> between 1 2000 note"
| "desk_schema_ok (SetRuleMode rid mode) \<longleftrightarrow> mode \<in> {''shadow'', ''active''}"
| "desk_schema_ok (AnnounceWindow w) \<longleftrightarrow>
     (case wi_from_at w of Naive _ \<Rightarrow> False | Aware _ _ \<Rightarrow> True) \<and> (case wi_to_at w of Naive _ \<Rightarrow> False | Aware _ _ \<Rightarrow> True)
     \<and> between 1 320 (wi_announced_by w) \<and> (case wi_note w of None \<Rightarrow> True | Some n \<Rightarrow> char_count n \<le> 2000)"
| "desk_schema_ok (CancelWindow i) \<longleftrightarrow> True"
| "desk_schema_ok (ImportFile f) \<longleftrightarrow> between 1 40 (im_kind f) \<and> list_all kind_char (im_kind f) \<and> between 1 255 (im_filename f)"

section \<open>The routes\<close>

definition IMPORT_MAX_BYTES :: int where "IMPORT_MAX_BYTES = 5 * 1024 * 1024"

definition decide_alarm :: "nat \<Rightarrow> string \<Rightarrow> string \<Rightarrow> user \<Rightarrow> request \<Rightarrow> dtime \<Rightarrow> db \<Rightarrow> (http_error + unit) \<times> db" where
  "decide_alarm i state note admin rq now d =
     (case find (\<lambda>a. sa_id a = i) (db_security_alarms d) of
        None \<Rightarrow> (Inl (Http 404 ''Alarm not found''), d)
      | Some a \<Rightarrow>
          if sa_state a = ''closed'' then (Inl (Http 409 ''Alarm is closed''), d)
          else if sa_state a = state then (Inl (Http 409 (''Alarm is already '' @ sa_state a)), d)
          else (let n = strip note;
                    a' = a\<lparr>sa_state := state, sa_decided_by := Some (u_id admin), sa_decided_at := Some now,
                           sa_decision_note := Some n\<rparr>
                in (Inr (), audit ''security_alarm_decided'' None None
                      (Some (''alarm '' @ nat_str (sa_id a) @ '' ('' @ sa_rule_id a @ ''): '' @ sa_state a @ '' -> '' @ state
                         @ '': '' @ n)) (Some admin) (rq_ip rq) now
                      (d\<lparr>db_security_alarms := update_where (\<lambda>x. sa_id x = i) (\<lambda>_. a') (db_security_alarms d)\<rparr>))))"

definition set_rule_mode :: "string \<Rightarrow> string \<Rightarrow> user \<Rightarrow> request \<Rightarrow> dtime \<Rightarrow> db \<Rightarrow> (http_error + unit) \<times> db" where
  "set_rule_mode rid mode admin rq now d =
     (if rid \<notin> set RULE_IDS then (Inl (Http 404 ''Unknown rule''), d)
      else (let row = \<lparr>rs_rule_id = rid, rs_mode = mode, rs_decided_by = Some (u_id admin), rs_decided_at = now\<rparr>;
                rows = (if list_ex (\<lambda>s. rs_rule_id s = rid) (db_rule_settings d)
                        then update_where (\<lambda>s. rs_rule_id s = rid) (\<lambda>_. row) (db_rule_settings d)
                        else db_rule_settings d @ [row])
            in (Inr (), audit ''security_rule_mode'' None None (Some (rid @ '': '' @ mode_of d rid @ '' -> '' @ mode))
                  (Some admin) (rq_ip rq) now (d\<lparr>db_rule_settings := rows\<rparr>))))"

definition announce_window :: "window_in \<Rightarrow> user \<Rightarrow> request \<Rightarrow> dtime \<Rightarrow> db \<Rightarrow> (http_error + unit) \<times> db" where
  "announce_window w admin rq now d =
     (case (to_naive_utc (wi_from_at w), to_naive_utc (wi_to_at w), cabinet_at d (wi_cabinet_id w)) of
        (Inr frm, Inr to, Some cab) \<Rightarrow>
          if to \<le> frm then (Inl (Http 422 ''The window must end after it starts''), d)
          else (let row = \<lparr>sw_id = next_id sw_id (db_service_windows d), sw_cabinet_id = cab_id cab, sw_from_at = frm,
                      sw_to_at = to, sw_announced_by = strip (wi_announced_by w), sw_note = wi_note w,
                      sw_created_by = Some (u_id admin), sw_created_at = now\<rparr>
                in if \<not> service_window_checks row then (Inl http_error.Crash, d)
                   else (Inr (), audit ''service_window_announced'' None None
                     (Some (cab_display_id cab @ '' '' @ iso_str frm @ EN_DASH @ iso_str to @ '' ('' @ sw_announced_by row @ '')''))
                     (Some admin) (rq_ip rq) now (d\<lparr>db_service_windows := db_service_windows d @ [row]\<rparr>)))
      | (Inr _, Inr _, None) \<Rightarrow> (Inl (Http 404 ''Cabinet not found''), d)
      | _ \<Rightarrow> (Inl http_error.Crash, d))"

definition cancel_window :: "nat \<Rightarrow> user \<Rightarrow> request \<Rightarrow> dtime \<Rightarrow> db \<Rightarrow> (http_error + unit) \<times> db" where
  "cancel_window i admin rq now d =
     (case find (\<lambda>w. sw_id w = i) (db_service_windows d) of
        None \<Rightarrow> (Inl (Http 404 ''Window not found''), d)
      | Some w \<Rightarrow>
          if sw_from_at w \<le> now then (Inl (Http 409 ''A window that has started cannot be cancelled''), d)
          else (Inr (), audit ''service_window_cancelled'' None None
                  (Some (''window '' @ nat_str (sw_id w) @ '' cabinet '' @ nat_str (sw_cabinet_id w))) (Some admin) (rq_ip rq) now
                  (d\<lparr>db_service_windows := filter (\<lambda>x. sw_id x \<noteq> i) (db_service_windows d)\<rparr>)))"

definition import_file :: "(json \<Rightarrow> string) \<Rightarrow> 't crypto \<Rightarrow> import_in \<Rightarrow> user \<Rightarrow> request \<Rightarrow> dtime \<Rightarrow> db \<Rightarrow> (http_error + unit) \<times> db" where
  "import_file dumps cr f admin rq now d =
     (let raw = dumps (im_content f); sha = cr_sha256 cr raw; name = strip (im_filename f) in
      if int (length raw) > IMPORT_MAX_BYTES then (Inl (Http 413 ''Import larger than 5 MB''), d)
      else if list_ex (\<lambda>i. ai_sha256 i = sha) (db_admin_imports d) then (Inl (Http 409 ''This file was already imported''), d)
      else (Inr (), audit ''security_import'' None None (Some (im_kind f @ '': '' @ name @ '' ('' @ take 12 sha @ '')'')) (Some admin)
              (rq_ip rq) now (d\<lparr>db_admin_imports := db_admin_imports d @
                [\<lparr>ai_id = next_id ai_id (db_admin_imports d), ai_kind = im_kind f, ai_filename = name, ai_sha256 = sha,
                  ai_content = im_content f, ai_imported_by = Some (u_id admin), ai_imported_at = now\<rparr>]\<rparr>)))"

fun desk_op_body :: "(json \<Rightarrow> string) \<Rightarrow> 't crypto \<Rightarrow> desk_op \<Rightarrow> user \<Rightarrow> request \<Rightarrow> dtime \<Rightarrow> db \<Rightarrow> (http_error + unit) \<times> db" where
  "desk_op_body dumps cr (DecideAlarm i state note) = decide_alarm i state note"
| "desk_op_body dumps cr (SetRuleMode rid mode) = set_rule_mode rid mode"
| "desk_op_body dumps cr (AnnounceWindow w) = announce_window w"
| "desk_op_body dumps cr (CancelWindow i) = cancel_window i"
| "desk_op_body dumps cr (ImportFile f) = import_file dumps cr f"

definition desk_request :: "(json \<Rightarrow> string) \<Rightarrow> 't crypto \<Rightarrow> 't \<Rightarrow> desk_op \<Rightarrow> request \<Rightarrow> dtime \<Rightarrow> db \<Rightarrow> (http_error + unit) \<times> db" where
  "desk_request dumps cr tok op rq now d = guarded (require_admin cr d tok now) d (\<lambda>admin.
     if desk_schema_ok op then desk_op_body dumps cr op admin rq now d else (Inl (Http 422 ''validation error''), d))"

text \<open>The decoy endpoints: a row, and the answer of a route that does not exist.\<close>

definition decoy_endpoint :: "request \<Rightarrow> dtime \<Rightarrow> db \<Rightarrow> (http_error + unit) \<times> db" where
  "decoy_endpoint rq now d = (Inl (Http 404 ''Not Found''), decoy_record ''endpoint'' (rq_path rq) rq now d)"

section \<open>The listings\<close>

record alarm_out =
  ao_id :: nat
  ao_rule_id :: string
  ao_severity :: string
  ao_title :: string
  ao_why :: string
  ao_evidence :: json
  ao_window_from :: "dtime option"
  ao_window_to :: "dtime option"
  ao_created_at :: dtime
  ao_state :: string
  ao_decided_by :: "nat option"
  ao_decided_at :: "dtime option"
  ao_decision_note :: "string option"

definition alarm_out_of :: "security_alarm \<Rightarrow> alarm_out" where
  "alarm_out_of a = \<lparr>ao_id = sa_id a, ao_rule_id = sa_rule_id a, ao_severity = sa_severity a, ao_title = sa_title a,
     ao_why = sa_why a, ao_evidence = sa_evidence a, ao_window_from = sa_window_from a, ao_window_to = sa_window_to a,
     ao_created_at = sa_created_at a, ao_state = sa_state a, ao_decided_by = sa_decided_by a,
     ao_decided_at = sa_decided_at a, ao_decision_note = sa_decision_note a\<rparr>"

definition list_alarms :: "'t crypto \<Rightarrow> 't \<Rightarrow> string option \<Rightarrow> nat \<Rightarrow> dtime \<Rightarrow> db \<Rightarrow> http_error + alarm_out list" where
  "list_alarms cr tok state limit now d = sbind (require_admin cr d tok now) (\<lambda>_.
     if (case state of None \<Rightarrow> True | Some s \<Rightarrow> s \<in> {''open'', ''acknowledged'', ''closed''}) \<and> 1 \<le> limit \<and> limit \<le> 1000
     then Inr (map alarm_out_of (take limit (rev (sort_key sa_id
       (filter (\<lambda>a. state = None \<or> Some (sa_state a) = state) (db_security_alarms d))))))
     else Inl (Http 422 ''validation error''))"

definition list_rules :: "'t crypto \<Rightarrow> 't \<Rightarrow> dtime \<Rightarrow> db \<Rightarrow> http_error + (string \<times> string \<times> rule_setting option) list" where
  "list_rules cr tok now d = sbind (require_admin cr d tok now) (\<lambda>_.
     Inr (map (\<lambda>r. (rl_id r, mode_of d (rl_id r), find (\<lambda>s. rs_rule_id s = rl_id r) (db_rule_settings d))) RULES))"

definition list_windows :: "'t crypto \<Rightarrow> 't \<Rightarrow> bool \<Rightarrow> dtime \<Rightarrow> db \<Rightarrow> http_error + (service_window \<times> string) list" where
  "list_windows cr tok include_past now d = sbind (require_admin cr d tok now) (\<lambda>_.
     Inr (sort_key (\<lambda>(w, _). sw_from_at w) (List.map_filter (\<lambda>w. map_option (\<lambda>c. (w, cab_display_id c)) (cabinet_at d (sw_cabinet_id w)))
       (filter (\<lambda>w. include_past \<or> now \<le> sw_to_at w) (db_service_windows d)))))"

definition list_imports :: "'t crypto \<Rightarrow> 't \<Rightarrow> dtime \<Rightarrow> db \<Rightarrow> http_error + admin_import list" where
  "list_imports cr tok now d = sbind (require_admin cr d tok now) (\<lambda>_. Inr (rev (sort_key ai_id (db_admin_imports d))))"

section \<open>The life of an alarm\<close>

definition alarms_ok :: "db \<Rightarrow> bool" where
  "alarms_ok d \<longleftrightarrow> distinct (map sa_id (db_security_alarms d)) \<and> distinct (map sa_fingerprint (db_security_alarms d))
     \<and> list_all security_alarm_checks (db_security_alarms d)"

text \<open>What the agent wrote, and how far a decision has come.\<close>

definition alarm_core :: "security_alarm \<Rightarrow> nat \<times> string \<times> string \<times> string \<times> string \<times> string \<times> json \<times> dtime \<times> bool" where
  "alarm_core a = (sa_id a, sa_rule_id a, sa_fingerprint a, sa_severity a, sa_title a, sa_why a, sa_evidence a, sa_created_at a, sa_simulated a)"

definition state_rank :: "security_alarm \<Rightarrow> nat" where
  "state_rank a = (if sa_state a = ''open'' then 0 else if sa_state a = ''acknowledged'' then 1 else 2)"

definition decided_in :: "db \<Rightarrow> auth_audit list \<Rightarrow> security_alarm \<Rightarrow> bool" where
  "decided_in d rows a \<longleftrightarrow> (\<exists>r \<in> set rows. \<exists>u \<in> set (db_users d). u_role u = ''admin''
     \<and> aa_event r = ''security_alarm_decided'' \<and> aa_actor_id r = Some (u_id u) \<and> sa_decided_by a = Some (u_id u))"

definition alarm_moves :: "security_alarm \<Rightarrow> security_alarm \<Rightarrow> bool" where
  "alarm_moves a b \<longleftrightarrow> alarm_core b = alarm_core a \<and> state_rank a \<le> state_rank b \<and> (sa_state a = ''closed'' \<longrightarrow> b = a)"

definition alarms_progress :: "db \<Rightarrow> db \<Rightarrow> bool" where
  "alarms_progress d d' \<longleftrightarrow> db_users d' = db_users d \<and> (\<exists>rows. db_auth_audit d' = db_auth_audit d @ rows
     \<and> (\<forall>a \<in> set (db_security_alarms d). \<exists>b \<in> set (db_security_alarms d'). alarm_moves a b)
     \<and> (\<forall>b \<in> set (db_security_alarms d'). sa_state b \<noteq> ''open'' \<longrightarrow> b \<in> set (db_security_alarms d) \<or> decided_in d rows b))"

lemma alarm_moves_refl [simp]: "alarm_moves a a"
  by (simp add: alarm_moves_def)

lemma alarm_moves_trans: "alarm_moves a b \<Longrightarrow> alarm_moves b c \<Longrightarrow> alarm_moves a c"
  by (auto simp: alarm_moves_def)

lemma alarms_progress_trans:
  assumes "alarms_progress d d1" "alarms_progress d1 d2"
  shows "alarms_progress d d2"
proof -
  from assms(1) obtain xs where u: "db_users d1 = db_users d" and xs: "db_auth_audit d1 = db_auth_audit d @ xs"
    "\<forall>a \<in> set (db_security_alarms d). \<exists>b \<in> set (db_security_alarms d1). alarm_moves a b"
    "\<forall>b \<in> set (db_security_alarms d1). sa_state b \<noteq> ''open'' \<longrightarrow> b \<in> set (db_security_alarms d) \<or> decided_in d xs b"
    unfolding alarms_progress_def by (elim exE conjE)
  from assms(2) obtain ys where v: "db_users d2 = db_users d1" and ys: "db_auth_audit d2 = db_auth_audit d1 @ ys"
    "\<forall>a \<in> set (db_security_alarms d1). \<exists>b \<in> set (db_security_alarms d2). alarm_moves a b"
    "\<forall>b \<in> set (db_security_alarms d2). sa_state b \<noteq> ''open'' \<longrightarrow> b \<in> set (db_security_alarms d1) \<or> decided_in d1 ys b"
    unfolding alarms_progress_def by (elim exE conjE)
  have "decided_in d (xs @ ys) b" if "decided_in d xs b \<or> decided_in d1 ys b" for b
    using that u unfolding decided_in_def by auto
  then show ?thesis unfolding alarms_progress_def
    using u v xs ys alarm_moves_trans by (intro conjI exI[of _ "xs @ ys"]) (simp, simp, blast, blast)
qed

lemma alarms_progress_same:
  "db_users d' = db_users d \<Longrightarrow> db_auth_audit d' = db_auth_audit d @ rows \<Longrightarrow> db_security_alarms d' = db_security_alarms d \<Longrightarrow>
   alarms_progress d d'"
  unfolding alarms_progress_def by (intro conjI exI[of _ rows] ballI) (simp, simp, metis alarm_moves_refl, simp)

lemma alarms_ok_cong: "db_security_alarms d' = db_security_alarms d \<Longrightarrow> alarms_ok d \<Longrightarrow> alarms_ok d'"
  by (simp add: alarms_ok_def)

subsection \<open>The agent's part\<close>

lemma insert_alarm_ok:
  assumes "insert_alarm env f now d = (n, d')" "alarms_ok d" "fi_severity f \<in> {''info'', ''warning'', ''critical''}"
  shows "alarms_ok d'"
  using assms by (auto simp: insert_alarm_def alarms_ok_def alarm_row_def security_alarm_checks_def split: if_splits)

lemma insert_alarms_ok:
  "insert_alarms env now fs d = (n, d') \<Longrightarrow> alarms_ok d \<Longrightarrow> \<forall>f \<in> set fs. fi_severity f \<in> {''info'', ''warning'', ''critical''} \<Longrightarrow> alarms_ok d'"
proof (induction fs arbitrary: d n d')
  case (Cons f fs)
  obtain i d1 where i: "insert_alarm env f now d = (i, d1)" by fastforce
  obtain j d2 where j: "insert_alarms env now fs d1 = (j, d2)" by fastforce
  from insert_alarm_ok[OF i] Cons.prems have "alarms_ok d1" by simp
  from Cons.IH[OF j this] Cons.prems i j show ?case by simp
qed simp

lemma rule_severities: "r \<in> set RULES \<Longrightarrow> rl_severity r \<in> {''info'', ''warning'', ''critical''}"
  by (auto simp: RULES_def)

lemma run_rules_ok:
  "run_rules env modes since now rs d = (xs, d') \<Longrightarrow> set rs \<subseteq> set RULES \<Longrightarrow> alarms_ok d \<Longrightarrow> alarms_ok d'"
proof (induction rs arbitrary: d xs d')
  case (Cons r rs)
  obtain x d1 where x: "run_rule env modes since now r d = (x, d1)" by fastforce
  obtain ys d2 where ys: "run_rules env modes since now rs d1 = (ys, d2)" by fastforce
  from Cons.prems(2) have r: "r \<in> set RULES" "set rs \<subseteq> set RULES" by simp_all
  have sev: "\<forall>f \<in> set (rl_fn r env d since now). fi_severity f \<in> {''info'', ''warning'', ''critical''}"
    using finding_rule[OF r(1)] rule_severities[OF r(1)] by metis
  have "alarms_ok d1"
    using x Cons.prems(3) insert_alarms_ok[OF _ _ sev] by (auto simp: run_rule_def Let_def split: prod.splits if_splits)
  from Cons.IH[OF ys r(2) this] Cons.prems(1) x ys show ?case by simp
qed simp

lemma opens_progress:
  assumes "opens env now fs d n d1"
  shows "alarms_progress d d1"
proof -
  from assms obtain new where d1: "d1 = d\<lparr>db_security_alarms := db_security_alarms d @ new\<rparr>"
    and new: "\<forall>a \<in> set new. \<exists>f \<in> set fs. \<exists>e. a = alarm_row env f now e"
    unfolding opens_def by (elim exE conjE)
  from new have "sa_state a = ''open''" if "a \<in> set new" for a
    using that by (auto simp: alarm_row_def)
  then have fresh: "b \<in> set (db_security_alarms d)" if "b \<in> set (db_security_alarms d1)" "sa_state b \<noteq> ''open''" for b
    using that by (auto simp: d1)
  have kept: "\<exists>b \<in> set (db_security_alarms d1). alarm_moves a b" if "a \<in> set (db_security_alarms d)" for a
    using that alarm_moves_refl by (intro bexI[of _ a]) (simp_all add: d1)
  show ?thesis unfolding alarms_progress_def
    using kept by (intro conjI exI[of _ "[]"]) (simp add: d1, simp add: d1, blast, blast intro: fresh)
qed

lemma run_once_keeps:
  assumes "run_once env now window d = (out, d')" "alarms_ok d"
  shows "alarms_ok d' \<and> alarms_progress d d'"
proof
  obtain xs d1 where r: "run_rules env (mode_of d) (now - window) now RULES d = (xs, d1)" by fastforce
  with assms(1) obtain p where d': "d' = d1\<lparr>db_agent_passes := db_agent_passes d1 @ [p]\<rparr>" by (auto simp: run_once_def)
  from run_rules_ok[OF r order_refl assms(2)] show "alarms_ok d'" by (rule alarms_ok_cong[rotated]) (simp add: d')
  have "alarms_progress d d1" using run_rules_opens[OF r order_refl] opens_progress by blast
  moreover have "alarms_progress d1 d'" by (rule alarms_progress_same[where rows = "[]"]) (simp_all add: d')
  ultimately show "alarms_progress d d'" by (rule alarms_progress_trans)
qed

subsection \<open>The Admin's part\<close>

lemma update_alarm_ok:
  assumes "alarms_ok d" and a: "find (\<lambda>a. sa_id a = i) (db_security_alarms d) = Some a"
    and core: "alarm_core b = alarm_core a" and checks: "security_alarm_checks b"
  shows "alarms_ok (d\<lparr>db_security_alarms := update_where (\<lambda>x. sa_id x = i) (\<lambda>_. b) (db_security_alarms d)\<rparr>)"
proof -
  from a have mem: "a \<in> set (db_security_alarms d)" "sa_id a = i" by (auto dest: find_Some_D)
  have only: "x = a" if "x \<in> set (db_security_alarms d)" "sa_id x = i" for x
    using assms(1) mem that by (auto simp: alarms_ok_def distinct_map inj_on_def)
  let ?f = "\<lambda>x. if sa_id x = i then b else x"
  have "map sa_id (map ?f (db_security_alarms d)) = map sa_id (db_security_alarms d)"
    "map sa_fingerprint (map ?f (db_security_alarms d)) = map sa_fingerprint (db_security_alarms d)"
    using only core mem(2) by (auto simp: alarm_core_def)
  with assms(1) checks show ?thesis
    by (auto simp: alarms_ok_def update_where_def list_all_iff simp del: map_map)
qed

lemma decide_alarm_keeps:
  assumes "decide_alarm i state note admin rq now d = (res, d')" and ok: "alarms_ok d"
    and state: "state \<in> {''acknowledged'', ''closed''}" and admin: "admin \<in> set (db_users d)" "u_role admin = ''admin''"
  shows "alarms_ok d' \<and> alarms_progress d d'"
proof (cases "d' = d")
  case True
  with ok show ?thesis by (simp add: alarms_progress_same[where rows = "[]"])
next
  case False
  with assms(1) obtain a b r where a: "find (\<lambda>a. sa_id a = i) (db_security_alarms d) = Some a" "sa_state a \<noteq> ''closed''" "sa_state a \<noteq> state"
    and b: "b = a\<lparr>sa_state := state, sa_decided_by := Some (u_id admin), sa_decided_at := Some now, sa_decision_note := Some (strip note)\<rparr>"
    and d': "d' = d\<lparr>db_security_alarms := update_where (\<lambda>x. sa_id x = i) (\<lambda>_. b) (db_security_alarms d),
        db_auth_audit := db_auth_audit d @ [r]\<rparr>"
    and r: "aa_event r = ''security_alarm_decided''" "aa_actor_id r = Some (u_id admin)"
    by (auto simp: decide_alarm_def audit_def Let_def split: option.splits if_splits)
  from a(1) have mem: "a \<in> set (db_security_alarms d)" "sa_id a = i" by (auto dest: find_Some_D)
  have core: "alarm_core b = alarm_core a" by (simp add: b alarm_core_def)
  have checks: "security_alarm_checks b"
    using ok mem(1) state by (auto simp: b alarms_ok_def list_all_iff security_alarm_checks_def)
  have states: "sa_state a \<in> {''open'', ''acknowledged''}"
    using ok mem(1) a(2) by (auto simp: alarms_ok_def list_all_iff security_alarm_checks_def)
  have moves: "alarm_moves a b"
    using core states state a(3) by (auto simp: alarm_moves_def state_rank_def b)
  have only: "x = a" if "x \<in> set (db_security_alarms d)" "sa_id x = i" for x
    using ok mem that by (auto simp: alarms_ok_def distinct_map inj_on_def)
  have "alarms_ok d'" using update_alarm_ok[OF ok a(1) core checks] by (simp add: d' alarms_ok_def)
  moreover have "\<forall>x \<in> set (db_security_alarms d). \<exists>y \<in> set (db_security_alarms d'). alarm_moves x y"
  proof
    fix x assume x: "x \<in> set (db_security_alarms d)"
    show "\<exists>y \<in> set (db_security_alarms d'). alarm_moves x y"
      by (rule bexI[of _ "if sa_id x = i then b else x"]) (use x only moves in \<open>auto simp: d' update_where_def\<close>)
  qed
  moreover have "decided_in d [r] b" using admin r by (auto simp: decided_in_def b)
  then have "\<forall>y \<in> set (db_security_alarms d'). sa_state y \<noteq> ''open'' \<longrightarrow> y \<in> set (db_security_alarms d) \<or> decided_in d [r] y"
    by (auto simp: d' update_where_def)
  ultimately show ?thesis unfolding alarms_progress_def by (intro conjI exI[of _ "[r]"]) (simp_all add: d')
qed

text \<open>Every other operation of the screen leaves users and alarms alone and adds to the audit.\<close>

lemma others_keep:
  assumes "desk_op_body dumps cr op admin rq now d = (res, d')" "\<And>i s n. op \<noteq> DecideAlarm i s n"
  shows "db_users d' = db_users d \<and> db_security_alarms d' = db_security_alarms d \<and> (\<exists>rows. db_auth_audit d' = db_auth_audit d @ rows)"
  using assms
  by (cases op)
     (auto simp: set_rule_mode_def announce_window_def cancel_window_def import_file_def audit_def Let_def
      split: option.splits sum.splits if_splits)

lemma desk_keeps:
  assumes "desk_request dumps cr tok op rq now d = (res, d')" and ok: "alarms_ok d"
  shows "alarms_ok d' \<and> alarms_progress d d'"
proof (cases "\<exists>admin. require_admin cr d tok now = Inr admin \<and> desk_schema_ok op")
  case False
  with assms have "d' = d" by (auto simp: desk_request_def guarded_def split: sum.splits if_splits)
  with ok show ?thesis by (simp add: alarms_progress_same[where rows = "[]"])
next
  case True
  then obtain admin where adm: "require_admin cr d tok now = Inr admin" and sch: "desk_schema_ok op" by blast
  from require_admin_is[OF adm] have admin: "admin \<in> set (db_users d)" "u_role admin = ''admin''"
    by (auto dest: user_of_id)
  from assms(1) adm sch have body: "desk_op_body dumps cr op admin rq now d = (res, d')"
    by (simp add: desk_request_def guarded_def)
  show ?thesis
  proof (cases "\<exists>i s n. op = DecideAlarm i s n")
    case True
    with body sch decide_alarm_keeps[OF _ ok _ admin] show ?thesis by auto
  next
    case False
    with others_keep[OF body] obtain rows where "db_users d' = db_users d" "db_security_alarms d' = db_security_alarms d"
      "db_auth_audit d' = db_auth_audit d @ rows" by blast
    with ok alarms_ok_cong alarms_progress_same show ?thesis by blast
  qed
qed

subsection \<open>Any run of passes and requests\<close>

inductive security_step :: "agent_env \<Rightarrow> (json \<Rightarrow> string) \<Rightarrow> 't crypto \<Rightarrow> db \<Rightarrow> db \<Rightarrow> bool" for env dumps cr where
  a_pass: "run_once env now window d = (out, d') \<Longrightarrow> security_step env dumps cr d d'"
| a_decision: "desk_request dumps cr tok op rq now d = (res, d') \<Longrightarrow> security_step env dumps cr d d'"
| a_decoy: "decoy_endpoint rq now d = (res, d') \<Longrightarrow> security_step env dumps cr d d'"

inductive_cases security_stepE: "security_step env dumps cr d d'"

lemma security_step_keeps:
  assumes "security_step env dumps cr d d'" and "alarms_ok d"
  shows "alarms_ok d' \<and> alarms_progress d d'"
  using assms(1)
proof (rule security_stepE)
  fix rq now res assume step: "decoy_endpoint rq now d = (res, d')"
  then have same: "db_security_alarms d' = db_security_alarms d" by (auto simp: decoy_endpoint_def decoy_record_def)
  from step have "alarms_progress d d'"
    by (intro alarms_progress_same[where rows = "[]"]) (auto simp: decoy_endpoint_def decoy_record_def)
  with alarms_ok_cong[OF same assms(2)] show ?thesis by simp
next
  fix now window out assume "run_once env now window d = (out, d')"
  from run_once_keeps[OF this assms(2)] show ?thesis .
next
  fix tok op rq now res assume "desk_request dumps cr tok op rq now d = (res, d')"
  from desk_keeps[OF this assms(2)] show ?thesis .
qed

lemma security_run_keeps:
  assumes "(security_step env dumps cr)\<^sup>*\<^sup>* d d'" and "alarms_ok d"
  shows "alarms_ok d' \<and> alarms_progress d d'"
  using assms(1)
proof (induction rule: rtranclp_induct)
  case base
  from assms(2) show ?case by (simp add: alarms_progress_same[where rows = "[]"])
next
  case (step d1 d2)
  with security_step_keeps[OF step.hyps(2)] alarms_progress_trans show ?case by blast
qed


section \<open>A concrete run\<close>

text \<open>A pass opens an alarm and the Admin closes it.\<close>

definition desk_db :: db where
  "desk_db = watched_db\<lparr>db_users := [sample_user]\<rparr>"


end
