(* ===== verification/Spec2Isabelle.thy ===== *)
theory Spec2Isabelle
  imports Berth_View Retention Cabinet_Client Credit Nfc_Tags Users Nfc_Simulator Controls Security_Desk
begin

text \<open>header under construction\<close>

end
